theory Spec2Isabelle
  imports Main "HOL-Library.Word"
begin

unbundle bit_operations_syntax

section \<open>Machine description\<close>

text \<open>
  The interpreter is one C file (the handlers, the dispatchers and \<^verbatim>\<open>Chip8_Cycle\<close>) and the
  header \<^verbatim>\<open>chip8/chip8.h\<close> (the enum \<^verbatim>\<open>VirtualMachineDescription\<close> and the glyph table).
  Fixed-width C integers are words; the integer promotions of C are written out where a
  handler computes in \<^verbatim>\<open>int\<close> or \<^verbatim>\<open>size_t\<close> before storing back into a narrower field.
\<close>

type_synonym u8 = "8 word"
type_synonym u16 = "16 word"
type_synonym u32 = "32 word"

abbreviation MEMORY_SIZE :: nat where "MEMORY_SIZE \<equiv> 0x1000"
abbreviation VIDEO_SIZE :: nat where "VIDEO_SIZE \<equiv> 0x0800"
abbreviation START_ADDRESS :: nat where "START_ADDRESS \<equiv> 0x0200"
abbreviation FONTSET_ADDRESS :: nat where "FONTSET_ADDRESS \<equiv> 0x0050"
abbreviation VIDEO_WIDTH :: nat where "VIDEO_WIDTH \<equiv> 64"
abbreviation VIDEO_HEIGHT :: nat where "VIDEO_HEIGHT \<equiv> 32"

definition fontset :: "u8 list" where
  "fontset =
    [0xF0, 0x90, 0x90, 0x90, 0xF0,
     0x20, 0x60, 0x20, 0x20, 0x70,
     0xF0, 0x10, 0xF0, 0x80, 0xF0,
     0xF0, 0x10, 0xF0, 0x10, 0xF0,
     0x90, 0x90, 0xF0, 0x10, 0x10,
     0xF0, 0x80, 0xF0, 0x10, 0xF0,
     0xF0, 0x80, 0xF0, 0x90, 0xF0,
     0xF0, 0x10, 0x20, 0x40, 0x40,
     0xF0, 0x90, 0xF0, 0x90, 0xF0,
     0xF0, 0x90, 0xF0, 0x10, 0xF0,
     0xF0, 0x90, 0xF0, 0x90, 0x90,
     0xE0, 0x90, 0xE0, 0x90, 0xE0,
     0xF0, 0x80, 0x80, 0x80, 0xF0,
     0xE0, 0x90, 0x90, 0x90, 0xE0,
     0xF0, 0x80, 0xF0, 0x80, 0xF0,
     0xF0, 0x80, 0xF0, 0x80, 0x80]"

text \<open>
  Modelled from the spec: the macro \<^verbatim>\<open>FONT_SIZE\<close> used by \<^verbatim>\<open>Chip8_Create\<close> is not declared in
  the header; the glyph table is "16 glyphs x 5 bytes".
\<close>

definition FONT_SIZE :: nat where
  "FONT_SIZE = 16 * 5"

subsection \<open>Accesses outside an array\<close>

text \<open>
  No handler checks an index before it subscripts an array. An access outside the array is
  undefined in C; the model makes it a value, so that every such access is a branch of the
  handler and nothing is read from or written to a cell the code did not address.
\<close>

datatype fault =
    MemoryOutOfBounds nat
  | StackOutOfBounds nat
  | KeyOutOfBounds nat
  | VideoOutOfBounds nat
  | TableOutOfBounds nat
  | NullCall

fun and_then :: "fault + 'a \<Rightarrow> ('a \<Rightarrow> fault + 'b) \<Rightarrow> fault + 'b" where
  "and_then (Inl e) f = Inl e"
| "and_then (Inr a) f = f a"

definition rd :: "(nat \<Rightarrow> fault) \<Rightarrow> 'a list \<Rightarrow> nat \<Rightarrow> fault + 'a" where
  "rd oob xs k = (if k < length xs then Inr (xs ! k) else Inl (oob k))"

definition wr :: "(nat \<Rightarrow> fault) \<Rightarrow> 'a list \<Rightarrow> nat \<Rightarrow> 'a \<Rightarrow> fault + 'a list" where
  "wr oob xs k a = (if k < length xs then Inr (xs[k := a]) else Inl (oob k))"

subsection \<open>Loops\<close>

text \<open>
  \<^verbatim>\<open>for (size_t k = k0; k < n; k++) body\<close>, stopping at the first access outside an array.
\<close>

function for_loop :: "nat \<Rightarrow> nat \<Rightarrow> (nat \<Rightarrow> 's \<Rightarrow> fault + 's) \<Rightarrow> 's \<Rightarrow> fault + 's" where
  "for_loop k n body s =
     (if k < n then and_then (body k s) (for_loop (Suc k) n body) else Inr s)"
  by pat_completeness auto
termination
  by (relation "measure (\<lambda>(k, n, body, s). n - k)") auto

declare for_loop.simps [simp del]

subsection \<open>Function pointers\<close>

text \<open>
  \<^verbatim>\<open>OpcodeFunc\<close> is \<^verbatim>\<open>void (*)(CPU *)\<close>. The opcode tables only ever receive the address of an
  instruction handler and the array \<^verbatim>\<open>dispatcher\<close> only that of a dispatcher function, so
  the two kinds of pointer are two types. \<open>NULL\<close> is what \<^verbatim>\<open>clearMemory\<close> leaves in a slot.
\<close>

datatype OpcodeFunc =
    NULL
  | P_OP_00E0 | P_OP_00EE | P_OP_0nnn | P_OP_1nnn | P_OP_2nnn | P_OP_3xkk | P_OP_4xkk
  | P_OP_5xy0 | P_OP_6xkk | P_OP_7xkk | P_OP_8xy0 | P_OP_8xy1 | P_OP_8xy2 | P_OP_8xy3
  | P_OP_8xy4 | P_OP_8xy5 | P_OP_8xy6 | P_OP_8xy7 | P_OP_8xyE | P_OP_9xy0 | P_OP_Annn
  | P_OP_Bnnn | P_OP_Cxkk | P_OP_Dxyn | P_OP_Ex9E | P_OP_ExA1 | P_OP_Fx07 | P_OP_Fx0A
  | P_OP_Fx15 | P_OP_Fx18 | P_OP_Fx1E | P_OP_Fx29 | P_OP_Fx33 | P_OP_Fx55 | P_OP_Fx65

datatype DispatcherFunc =
    NULL_dispatcher
  | P_dispatcher0 | P_dispatcher1 | P_dispatcher2 | P_dispatcher3
  | P_dispatcher4 | P_dispatcher5 | P_dispatcher6 | P_dispatcher7
  | P_dispatcher8 | P_dispatcher9 | P_dispatcherA | P_dispatcherB
  | P_dispatcherC | P_dispatcherD | P_dispatcherE | P_dispatcherF

subsection \<open>The machine state\<close>

text \<open>
  \<^verbatim>\<open>struct CPU\<close> as the C file uses it: the fields \<^verbatim>\<open>v\<close>, \<^verbatim>\<open>i\<close>, \<^verbatim>\<open>dispatcher\<close> and
  \<^verbatim>\<open>table0\<close> .. \<^verbatim>\<open>tableF\<close> are those the handlers name (the declaration in the header names
  them differently and has a single trailing table). Element types are the header's,
  except \<^verbatim>\<open>gfx\<close>, whose cells \<^verbatim>\<open>OP_Dxyn\<close> reads and writes through a \<^verbatim>\<open>uint32_t *\<close> and compares
  with \<^verbatim>\<open>0xFFFFFFFF\<close>. The field \<open>seed\<close> is the \<^verbatim>\<open>static uint32_t seed\<close> of \<^verbatim>\<open>OP_Cxkk\<close>, which
  lives outside the struct and survives across calls.
\<close>

record CPU =
  memory :: "u8 list"
  v :: "u8 list"
  i :: u16
  pc :: u16
  stack :: "u16 list"
  sp :: u16
  opcode :: u16
  delaytimer :: u8
  soundtimer :: u8
  key :: "u8 list"
  gfx :: "u32 list"
  dispatcher :: "DispatcherFunc list"
  table0 :: "OpcodeFunc list"
  table1 :: "OpcodeFunc list"
  table2 :: "OpcodeFunc list"
  table3 :: "OpcodeFunc list"
  table4 :: "OpcodeFunc list"
  table5 :: "OpcodeFunc list"
  table6 :: "OpcodeFunc list"
  table7 :: "OpcodeFunc list"
  table8 :: "OpcodeFunc list"
  table9 :: "OpcodeFunc list"
  tableA :: "OpcodeFunc list"
  tableB :: "OpcodeFunc list"
  tableC :: "OpcodeFunc list"
  tableD :: "OpcodeFunc list"
  tableE :: "OpcodeFunc list"
  tableF :: "OpcodeFunc list"
  seed :: u32

text \<open>The array sizes of the declaration: 4096 bytes of memory, 16 registers, 16 stack
  levels, 16 keys and 64 x 32 framebuffer cells.\<close>

definition sized :: "CPU \<Rightarrow> bool" where
  "sized s \<longleftrightarrow>
     length (memory s) = MEMORY_SIZE \<and> length (v s) = 16 \<and> length (stack s) = 16 \<and>
     length (key s) = 16 \<and> length (gfx s) = VIDEO_WIDTH * VIDEO_HEIGHT"

subsection \<open>Operand fields of the latched opcode\<close>

text \<open>
  The locals every handler starts with:
  \<^verbatim>\<open>x = (opcode & 0x0F00u) >> 8u\<close>, \<^verbatim>\<open>y = (opcode & 0x00F0u) >> 4u\<close>,
  \<^verbatim>\<open>byte = opcode & 0x00FFu\<close>, \<^verbatim>\<open>address = opcode & 0x0FFFu\<close>, \<^verbatim>\<open>height = opcode & 0x000Fu\<close>.
\<close>

definition x_of :: "CPU \<Rightarrow> nat" where
  "x_of s = unat (drop_bit 8 (opcode s AND 0x0F00))"

definition y_of :: "CPU \<Rightarrow> nat" where
  "y_of s = unat (drop_bit 4 (opcode s AND 0x00F0))"

definition byte_of :: "CPU \<Rightarrow> u8" where
  "byte_of s = ucast (opcode s AND 0x00FF)"

definition address_of :: "CPU \<Rightarrow> u16" where
  "address_of s = opcode s AND 0x0FFF"

definition height_of :: "CPU \<Rightarrow> nat" where
  "height_of s = unat (opcode s AND 0x000F)"

section \<open>Instruction handlers\<close>

text \<open>\<^verbatim>\<open>clearMemory(cpu->gfx, VIDEO_SIZE)\<close> zeroes \<^verbatim>\<open>VIDEO_SIZE\<close> bytes, that is the first
  \<^verbatim>\<open>VIDEO_SIZE / 4\<close> cells of four bytes.\<close>

definition OP_00E0 :: "CPU \<Rightarrow> CPU" where
  "OP_00E0 s =
     s\<lparr>gfx := replicate (min (VIDEO_SIZE div 4) (length (gfx s))) 0 @ drop (VIDEO_SIZE div 4) (gfx s)\<rparr>"

definition OP_00EE :: "CPU \<Rightarrow> fault + CPU" where
  "OP_00EE s =
     (let s1 = s\<lparr>sp := sp s - 1\<rparr> in
      and_then (rd StackOutOfBounds (stack s1) (unat (sp s1))) (\<lambda>ret. Inr (s1\<lparr>pc := ret\<rparr>)))"

definition OP_0nnn :: "CPU \<Rightarrow> CPU" where
  "OP_0nnn s = s"

definition OP_1nnn :: "CPU \<Rightarrow> CPU" where
  "OP_1nnn s = s\<lparr>pc := address_of s\<rparr>"

definition OP_2nnn :: "CPU \<Rightarrow> fault + CPU" where
  "OP_2nnn s =
     (let address = address_of s in
      and_then (wr StackOutOfBounds (stack s) (unat (sp s)) (pc s))
        (\<lambda>stk. Inr (s\<lparr>stack := stk, sp := sp s + 1, pc := address\<rparr>)))"

definition OP_3xkk :: "CPU \<Rightarrow> CPU" where
  "OP_3xkk s = (if v s ! x_of s = byte_of s then s\<lparr>pc := pc s + 2\<rparr> else s)"

definition OP_4xkk :: "CPU \<Rightarrow> CPU" where
  "OP_4xkk s = (if v s ! x_of s \<noteq> byte_of s then s\<lparr>pc := pc s + 2\<rparr> else s)"

definition OP_5xy0 :: "CPU \<Rightarrow> CPU" where
  "OP_5xy0 s = (if v s ! x_of s = v s ! y_of s then s\<lparr>pc := pc s + 2\<rparr> else s)"

definition OP_6xkk :: "CPU \<Rightarrow> CPU" where
  "OP_6xkk s = s\<lparr>v := (v s)[x_of s := byte_of s]\<rparr>"

definition OP_7xkk :: "CPU \<Rightarrow> CPU" where
  "OP_7xkk s = s\<lparr>v := (v s)[x_of s := v s ! x_of s + byte_of s]\<rparr>"

definition OP_8xy0 :: "CPU \<Rightarrow> CPU" where
  "OP_8xy0 s = s\<lparr>v := (v s)[x_of s := v s ! y_of s]\<rparr>"

definition OP_8xy1 :: "CPU \<Rightarrow> CPU" where
  "OP_8xy1 s = s\<lparr>v := (v s)[x_of s := v s ! x_of s OR v s ! y_of s]\<rparr>"

definition OP_8xy2 :: "CPU \<Rightarrow> CPU" where
  "OP_8xy2 s = s\<lparr>v := (v s)[x_of s := v s ! x_of s AND v s ! y_of s]\<rparr>"

definition OP_8xy3 :: "CPU \<Rightarrow> CPU" where
  "OP_8xy3 s = s\<lparr>v := (v s)[x_of s := v s ! x_of s XOR v s ! y_of s]\<rparr>"

text \<open>\<^verbatim>\<open>uint16_t sum = v[x] + v[y]\<close>: the addition is done in \<^verbatim>\<open>int\<close> and cannot wrap.\<close>

definition OP_8xy4 :: "CPU \<Rightarrow> CPU" where
  "OP_8xy4 s =
     (let x = x_of s; y = y_of s;
          sum = (ucast (v s ! x) :: u16) + ucast (v s ! y);
          v1 = (v s)[x := ucast (sum AND 0xFF)]
      in s\<lparr>v := v1[0xF := (if sum > 255 then 1 else 0)]\<rparr>)"

text \<open>The flag compares the saved \<^verbatim>\<open>vX\<close> with \<^verbatim>\<open>cpu->v[y]\<close> as it is after the subtraction was
  stored.\<close>

definition OP_8xy5 :: "CPU \<Rightarrow> CPU" where
  "OP_8xy5 s =
     (let x = x_of s; y = y_of s;
          vX = v s ! x;
          v1 = (v s)[x := v s ! x - v s ! y]
      in s\<lparr>v := v1[0xF := (if vX \<ge> v1 ! y then 1 else 0)]\<rparr>)"

definition OP_8xy6 :: "CPU \<Rightarrow> CPU" where
  "OP_8xy6 s =
     (let x = x_of s;
          vX = v s ! x;
          v1 = (v s)[x := drop_bit 1 (v s ! x)]
      in s\<lparr>v := v1[0xF := vX AND 0x01]\<rparr>)"

text \<open>Both operands of the comparison are read from the register file after \<^verbatim>\<open>v[x]\<close> was
  overwritten.\<close>

definition OP_8xy7 :: "CPU \<Rightarrow> CPU" where
  "OP_8xy7 s =
     (let x = x_of s; y = y_of s;
          v1 = (v s)[x := v s ! y - v s ! x]
      in s\<lparr>v := v1[0xF := (if v1 ! y > v1 ! x then 1 else 0)]\<rparr>)"

definition OP_8xyE :: "CPU \<Rightarrow> CPU" where
  "OP_8xyE s =
     (let x = x_of s;
          vX = v s ! x;
          v1 = (v s)[x := push_bit 1 (v s ! x)]
      in s\<lparr>v := v1[0xF := drop_bit 7 (vX AND 0x80)]\<rparr>)"

definition OP_9xy0 :: "CPU \<Rightarrow> CPU" where
  "OP_9xy0 s = (if v s ! x_of s \<noteq> v s ! y_of s then s\<lparr>pc := pc s + 2\<rparr> else s)"

definition OP_Annn :: "CPU \<Rightarrow> CPU" where
  "OP_Annn s = s\<lparr>i := address_of s\<rparr>"

definition OP_Bnnn :: "CPU \<Rightarrow> CPU" where
  "OP_Bnnn s = s\<lparr>pc := address_of s + ucast (v s ! 0x0)\<rparr>"

text \<open>The linear congruential generator, in \<^verbatim>\<open>uint32_t\<close> arithmetic.\<close>

definition OP_Cxkk :: "CPU \<Rightarrow> CPU" where
  "OP_Cxkk s =
     (let x = x_of s; byte = byte_of s;
          seed1 = (seed s * 1103515245 + 12345) mod 2147483648
      in s\<lparr>seed := seed1, v := (v s)[x := ucast (seed1 AND ucast byte)]\<rparr>)"

text \<open>
  One column of one sprite row: the cell \<^verbatim>\<open>gfx[screenIndex]\<close> is read and written only under
  \<^verbatim>\<open>if (spritePixel)\<close>. There is no test of \<^verbatim>\<open>xPos + col\<close> against the width or of
  \<^verbatim>\<open>yPos + row\<close> against the height.
\<close>

definition draw_pixel :: "u8 \<Rightarrow> nat \<Rightarrow> nat \<Rightarrow> nat \<Rightarrow> nat \<Rightarrow> CPU \<Rightarrow> fault + CPU" where
  "draw_pixel spriteByte xPos yPos row col s =
     (let spritePixel = spriteByte AND drop_bit col 0x80;
          screenIndex = ((yPos + row) * VIDEO_WIDTH + (xPos + col)) mod 65536
      in if spritePixel \<noteq> 0
         then and_then (rd VideoOutOfBounds (gfx s) screenIndex)
           (\<lambda>screenPixel.
              let s1 = (if screenPixel = 0xFFFFFFFF then s\<lparr>v := (v s)[0xF := 1]\<rparr> else s)
              in Inr (s1\<lparr>gfx := (gfx s1)[screenIndex := screenPixel XOR 0xFFFFFFFF]\<rparr>))
         else Inr s)"

definition draw_row :: "nat \<Rightarrow> nat \<Rightarrow> nat \<Rightarrow> CPU \<Rightarrow> fault + CPU" where
  "draw_row xPos yPos row s =
     and_then (rd MemoryOutOfBounds (memory s) (unat (i s) + row))
       (\<lambda>spriteByte. for_loop 0 8 (draw_pixel spriteByte xPos yPos row) s)"

definition OP_Dxyn :: "CPU \<Rightarrow> fault + CPU" where
  "OP_Dxyn s =
     (let x = x_of s; y = y_of s; height = height_of s;
          xPos = unat (v s ! x) mod VIDEO_WIDTH;
          yPos = unat (v s ! y) mod VIDEO_HEIGHT
      in for_loop 0 height (draw_row xPos yPos) (s\<lparr>v := (v s)[0xF := 0]\<rparr>))"

definition OP_Ex9E :: "CPU \<Rightarrow> fault + CPU" where
  "OP_Ex9E s =
     and_then (rd KeyOutOfBounds (key s) (unat (v s ! x_of s)))
       (\<lambda>pressed. Inr (if pressed \<noteq> 0 then s\<lparr>pc := pc s + 2\<rparr> else s))"

definition OP_ExA1 :: "CPU \<Rightarrow> fault + CPU" where
  "OP_ExA1 s =
     and_then (rd KeyOutOfBounds (key s) (unat (v s ! x_of s)))
       (\<lambda>pressed. Inr (if pressed = 0 then s\<lparr>pc := pc s + 2\<rparr> else s))"

definition OP_Fx07 :: "CPU \<Rightarrow> CPU" where
  "OP_Fx07 s = s\<lparr>v := (v s)[x_of s := delaytimer s]\<rparr>"

definition OP_Fx0A :: "CPU \<Rightarrow> CPU" where
  "OP_Fx0A s =
     (let x = x_of s in
      if key s ! 0x0 \<noteq> 0 then s\<lparr>v := (v s)[x := 0]\<rparr>
      else if key s ! 0x1 \<noteq> 0 then s\<lparr>v := (v s)[x := 0x1]\<rparr>
      else if key s ! 0x2 \<noteq> 0 then s\<lparr>v := (v s)[x := 0x2]\<rparr>
      else if key s ! 0x3 \<noteq> 0 then s\<lparr>v := (v s)[x := 0x3]\<rparr>
      else if key s ! 0x4 \<noteq> 0 then s\<lparr>v := (v s)[x := 0x4]\<rparr>
      else if key s ! 0x5 \<noteq> 0 then s\<lparr>v := (v s)[x := 0x5]\<rparr>
      else if key s ! 0x6 \<noteq> 0 then s\<lparr>v := (v s)[x := 0x6]\<rparr>
      else if key s ! 0x7 \<noteq> 0 then s\<lparr>v := (v s)[x := 0x7]\<rparr>
      else if key s ! 0x8 \<noteq> 0 then s\<lparr>v := (v s)[x := 0x8]\<rparr>
      else if key s ! 0x9 \<noteq> 0 then s\<lparr>v := (v s)[x := 0x9]\<rparr>
      else if key s ! 0xA \<noteq> 0 then s\<lparr>v := (v s)[x := 0xA]\<rparr>
      else if key s ! 0xB \<noteq> 0 then s\<lparr>v := (v s)[x := 0xB]\<rparr>
      else if key s ! 0xC \<noteq> 0 then s\<lparr>v := (v s)[x := 0xC]\<rparr>
      else if key s ! 0xD \<noteq> 0 then s\<lparr>v := (v s)[x := 0xD]\<rparr>
      else if key s ! 0xE \<noteq> 0 then s\<lparr>v := (v s)[x := 0xE]\<rparr>
      else if key s ! 0xF \<noteq> 0 then s\<lparr>v := (v s)[x := 0xF]\<rparr>
      else s\<lparr>pc := pc s - 2\<rparr>)"

definition OP_Fx15 :: "CPU \<Rightarrow> CPU" where
  "OP_Fx15 s = s\<lparr>delaytimer := v s ! x_of s\<rparr>"

definition OP_Fx18 :: "CPU \<Rightarrow> CPU" where
  "OP_Fx18 s = s\<lparr>soundtimer := v s ! x_of s\<rparr>"

definition OP_Fx1E :: "CPU \<Rightarrow> CPU" where
  "OP_Fx1E s = s\<lparr>i := i s + ucast (v s ! x_of s)\<rparr>"

definition OP_Fx29 :: "CPU \<Rightarrow> CPU" where
  "OP_Fx29 s = (let digit = v s ! x_of s in s\<lparr>i := 0x0050 + 5 * ucast digit\<rparr>)"

text \<open>The three stores in the order of the source: ones, tens, hundreds. The address
  \<^verbatim>\<open>cpu->i + 2\<close> is computed in \<^verbatim>\<open>int\<close>.\<close>

definition OP_Fx33 :: "CPU \<Rightarrow> fault + CPU" where
  "OP_Fx33 s =
     (let x = x_of s; value0 = v s ! x in
      and_then (wr MemoryOutOfBounds (memory s) (unat (i s) + 2) (value0 mod 10))
        (\<lambda>m2. let value1 = value0 div 10 in
           and_then (wr MemoryOutOfBounds m2 (unat (i s) + 1) (value1 mod 10))
             (\<lambda>m1. let value2 = value1 div 10 in
                and_then (wr MemoryOutOfBounds m1 (unat (i s)) (value2 mod 10))
                  (\<lambda>m0. Inr (s\<lparr>memory := m0\<rparr>)))))"

text \<open>\<^verbatim>\<open>for (size_t i = 0; i <= x; i++)\<close> runs \<open>x + 1\<close> times; \<^verbatim>\<open>cpu->i + i\<close> is computed in
  \<^verbatim>\<open>size_t\<close>.\<close>

definition OP_Fx55 :: "CPU \<Rightarrow> fault + CPU" where
  "OP_Fx55 s =
     (let x = x_of s in
      for_loop 0 (Suc x)
        (\<lambda>k t. and_then (wr MemoryOutOfBounds (memory t) (unat (i t) + k) (v t ! k))
                  (\<lambda>m. Inr (t\<lparr>memory := m\<rparr>))) s)"

definition OP_Fx65 :: "CPU \<Rightarrow> fault + CPU" where
  "OP_Fx65 s =
     (let x = x_of s in
      for_loop 0 (Suc x)
        (\<lambda>k t. and_then (rd MemoryOutOfBounds (memory t) (unat (i t) + k))
                  (\<lambda>b. Inr (t\<lparr>v := (v t)[k := b]\<rparr>))) s)"

section \<open>Decode and dispatch\<close>

fun call_op :: "OpcodeFunc \<Rightarrow> CPU \<Rightarrow> fault + CPU" where
  "call_op NULL s = Inl NullCall"
| "call_op P_OP_00E0 s = Inr (OP_00E0 s)"
| "call_op P_OP_00EE s = OP_00EE s"
| "call_op P_OP_0nnn s = Inr (OP_0nnn s)"
| "call_op P_OP_1nnn s = Inr (OP_1nnn s)"
| "call_op P_OP_2nnn s = OP_2nnn s"
| "call_op P_OP_3xkk s = Inr (OP_3xkk s)"
| "call_op P_OP_4xkk s = Inr (OP_4xkk s)"
| "call_op P_OP_5xy0 s = Inr (OP_5xy0 s)"
| "call_op P_OP_6xkk s = Inr (OP_6xkk s)"
| "call_op P_OP_7xkk s = Inr (OP_7xkk s)"
| "call_op P_OP_8xy0 s = Inr (OP_8xy0 s)"
| "call_op P_OP_8xy1 s = Inr (OP_8xy1 s)"
| "call_op P_OP_8xy2 s = Inr (OP_8xy2 s)"
| "call_op P_OP_8xy3 s = Inr (OP_8xy3 s)"
| "call_op P_OP_8xy4 s = Inr (OP_8xy4 s)"
| "call_op P_OP_8xy5 s = Inr (OP_8xy5 s)"
| "call_op P_OP_8xy6 s = Inr (OP_8xy6 s)"
| "call_op P_OP_8xy7 s = Inr (OP_8xy7 s)"
| "call_op P_OP_8xyE s = Inr (OP_8xyE s)"
| "call_op P_OP_9xy0 s = Inr (OP_9xy0 s)"
| "call_op P_OP_Annn s = Inr (OP_Annn s)"
| "call_op P_OP_Bnnn s = Inr (OP_Bnnn s)"
| "call_op P_OP_Cxkk s = Inr (OP_Cxkk s)"
| "call_op P_OP_Dxyn s = OP_Dxyn s"
| "call_op P_OP_Ex9E s = OP_Ex9E s"
| "call_op P_OP_ExA1 s = OP_ExA1 s"
| "call_op P_OP_Fx07 s = Inr (OP_Fx07 s)"
| "call_op P_OP_Fx0A s = Inr (OP_Fx0A s)"
| "call_op P_OP_Fx15 s = Inr (OP_Fx15 s)"
| "call_op P_OP_Fx18 s = Inr (OP_Fx18 s)"
| "call_op P_OP_Fx1E s = Inr (OP_Fx1E s)"
| "call_op P_OP_Fx29 s = Inr (OP_Fx29 s)"
| "call_op P_OP_Fx33 s = OP_Fx33 s"
| "call_op P_OP_Fx55 s = OP_Fx55 s"
| "call_op P_OP_Fx65 s = OP_Fx65 s"

text \<open>\<^verbatim>\<open>(*(table[k]))(cpu)\<close>\<close>

definition call_entry :: "OpcodeFunc list \<Rightarrow> nat \<Rightarrow> CPU \<Rightarrow> fault + CPU" where
  "call_entry table k s = and_then (rd TableOutOfBounds table k) (\<lambda>f. call_op f s)"

definition dispatcher0 :: "CPU \<Rightarrow> fault + CPU" where
  "dispatcher0 s = call_entry (table0 s) (unat (opcode s AND 0x000F)) s"

definition dispatcher1 :: "CPU \<Rightarrow> fault + CPU" where
  "dispatcher1 s = call_entry (table1 s) 0x0 s"

definition dispatcher2 :: "CPU \<Rightarrow> fault + CPU" where
  "dispatcher2 s = call_entry (table2 s) 0x0 s"

definition dispatcher3 :: "CPU \<Rightarrow> fault + CPU" where
  "dispatcher3 s = call_entry (table3 s) 0x0 s"

definition dispatcher4 :: "CPU \<Rightarrow> fault + CPU" where
  "dispatcher4 s = call_entry (table4 s) 0x0 s"

definition dispatcher5 :: "CPU \<Rightarrow> fault + CPU" where
  "dispatcher5 s = call_entry (table5 s) 0x0 s"

definition dispatcher6 :: "CPU \<Rightarrow> fault + CPU" where
  "dispatcher6 s = call_entry (table6 s) 0x0 s"

definition dispatcher7 :: "CPU \<Rightarrow> fault + CPU" where
  "dispatcher7 s = call_entry (table7 s) 0x0 s"

definition dispatcher8 :: "CPU \<Rightarrow> fault + CPU" where
  "dispatcher8 s = call_entry (table8 s) (unat (opcode s AND 0x000F)) s"

definition dispatcher9 :: "CPU \<Rightarrow> fault + CPU" where
  "dispatcher9 s = call_entry (table9 s) 0x0 s"

definition dispatcherA :: "CPU \<Rightarrow> fault + CPU" where
  "dispatcherA s = call_entry (tableA s) 0x0 s"

definition dispatcherB :: "CPU \<Rightarrow> fault + CPU" where
  "dispatcherB s = call_entry (tableB s) 0x0 s"

definition dispatcherC :: "CPU \<Rightarrow> fault + CPU" where
  "dispatcherC s = call_entry (tableC s) 0x0 s"

definition dispatcherD :: "CPU \<Rightarrow> fault + CPU" where
  "dispatcherD s = call_entry (tableD s) 0x0 s"

definition dispatcherE :: "CPU \<Rightarrow> fault + CPU" where
  "dispatcherE s = call_entry (tableE s) (unat (opcode s AND 0x000F)) s"

definition dispatcherF :: "CPU \<Rightarrow> fault + CPU" where
  "dispatcherF s = call_entry (tableF s) (unat (opcode s AND 0x00FF)) s"

fun call_dispatcher :: "DispatcherFunc \<Rightarrow> CPU \<Rightarrow> fault + CPU" where
  "call_dispatcher NULL_dispatcher s = Inl NullCall"
| "call_dispatcher P_dispatcher0 s = dispatcher0 s"
| "call_dispatcher P_dispatcher1 s = dispatcher1 s"
| "call_dispatcher P_dispatcher2 s = dispatcher2 s"
| "call_dispatcher P_dispatcher3 s = dispatcher3 s"
| "call_dispatcher P_dispatcher4 s = dispatcher4 s"
| "call_dispatcher P_dispatcher5 s = dispatcher5 s"
| "call_dispatcher P_dispatcher6 s = dispatcher6 s"
| "call_dispatcher P_dispatcher7 s = dispatcher7 s"
| "call_dispatcher P_dispatcher8 s = dispatcher8 s"
| "call_dispatcher P_dispatcher9 s = dispatcher9 s"
| "call_dispatcher P_dispatcherA s = dispatcherA s"
| "call_dispatcher P_dispatcherB s = dispatcherB s"
| "call_dispatcher P_dispatcherC s = dispatcherC s"
| "call_dispatcher P_dispatcherD s = dispatcherD s"
| "call_dispatcher P_dispatcherE s = dispatcherE s"
| "call_dispatcher P_dispatcherF s = dispatcherF s"

section \<open>Initialisation\<close>

text \<open>
  Modelled from the spec: the declaration of \<^verbatim>\<open>struct CPU\<close> with the lengths of \<^verbatim>\<open>dispatcher\<close>
  and of the sixteen opcode tables is not among the sources. The decode design gives one
  dispatcher per top nibble, "its own sub-table of size 1" for a family with a single
  handler, a sub-table indexed by the low nibble for the top nibbles 0x0, 0x8 and 0xE, and
  one indexed by "the full low byte" for 0xF.
\<close>

definition DISPATCHER_COUNT :: nat where
  "DISPATCHER_COUNT = 16"

definition SINGLE_TABLE_SIZE :: nat where
  "SINGLE_TABLE_SIZE = 1"

definition NIBBLE_TABLE_SIZE :: nat where
  "NIBBLE_TABLE_SIZE = 16"

definition BYTE_TABLE_SIZE :: nat where
  "BYTE_TABLE_SIZE = 256"

text \<open>\<^verbatim>\<open>clearMemory(cpu, sizeof(CPU))\<close>: every byte of the struct is zero, every pointer null.
  The static seed of the generator is not part of the struct.\<close>

definition clearCPU :: "CPU \<Rightarrow> CPU" where
  "clearCPU s =
     \<lparr>memory = replicate MEMORY_SIZE 0, v = replicate 16 0, i = 0, pc = 0,
      stack = replicate 16 0, sp = 0, opcode = 0, delaytimer = 0, soundtimer = 0,
      key = replicate 16 0, gfx = replicate (VIDEO_WIDTH * VIDEO_HEIGHT) 0,
      dispatcher = replicate DISPATCHER_COUNT NULL_dispatcher,
      table0 = replicate NIBBLE_TABLE_SIZE NULL,
      table1 = replicate SINGLE_TABLE_SIZE NULL,
      table2 = replicate SINGLE_TABLE_SIZE NULL,
      table3 = replicate SINGLE_TABLE_SIZE NULL,
      table4 = replicate SINGLE_TABLE_SIZE NULL,
      table5 = replicate SINGLE_TABLE_SIZE NULL,
      table6 = replicate SINGLE_TABLE_SIZE NULL,
      table7 = replicate SINGLE_TABLE_SIZE NULL,
      table8 = replicate NIBBLE_TABLE_SIZE NULL,
      table9 = replicate SINGLE_TABLE_SIZE NULL,
      tableA = replicate SINGLE_TABLE_SIZE NULL,
      tableB = replicate SINGLE_TABLE_SIZE NULL,
      tableC = replicate SINGLE_TABLE_SIZE NULL,
      tableD = replicate SINGLE_TABLE_SIZE NULL,
      tableE = replicate NIBBLE_TABLE_SIZE NULL,
      tableF = replicate BYTE_TABLE_SIZE NULL,
      seed = seed s\<rparr>"

definition copyMemory :: "u8 list \<Rightarrow> nat \<Rightarrow> u8 list \<Rightarrow> nat \<Rightarrow> u8 list" where
  "copyMemory dest off src num = fold (\<lambda>k d. d[off + k := src ! k]) [0..<num] dest"

definition initOpcodeTable :: "OpcodeFunc list \<Rightarrow> nat \<Rightarrow> OpcodeFunc list" where
  "initOpcodeTable table num = fold (\<lambda>k t. t[k := P_OP_0nnn]) [0..<num] table"

definition setupDispatcher :: "CPU \<Rightarrow> CPU" where
  "setupDispatcher s =
     s\<lparr>dispatcher := (dispatcher s)
        [0x0 := P_dispatcher0, 0x1 := P_dispatcher1, 0x2 := P_dispatcher2,
         0x3 := P_dispatcher3, 0x4 := P_dispatcher4, 0x5 := P_dispatcher5,
         0x6 := P_dispatcher6, 0x7 := P_dispatcher7, 0x8 := P_dispatcher8,
         0x9 := P_dispatcher9, 0xA := P_dispatcherA, 0xB := P_dispatcherB,
         0xC := P_dispatcherC, 0xD := P_dispatcherD, 0xE := P_dispatcherE,
         0xF := P_dispatcherF]\<rparr>"

text \<open>\<^verbatim>\<open>sizeof(table) / sizeof(table[0])\<close> is the declared length of the table.\<close>

definition setupOpcodeTables :: "CPU \<Rightarrow> CPU" where
  "setupOpcodeTables s =
     s\<lparr>table0 := initOpcodeTable (table0 s) (length (table0 s)),
       table1 := initOpcodeTable (table1 s) (length (table1 s)),
       table2 := initOpcodeTable (table2 s) (length (table2 s)),
       table3 := initOpcodeTable (table3 s) (length (table3 s)),
       table4 := initOpcodeTable (table4 s) (length (table4 s)),
       table5 := initOpcodeTable (table5 s) (length (table5 s)),
       table6 := initOpcodeTable (table6 s) (length (table6 s)),
       table7 := initOpcodeTable (table7 s) (length (table7 s)),
       table8 := initOpcodeTable (table8 s) (length (table8 s)),
       table9 := initOpcodeTable (table9 s) (length (table9 s)),
       tableA := initOpcodeTable (tableA s) (length (tableA s)),
       tableB := initOpcodeTable (tableB s) (length (tableB s)),
       tableC := initOpcodeTable (tableC s) (length (tableC s)),
       tableD := initOpcodeTable (tableD s) (length (tableD s)),
       tableE := initOpcodeTable (tableE s) (length (tableE s)),
       tableF := initOpcodeTable (tableF s) (length (tableF s))\<rparr>"

definition assignOpcodeTableFunctions :: "CPU \<Rightarrow> CPU" where
  "assignOpcodeTableFunctions s =
     s\<lparr>table0 := (table0 s)[0x0 := P_OP_00E0, 0xE := P_OP_00EE],
       table1 := (table1 s)[0x0 := P_OP_1nnn],
       table2 := (table2 s)[0x0 := P_OP_2nnn],
       table3 := (table3 s)[0x0 := P_OP_3xkk],
       table4 := (table4 s)[0x0 := P_OP_4xkk],
       table5 := (table5 s)[0x0 := P_OP_5xy0],
       table6 := (table6 s)[0x0 := P_OP_6xkk],
       table7 := (table7 s)[0x0 := P_OP_7xkk],
       table8 := (table8 s)
         [0x0 := P_OP_8xy0, 0x1 := P_OP_8xy1, 0x2 := P_OP_8xy2, 0x3 := P_OP_8xy3,
          0x4 := P_OP_8xy4, 0x5 := P_OP_8xy5, 0x6 := P_OP_8xy6, 0x7 := P_OP_8xy7,
          0xE := P_OP_8xyE],
       table9 := (table9 s)[0x0 := P_OP_9xy0],
       tableA := (tableA s)[0x0 := P_OP_Annn],
       tableB := (tableB s)[0x0 := P_OP_Bnnn],
       tableC := (tableC s)[0x0 := P_OP_Cxkk],
       tableD := (tableD s)[0x0 := P_OP_Dxyn],
       tableE := (tableE s)[0xE := P_OP_Ex9E, 0x1 := P_OP_ExA1],
       tableF := (tableF s)
         [0x07 := P_OP_Fx07, 0x0A := P_OP_Fx0A, 0x15 := P_OP_Fx15, 0x18 := P_OP_Fx18,
          0x1E := P_OP_Fx1E, 0x29 := P_OP_Fx29, 0x33 := P_OP_Fx33, 0x55 := P_OP_Fx55,
          0x65 := P_OP_Fx65]\<rparr>"

definition Chip8_Create :: "CPU \<Rightarrow> CPU" where
  "Chip8_Create s =
     (let s1 = clearCPU s;
          s2 = s1\<lparr>pc := 0x0200\<rparr>;
          s3 = s2\<lparr>memory := copyMemory (memory s2) FONTSET_ADDRESS fontset FONT_SIZE\<rparr>
      in assignOpcodeTableFunctions (setupOpcodeTables (setupDispatcher s3)))"

text \<open>The state has the dispatcher and the opcode tables that \<^verbatim>\<open>Chip8_Create\<close> installs.\<close>

definition installed :: "CPU \<Rightarrow> bool" where
  "installed s \<longleftrightarrow>
     dispatcher s = dispatcher (Chip8_Create s) \<and>
     table0 s = table0 (Chip8_Create s) \<and> table1 s = table1 (Chip8_Create s) \<and>
     table2 s = table2 (Chip8_Create s) \<and> table3 s = table3 (Chip8_Create s) \<and>
     table4 s = table4 (Chip8_Create s) \<and> table5 s = table5 (Chip8_Create s) \<and>
     table6 s = table6 (Chip8_Create s) \<and> table7 s = table7 (Chip8_Create s) \<and>
     table8 s = table8 (Chip8_Create s) \<and> table9 s = table9 (Chip8_Create s) \<and>
     tableA s = tableA (Chip8_Create s) \<and> tableB s = tableB (Chip8_Create s) \<and>
     tableC s = tableC (Chip8_Create s) \<and> tableD s = tableD (Chip8_Create s) \<and>
     tableE s = tableE (Chip8_Create s) \<and> tableF s = tableF (Chip8_Create s)"

section \<open>The cycle\<close>

text \<open>Fetch: \<^verbatim>\<open>opcode = (memory[pc] << 8u) | memory[pc + 1]\<close>, then \<^verbatim>\<open>pc += 2\<close>.\<close>

definition Cycle_fetch :: "CPU \<Rightarrow> fault + CPU" where
  "Cycle_fetch s =
     and_then (rd MemoryOutOfBounds (memory s) (unat (pc s)))
       (\<lambda>hi. and_then (rd MemoryOutOfBounds (memory s) (unat (pc s) + 1))
          (\<lambda>lo. Inr (s\<lparr>opcode := push_bit 8 (ucast hi) OR ucast lo, pc := pc s + 2\<rparr>)))"

text \<open>Decode and execute: \<^verbatim>\<open>nibble = (opcode & 0xF000u) >> 12u\<close>,
  \<^verbatim>\<open>(*(cpu->dispatcher[nibble]))(cpu)\<close>.\<close>

definition Cycle_dispatch :: "CPU \<Rightarrow> fault + CPU" where
  "Cycle_dispatch s =
     (let nibble = unat (drop_bit 12 (opcode s AND 0xF000)) in
      and_then (rd TableOutOfBounds (dispatcher s) nibble) (\<lambda>d. call_dispatcher d s))"

definition Cycle_timers :: "CPU \<Rightarrow> CPU" where
  "Cycle_timers s =
     (let s1 = (if delaytimer s > 0 then s\<lparr>delaytimer := delaytimer s - 1\<rparr> else s)
      in if soundtimer s1 > 0 then s1\<lparr>soundtimer := soundtimer s1 - 1\<rparr> else s1)"

definition Chip8_Cycle :: "CPU \<Rightarrow> fault + CPU" where
  "Chip8_Cycle s =
     and_then (Cycle_fetch s) (\<lambda>s1. and_then (Cycle_dispatch s1) (\<lambda>s2. Inr (Cycle_timers s2)))"

text \<open>Program start: the generator's seed has its initialiser and \<^verbatim>\<open>Chip8_Create\<close> has run on
  storage of unknown content.\<close>

definition power_on :: CPU where
  "power_on = Chip8_Create
     \<lparr>memory = [], v = [], i = 0, pc = 0, stack = [], sp = 0, opcode = 0, delaytimer = 0,
      soundtimer = 0, key = [], gfx = [], dispatcher = [], table0 = [], table1 = [],
      table2 = [], table3 = [], table4 = [], table5 = [], table6 = [], table7 = [],
      table8 = [], table9 = [], tableA = [], tableB = [], tableC = [], tableD = [],
      tableE = [], tableF = [], seed = 0xB16B00B5\<rparr>"

section \<open>Sprites\<close>

text \<open>
  Names for what \<^verbatim>\<open>OP_Dxyn\<close> computes for the sprite pixel in row \<open>row\<close> and column \<open>col\<close>:
  whether its bit is set in the sprite byte \<^verbatim>\<open>memory[i + row]\<close>, and the index
  \<^verbatim>\<open>(yPos + row) * VIDEO_WIDTH + (xPos + col)\<close> of its cell in \<^verbatim>\<open>gfx\<close>. A cell is lit when it
  holds \<^verbatim>\<open>0xFFFFFFFF\<close> and unlit when it holds 0.
\<close>

definition sprite_pixel :: "CPU \<Rightarrow> nat \<Rightarrow> nat \<Rightarrow> bool" where
  "sprite_pixel s row col \<longleftrightarrow> memory s ! (unat (i s) + row) AND drop_bit col 0x80 \<noteq> 0"

definition screen_index :: "nat \<Rightarrow> nat \<Rightarrow> nat \<Rightarrow> nat \<Rightarrow> nat" where
  "screen_index xPos yPos row col = (yPos + row) * VIDEO_WIDTH + (xPos + col)"

definition x_pos :: "CPU \<Rightarrow> nat" where
  "x_pos s = unat (v s ! x_of s) mod VIDEO_WIDTH"

definition y_pos :: "CPU \<Rightarrow> nat" where
  "y_pos s = unat (v s ! y_of s) mod VIDEO_HEIGHT"

section \<open>Opcodes without a handler\<close>

text \<open>
  The opcodes that \<^verbatim>\<open>assignOpcodeTableFunctions\<close> gives no handler, by the index each
  dispatcher computes: top nibble 0x0 with a low nibble other than 0x0 and 0xE; top nibble
  0x8 with low nibble 0x8 to 0xD or 0xF; top nibble 0xE with a low nibble other than 0x1 and
  0xE; top nibble 0xF with a low byte that is none of the nine bytes 0x07, 0x0A, 0x15, 0x18,
  0x1E, 0x29, 0x33, 0x55, 0x65 assigned in \<^verbatim>\<open>tableF\<close>.
\<close>

definition no_assigned_handler :: "u16 \<Rightarrow> bool" where
  "no_assigned_handler w \<longleftrightarrow>
     (let top = unat (drop_bit 12 (w AND 0xF000));
          low = unat (w AND 0x000F);
          byte = unat (w AND 0x00FF)
      in top = 0x0 \<and> low \<notin> {0x0, 0xE} \<or>
         top = 0x8 \<and> low \<in> {0x8, 0x9, 0xA, 0xB, 0xC, 0xD, 0xF} \<or>
         top = 0xE \<and> low \<notin> {0x1, 0xE} \<or>
         top = 0xF \<and> byte \<notin> {0x07, 0x0A, 0x15, 0x18, 0x1E, 0x29, 0x33, 0x55, 0x65})"

section \<open>Basic facts\<close>

lemma x_of_less: "x_of s < 16"
proof -
  have "unat (opcode s AND 0xF00) \<le> unat (0xF00 :: u16)"
    by (rule word_and_le1 [THEN word_le_nat_alt [THEN iffD1]])
  then show ?thesis
    by (simp add: x_of_def unat_drop_bit_eq drop_bit_eq_div unat_div)
qed

lemma y_of_less: "y_of s < 16"
proof -
  have "unat (opcode s AND 0xF0) \<le> unat (0xF0 :: u16)"
    by (rule word_and_le1 [THEN word_le_nat_alt [THEN iffD1]])
  then show ?thesis
    by (simp add: y_of_def unat_drop_bit_eq drop_bit_eq_div unat_div)
qed

lemma height_of_less: "height_of s < 16"
proof -
  have "unat (opcode s AND 0xF) \<le> unat (0xF :: u16)"
    by (rule word_and_le1 [THEN word_le_nat_alt [THEN iffD1]])
  then show ?thesis by (simp add: height_of_def)
qed

lemma unat_u8_less: "unat (a :: u8) < 256"
  using unsigned_less [of a] by simp

lemma unat_ucast_u8_u16: "unat (ucast (a :: u8) :: u16) = unat a"
  using unat_u8_less [of a]
  by (simp add: unsigned_ucast_eq take_bit_nat_eq_self)

lemma unat_sum_u16: "unat ((ucast (a :: u8) :: u16) + ucast (b :: u8)) = unat a + unat b"
  using unat_u8_less [of a] unat_u8_less [of b]
  by (simp add: unat_word_ariths unat_ucast_u8_u16)

lemma carry_iff: "((ucast (a :: u8) :: u16) + ucast (b :: u8) > 255) = (unat a + unat b > 255)"
  by (simp add: word_less_nat_alt unat_sum_u16)

lemma unat_diff_u8: "unat ((b :: u8) - a) = (256 + unat b - unat a) mod 256"
proof (cases "unat a \<le> unat b")
  case True
  have small: "unat b - unat a < 256"
    using unat_u8_less [of b] by simp
  have "(256 + unat b - unat a) mod 256 = (256 + (unat b - unat a)) mod 256"
    using True by (simp only: Nat.add_diff_assoc)
  also have "\<dots> = unat b - unat a"
    using small by simp
  finally show ?thesis
    using True by (simp only: unat_sub_if' if_True)
next
  case False
  then show ?thesis
    using unat_u8_less [of a] unat_u8_less [of b] by (simp add: unat_sub_if')
qed

text \<open>The state after \<^verbatim>\<open>Chip8_Create\<close>, field by field.\<close>

lemma fold_update_length: "length (fold (\<lambda>k t. t[k := c]) [0..<m] t) = length t"
  by (induction m) auto

lemma fold_update_nth:
  "fold (\<lambda>k t. t[k := c]) [0..<m] t ! j = (if j < m \<and> j < length t then c else t ! j)"
proof (induction m)
  case 0
  show ?case by simp
next
  case (Suc m)
  show ?case
    by (cases "j = m") (use Suc in \<open>auto simp: fold_update_length list_update_beyond\<close>)
qed

lemma initOpcodeTable_replicate:
  "initOpcodeTable t (length t) = replicate (length t) P_OP_0nnn"
  by (rule nth_equalityI) (simp_all add: initOpcodeTable_def fold_update_length fold_update_nth)

lemma copyMemory_length: "length (copyMemory dest off src num) = length dest"
  by (induction num) (auto simp: copyMemory_def)

lemma Chip8_Create_sized: "sized (Chip8_Create s)"
  by (simp add: sized_def Chip8_Create_def Let_def assignOpcodeTableFunctions_def
      setupOpcodeTables_def setupDispatcher_def clearCPU_def copyMemory_length)

lemma Chip8_Create_registers:
  "v (Chip8_Create s) = replicate 16 0" "key (Chip8_Create s) = replicate 16 0"
  "stack (Chip8_Create s) = replicate 16 0" "gfx (Chip8_Create s) = replicate 2048 0"
  "i (Chip8_Create s) = 0" "pc (Chip8_Create s) = 0x200" "sp (Chip8_Create s) = 0"
  "opcode (Chip8_Create s) = 0" "delaytimer (Chip8_Create s) = 0"
  "soundtimer (Chip8_Create s) = 0" "seed (Chip8_Create s) = seed s"
  by (simp_all add: Chip8_Create_def Let_def assignOpcodeTableFunctions_def
      setupOpcodeTables_def setupDispatcher_def clearCPU_def)

lemma Chip8_Create_tables:
  "dispatcher (Chip8_Create s) =
     [P_dispatcher0, P_dispatcher1, P_dispatcher2, P_dispatcher3, P_dispatcher4,
      P_dispatcher5, P_dispatcher6, P_dispatcher7, P_dispatcher8, P_dispatcher9,
      P_dispatcherA, P_dispatcherB, P_dispatcherC, P_dispatcherD, P_dispatcherE,
      P_dispatcherF]"
  "table0 (Chip8_Create s) = (replicate 16 P_OP_0nnn)[0x0 := P_OP_00E0, 0xE := P_OP_00EE]"
  "table8 (Chip8_Create s) = (replicate 16 P_OP_0nnn)
     [0x0 := P_OP_8xy0, 0x1 := P_OP_8xy1, 0x2 := P_OP_8xy2, 0x3 := P_OP_8xy3,
      0x4 := P_OP_8xy4, 0x5 := P_OP_8xy5, 0x6 := P_OP_8xy6, 0x7 := P_OP_8xy7,
      0xE := P_OP_8xyE]"
  "tableE (Chip8_Create s) = (replicate 16 P_OP_0nnn)[0xE := P_OP_Ex9E, 0x1 := P_OP_ExA1]"
  "tableF (Chip8_Create s) = (replicate 256 P_OP_0nnn)
     [0x07 := P_OP_Fx07, 0x0A := P_OP_Fx0A, 0x15 := P_OP_Fx15, 0x18 := P_OP_Fx18,
      0x1E := P_OP_Fx1E, 0x29 := P_OP_Fx29, 0x33 := P_OP_Fx33, 0x55 := P_OP_Fx55,
      0x65 := P_OP_Fx65]"
proof -
  have len: "length (replicate n NULL) = n" for n
    by simp
  have init: "initOpcodeTable (replicate n NULL) n = replicate n P_OP_0nnn" for n
    using initOpcodeTable_replicate [of "replicate n NULL"] by simp
  show "dispatcher (Chip8_Create s) =
     [P_dispatcher0, P_dispatcher1, P_dispatcher2, P_dispatcher3, P_dispatcher4,
      P_dispatcher5, P_dispatcher6, P_dispatcher7, P_dispatcher8, P_dispatcher9,
      P_dispatcherA, P_dispatcherB, P_dispatcherC, P_dispatcherD, P_dispatcherE,
      P_dispatcherF]"
    by (simp add: Chip8_Create_def Let_def assignOpcodeTableFunctions_def
        setupOpcodeTables_def setupDispatcher_def clearCPU_def DISPATCHER_COUNT_def
        eval_nat_numeral)
  show "table0 (Chip8_Create s) = (replicate 16 P_OP_0nnn)[0x0 := P_OP_00E0, 0xE := P_OP_00EE]"
    by (simp add: Chip8_Create_def Let_def assignOpcodeTableFunctions_def
        setupOpcodeTables_def setupDispatcher_def clearCPU_def NIBBLE_TABLE_SIZE_def init)
  show "table8 (Chip8_Create s) = (replicate 16 P_OP_0nnn)
     [0x0 := P_OP_8xy0, 0x1 := P_OP_8xy1, 0x2 := P_OP_8xy2, 0x3 := P_OP_8xy3,
      0x4 := P_OP_8xy4, 0x5 := P_OP_8xy5, 0x6 := P_OP_8xy6, 0x7 := P_OP_8xy7,
      0xE := P_OP_8xyE]"
    by (simp add: Chip8_Create_def Let_def assignOpcodeTableFunctions_def
        setupOpcodeTables_def setupDispatcher_def clearCPU_def NIBBLE_TABLE_SIZE_def init)
  show "tableE (Chip8_Create s) = (replicate 16 P_OP_0nnn)[0xE := P_OP_Ex9E, 0x1 := P_OP_ExA1]"
    by (simp add: Chip8_Create_def Let_def assignOpcodeTableFunctions_def
        setupOpcodeTables_def setupDispatcher_def clearCPU_def NIBBLE_TABLE_SIZE_def init)
  show "tableF (Chip8_Create s) = (replicate 256 P_OP_0nnn)
     [0x07 := P_OP_Fx07, 0x0A := P_OP_Fx0A, 0x15 := P_OP_Fx15, 0x18 := P_OP_Fx18,
      0x1E := P_OP_Fx1E, 0x29 := P_OP_Fx29, 0x33 := P_OP_Fx33, 0x55 := P_OP_Fx55,
      0x65 := P_OP_Fx65]"
    by (simp add: Chip8_Create_def Let_def assignOpcodeTableFunctions_def
        setupOpcodeTables_def setupDispatcher_def clearCPU_def BYTE_TABLE_SIZE_def init)
qed

lemma Chip8_Create_tables_fixed:
  "dispatcher (Chip8_Create s) = dispatcher (Chip8_Create t)"
  "table0 (Chip8_Create s) = table0 (Chip8_Create t)"
  "table1 (Chip8_Create s) = table1 (Chip8_Create t)"
  "table2 (Chip8_Create s) = table2 (Chip8_Create t)"
  "table3 (Chip8_Create s) = table3 (Chip8_Create t)"
  "table4 (Chip8_Create s) = table4 (Chip8_Create t)"
  "table5 (Chip8_Create s) = table5 (Chip8_Create t)"
  "table6 (Chip8_Create s) = table6 (Chip8_Create t)"
  "table7 (Chip8_Create s) = table7 (Chip8_Create t)"
  "table8 (Chip8_Create s) = table8 (Chip8_Create t)"
  "table9 (Chip8_Create s) = table9 (Chip8_Create t)"
  "tableA (Chip8_Create s) = tableA (Chip8_Create t)"
  "tableB (Chip8_Create s) = tableB (Chip8_Create t)"
  "tableC (Chip8_Create s) = tableC (Chip8_Create t)"
  "tableD (Chip8_Create s) = tableD (Chip8_Create t)"
  "tableE (Chip8_Create s) = tableE (Chip8_Create t)"
  "tableF (Chip8_Create s) = tableF (Chip8_Create t)"
  by (simp_all add: Chip8_Create_def Let_def assignOpcodeTableFunctions_def
      setupOpcodeTables_def setupDispatcher_def clearCPU_def)

lemma Chip8_Create_installed: "installed (Chip8_Create s)"
  unfolding installed_def
  using Chip8_Create_tables_fixed [of "Chip8_Create s" s] by simp

lemma power_on_sized: "sized power_on"
  by (simp add: power_on_def Chip8_Create_sized)

lemma power_on_installed: "installed power_on"
  by (simp add: power_on_def Chip8_Create_installed)

lemma power_on_registers:
  "v power_on = replicate 16 0" "key power_on = replicate 16 0"
  "stack power_on = replicate 16 0" "gfx power_on = replicate 2048 0"
  "i power_on = 0" "pc power_on = 0x200" "sp power_on = 0" "opcode power_on = 0"
  "delaytimer power_on = 0" "soundtimer power_on = 0"
  by (simp_all add: power_on_def Chip8_Create_registers)

section \<open>Loops: unfolding, splitting and invariants\<close>

lemma for_loop_done [simp]: "n \<le> k \<Longrightarrow> for_loop k n body s = Inr s"
  by (subst for_loop.simps) simp

lemma for_loop_step: "k < n \<Longrightarrow> for_loop k n body s = and_then (body k s) (for_loop (Suc k) n body)"
  by (subst for_loop.simps) simp

lemma for_loop_split:
  "k \<le> m \<Longrightarrow> m \<le> n \<Longrightarrow> for_loop k n body s = and_then (for_loop k m body s) (for_loop m n body)"
proof (induction k n body s rule: for_loop.induct)
  case (1 k n body s)
  show ?case
  proof (cases "k < m")
    case True
    then have kn: "k < n"
      using "1.prems" by simp
    show ?thesis
    proof (cases "body k s")
      case (Inl e)
      then show ?thesis
        using True kn by (simp add: for_loop_step)
    next
      case (Inr t)
      have "for_loop (Suc k) n body t = and_then (for_loop (Suc k) m body t) (for_loop m n body)"
        using "1.IH" [OF kn] True "1.prems" by simp
      then show ?thesis
        using True kn Inr by (simp add: for_loop_step)
    qed
  next
    case False
    then have "k = m"
      using "1.prems" by simp
    then show ?thesis
      by simp
  qed
qed

lemma for_loop_invariant:
  assumes "P k s" and "k \<le> n"
    and step: "\<And>j t. k \<le> j \<Longrightarrow> j < n \<Longrightarrow> P j t \<Longrightarrow> \<exists>t'. body j t = Inr t' \<and> P (Suc j) t'"
  shows "\<exists>t. for_loop k n body s = Inr t \<and> P n t"
  using assms
proof (induction k n body s rule: for_loop.induct)
  case (1 k n body s)
  show ?case
  proof (cases "k < n")
    case True
    obtain t where t: "body k s = Inr t" "P (Suc k) t"
      using "1.prems"(3) [of k s] True "1.prems"(1) by auto
    have "\<exists>u. for_loop (Suc k) n body t = Inr u \<and> P n u"
    proof (rule "1.IH" [OF True t(2)])
      show "Suc k \<le> n"
        using True by simp
      show "\<exists>t'. body j u = Inr t' \<and> P (Suc j) t'" if "Suc k \<le> j" "j < n" "P j u" for j u
        using "1.prems"(3) [of j u] that by simp
    qed
    then show ?thesis
      using True t(1) by (simp add: for_loop_step)
  next
    case False
    then have "k = n"
      using "1.prems"(2) by simp
    then show ?thesis
      using "1.prems"(1) by simp
  qed
qed

section \<open>Memory-indexed handlers\<close>

text \<open>The loop of the register dump, run for \<open>n\<close> registers that all fit below the end of
  memory: memory holds \<open>V[a - I]\<close> at every address \<open>a\<close> from \<open>I\<close> up to \<open>I + n - 1\<close> and is
  unchanged elsewhere; nothing but memory changes.\<close>

lemma dump_loop:
  assumes "unat (i s) + n \<le> length (memory s)"
  shows "\<exists>m. for_loop 0 n
             (\<lambda>k (t :: CPU). and_then (wr MemoryOutOfBounds (memory t) (unat (i t) + k) (v t ! k))
                (\<lambda>m. Inr (t\<lparr>memory := m\<rparr>))) s = Inr (s\<lparr>memory := m\<rparr>) \<and>
           length m = length (memory s) \<and>
           (\<forall>a < length m. m ! a =
              (if unat (i s) \<le> a \<and> a < unat (i s) + n then v s ! (a - unat (i s))
               else memory s ! a))"
proof -
  define body where "body = (\<lambda>k (t :: CPU). and_then (wr MemoryOutOfBounds (memory t) (unat (i t) + k) (v t ! k))
                  (\<lambda>m. Inr (t\<lparr>memory := m\<rparr>)))"
  define P where "P = (\<lambda>j (t :: CPU). \<exists>m. t = s\<lparr>memory := m\<rparr> \<and> length m = length (memory s) \<and>
     (\<forall>a < length (memory s). m ! a =
        (if unat (i s) \<le> a \<and> a < unat (i s) + j then v s ! (a - unat (i s)) else memory s ! a)))"
  have P0: "P 0 s"
    unfolding P_def by (rule exI [of _ "memory s"]) auto
  have step: "\<exists>t'. body j t = Inr t' \<and> P (Suc j) t'" if jn: "j < n" and Pj: "P j t" for j t
  proof -
    obtain m where t: "t = s\<lparr>memory := m\<rparr>" and len: "length m = length (memory s)"
      and mem: "\<And>a. a < length (memory s) \<Longrightarrow> m ! a =
        (if unat (i s) \<le> a \<and> a < unat (i s) + j then v s ! (a - unat (i s)) else memory s ! a)"
      using Pj unfolding P_def by blast
    have inb: "unat (i s) + j < length m"
      using jn assms len by simp
    have b: "body j t = Inr (s\<lparr>memory := m[unat (i s) + j := v s ! j]\<rparr>)"
      using inb by (simp add: body_def wr_def t)
    have "P (Suc j) (s\<lparr>memory := m[unat (i s) + j := v s ! j]\<rparr>)"
      unfolding P_def
    proof (intro exI [of _ "m[unat (i s) + j := v s ! j]"] conjI allI impI)
      show "s\<lparr>memory := m[unat (i s) + j := v s ! j]\<rparr> = s\<lparr>memory := m[unat (i s) + j := v s ! j]\<rparr>"
        by (rule refl)
      show "length (m[unat (i s) + j := v s ! j]) = length (memory s)"
        using len by simp
      show "m[unat (i s) + j := v s ! j] ! a =
          (if unat (i s) \<le> a \<and> a < unat (i s) + Suc j then v s ! (a - unat (i s)) else memory s ! a)"
        if "a < length (memory s)" for a
      proof (cases "a = unat (i s) + j")
        case True
        then show ?thesis
          using inb by simp
      next
        case False
        then show ?thesis
          using mem [OF that] by (auto simp: nth_list_update)
      qed
    qed
    with b show ?thesis
      by blast
  qed
  have "\<exists>t. for_loop 0 n body s = Inr t \<and> P n t"
  proof (rule for_loop_invariant [where P = P])
    show "P 0 s"
      by (rule P0)
    show "0 \<le> n"
      by simp
    show "\<exists>t'. body j t = Inr t' \<and> P (Suc j) t'" if "0 \<le> j" "j < n" "P j t" for j t
      using step [OF that(2,3)] .
  qed
  then obtain t where t: "for_loop 0 n body s = Inr t" "P n t"
    by (elim exE conjE)
  obtain m where m: "t = s\<lparr>memory := m\<rparr>" "length m = length (memory s)"
      "\<forall>a < length (memory s). m ! a =
        (if unat (i s) \<le> a \<and> a < unat (i s) + n then v s ! (a - unat (i s))
         else memory s ! a)"
    using t(2) unfolding P_def by blast
  have run: "for_loop 0 n body s = Inr (s\<lparr>memory := m\<rparr>)"
    using t(1) m(1) by simp
  from run m(2,3) show ?thesis
    unfolding body_def by auto
qed

lemma OP_Fx55_ok:
  assumes "unat (i s) + x_of s < length (memory s)"
  shows "\<exists>m. OP_Fx55 s = Inr (s\<lparr>memory := m\<rparr>) \<and> length m = length (memory s) \<and>
           (\<forall>a < length m. m ! a =
              (if unat (i s) \<le> a \<and> a \<le> unat (i s) + x_of s then v s ! (a - unat (i s))
               else memory s ! a))"
proof -
  have "unat (i s) + Suc (x_of s) \<le> length (memory s)"
    using assms by simp
  from dump_loop [OF this] show ?thesis
    by (simp add: OP_Fx55_def less_Suc_eq_le)
qed

text \<open>When a register of the dump does not fit, the loop reaches the first address outside
  memory, which is \<open>I\<close> itself or the end of memory, and stops there: the address is used as
  it is.\<close>

lemma OP_Fx55_fault:
  assumes "\<not> unat (i s) + x_of s < length (memory s)"
  shows "OP_Fx55 s = Inl (MemoryOutOfBounds (max (unat (i s)) (length (memory s))))"
proof -
  define body where "body = (\<lambda>k (t :: CPU). and_then (wr MemoryOutOfBounds (memory t) (unat (i t) + k) (v t ! k))
                  (\<lambda>m. Inr (t\<lparr>memory := m\<rparr>)))"
  define n0 where "n0 = length (memory s) - unat (i s)"
  have n0: "n0 \<le> x_of s" "unat (i s) + n0 \<le> length (memory s) \<or> n0 = 0"
    "unat (i s) + n0 = max (unat (i s)) (length (memory s))"
    using assms by (auto simp: n0_def)
  have fit: "unat (i s) + n0 \<le> length (memory s)" if "n0 \<noteq> 0"
    using that by (simp add: n0_def)
  have first: "\<exists>m. for_loop 0 n0 body s = Inr (s\<lparr>memory := m\<rparr>) \<and> length m = length (memory s)"
  proof (cases "n0 = 0")
    case True
    then show ?thesis
      by (auto intro: exI [of _ "memory s"])
  next
    case False
    from dump_loop [OF fit [OF False]] show ?thesis
      unfolding body_def by blast
  qed
  then obtain m where m: "for_loop 0 n0 body s = Inr (s\<lparr>memory := m\<rparr>)" "length m = length (memory s)"
    by blast
  have split: "for_loop 0 (Suc (x_of s)) body s
      = and_then (for_loop 0 n0 body s) (for_loop n0 (Suc (x_of s)) body)"
    using n0(1) by (intro for_loop_split) simp_all
  have "for_loop n0 (Suc (x_of s)) body (s\<lparr>memory := m\<rparr>)
      = and_then (body n0 (s\<lparr>memory := m\<rparr>)) (for_loop (Suc n0) (Suc (x_of s)) body)"
    using n0(1) by (intro for_loop_step) simp
  moreover have "body n0 (s\<lparr>memory := m\<rparr>) = Inl (MemoryOutOfBounds (unat (i s) + n0))"
    using m(2) n0(3) by (simp add: body_def wr_def)
  ultimately have stop: "for_loop n0 (Suc (x_of s)) body (s\<lparr>memory := m\<rparr>)
      = Inl (MemoryOutOfBounds (max (unat (i s)) (length (memory s))))"
    by (simp only: and_then.simps n0(3))
  have "for_loop 0 (Suc (x_of s)) body s = Inl (MemoryOutOfBounds (max (unat (i s)) (length (memory s))))"
    by (simp only: split m(1) and_then.simps stop)
  then show ?thesis
    by (simp add: OP_Fx55_def body_def)
qed

text \<open>Register load, likewise: registers \<open>0\<close> to \<open>n - 1\<close> receive the bytes at \<open>I\<close> to
  \<open>I + n - 1\<close>, the other registers and everything else stay.\<close>

lemma load_loop:
  assumes "unat (i s) + n \<le> length (memory s)" and "n \<le> length (v s)"
  shows "\<exists>vs. for_loop 0 n
             (\<lambda>k (t :: CPU). and_then (rd MemoryOutOfBounds (memory t) (unat (i t) + k))
                (\<lambda>b. Inr (t\<lparr>v := (v t)[k := b]\<rparr>))) s = Inr (s\<lparr>v := vs\<rparr>) \<and>
           length vs = length (v s) \<and>
           (\<forall>k < length vs. vs ! k = (if k < n then memory s ! (unat (i s) + k) else v s ! k))"
proof -
  define body where "body = (\<lambda>k (t :: CPU). and_then (rd MemoryOutOfBounds (memory t) (unat (i t) + k))
                (\<lambda>b. Inr (t\<lparr>v := (v t)[k := b]\<rparr>)))"
  define P where "P = (\<lambda>j (t :: CPU). \<exists>vs. t = s\<lparr>v := vs\<rparr> \<and> length vs = length (v s) \<and>
     (\<forall>k < length (v s). vs ! k = (if k < j then memory s ! (unat (i s) + k) else v s ! k)))"
  have P0: "P 0 s"
    unfolding P_def by (rule exI [of _ "v s"]) auto
  have step: "\<exists>t'. body j t = Inr t' \<and> P (Suc j) t'" if jn: "j < n" and Pj: "P j t" for j t
  proof -
    obtain vs where t: "t = s\<lparr>v := vs\<rparr>" and len: "length vs = length (v s)"
      and regs: "\<And>k. k < length (v s) \<Longrightarrow> vs ! k =
        (if k < j then memory s ! (unat (i s) + k) else v s ! k)"
      using Pj unfolding P_def by blast
    have inb: "unat (i s) + j < length (memory s)"
      using jn assms(1) by simp
    have b: "body j t = Inr (s\<lparr>v := vs[j := memory s ! (unat (i s) + j)]\<rparr>)"
      using inb by (simp add: body_def rd_def t)
    have "P (Suc j) (s\<lparr>v := vs[j := memory s ! (unat (i s) + j)]\<rparr>)"
      unfolding P_def
    proof (intro exI [of _ "vs[j := memory s ! (unat (i s) + j)]"] conjI allI impI)
      show "s\<lparr>v := vs[j := memory s ! (unat (i s) + j)]\<rparr> = s\<lparr>v := vs[j := memory s ! (unat (i s) + j)]\<rparr>"
        by (rule refl)
      show "length (vs[j := memory s ! (unat (i s) + j)]) = length (v s)"
        using len by simp
      show "vs[j := memory s ! (unat (i s) + j)] ! k =
          (if k < Suc j then memory s ! (unat (i s) + k) else v s ! k)"
        if "k < length (v s)" for k
      proof (cases "k = j")
        case True
        then show ?thesis
          using that len by simp
      next
        case False
        then show ?thesis
          using regs [OF that] by (auto simp: nth_list_update)
      qed
    qed
    with b show ?thesis
      by blast
  qed
  have "\<exists>t. for_loop 0 n body s = Inr t \<and> P n t"
  proof (rule for_loop_invariant [where P = P])
    show "P 0 s"
      by (rule P0)
    show "0 \<le> n"
      by simp
    show "\<exists>t'. body j t = Inr t' \<and> P (Suc j) t'" if "0 \<le> j" "j < n" "P j t" for j t
      using step [OF that(2,3)] .
  qed
  then obtain t where t: "for_loop 0 n body s = Inr t" "P n t"
    by (elim exE conjE)
  obtain vs where vs: "t = s\<lparr>v := vs\<rparr>" "length vs = length (v s)"
      "\<forall>k < length (v s). vs ! k = (if k < n then memory s ! (unat (i s) + k) else v s ! k)"
    using t(2) unfolding P_def by blast
  have run: "for_loop 0 n body s = Inr (s\<lparr>v := vs\<rparr>)"
    using t(1) vs(1) by simp
  from run vs(2,3) show ?thesis
    unfolding body_def by auto
qed

lemma OP_Fx65_ok:
  assumes "length (v s) = 16" and "unat (i s) + x_of s < length (memory s)"
  shows "\<exists>vs. OP_Fx65 s = Inr (s\<lparr>v := vs\<rparr>) \<and> length vs = 16 \<and>
           (\<forall>k < 16. vs ! k = (if k \<le> x_of s then memory s ! (unat (i s) + k) else v s ! k))"
proof -
  have "unat (i s) + Suc (x_of s) \<le> length (memory s)" "Suc (x_of s) \<le> length (v s)"
    using assms x_of_less [of s] by simp_all
  from load_loop [OF this] obtain vs where vs:
      "for_loop 0 (Suc (x_of s))
         (\<lambda>k (t :: CPU). and_then (rd MemoryOutOfBounds (memory t) (unat (i t) + k))
            (\<lambda>b. Inr (t\<lparr>v := (v t)[k := b]\<rparr>))) s = Inr (s\<lparr>v := vs\<rparr>)"
      "length vs = length (v s)"
      "\<forall>k < length vs. vs ! k = (if k < Suc (x_of s) then memory s ! (unat (i s) + k) else v s ! k)"
    by blast
  have "OP_Fx65 s = Inr (s\<lparr>v := vs\<rparr>)"
    using vs(1) by (simp add: OP_Fx65_def)
  moreover have "length vs = 16"
    using vs(2) assms(1) by simp
  moreover have "\<forall>k < 16. vs ! k = (if k \<le> x_of s then memory s ! (unat (i s) + k) else v s ! k)"
    using vs(2,3) assms(1) by (simp add: less_Suc_eq_le)
  ultimately show ?thesis
    by blast
qed

lemma OP_Fx65_fault:
  assumes "length (v s) = 16" and "\<not> unat (i s) + x_of s < length (memory s)"
  shows "OP_Fx65 s = Inl (MemoryOutOfBounds (max (unat (i s)) (length (memory s))))"
proof -
  define body where "body = (\<lambda>k (t :: CPU). and_then (rd MemoryOutOfBounds (memory t) (unat (i t) + k))
                (\<lambda>b. Inr (t\<lparr>v := (v t)[k := b]\<rparr>)))"
  define n0 where "n0 = length (memory s) - unat (i s)"
  have n0: "n0 \<le> x_of s" "unat (i s) + n0 = max (unat (i s)) (length (memory s))"
    using assms(2) by (auto simp: n0_def)
  have fit: "unat (i s) + n0 \<le> length (memory s)" if "n0 \<noteq> 0"
    using that by (simp add: n0_def)
  have n0v: "n0 \<le> length (v s)"
    using n0(1) x_of_less [of s] assms(1) by simp
  have first: "\<exists>vs. for_loop 0 n0 body s = Inr (s\<lparr>v := vs\<rparr>)"
  proof (cases "n0 = 0")
    case True
    then show ?thesis
      by (auto intro: exI [of _ "v s"])
  next
    case False
    from load_loop [OF fit [OF False] n0v] show ?thesis
      unfolding body_def by blast
  qed
  then obtain vs where vs: "for_loop 0 n0 body s = Inr (s\<lparr>v := vs\<rparr>)"
    by blast
  have split: "for_loop 0 (Suc (x_of s)) body s
      = and_then (for_loop 0 n0 body s) (for_loop n0 (Suc (x_of s)) body)"
    using n0(1) by (intro for_loop_split) simp_all
  have "for_loop n0 (Suc (x_of s)) body (s\<lparr>v := vs\<rparr>)
      = and_then (body n0 (s\<lparr>v := vs\<rparr>)) (for_loop (Suc n0) (Suc (x_of s)) body)"
    using n0(1) by (intro for_loop_step) simp
  moreover have "body n0 (s\<lparr>v := vs\<rparr>) = Inl (MemoryOutOfBounds (unat (i s) + n0))"
    using n0(2) by (simp add: body_def rd_def)
  ultimately have stop: "for_loop n0 (Suc (x_of s)) body (s\<lparr>v := vs\<rparr>)
      = Inl (MemoryOutOfBounds (max (unat (i s)) (length (memory s))))"
    by (simp only: and_then.simps n0(2))
  have "for_loop 0 (Suc (x_of s)) body s = Inl (MemoryOutOfBounds (max (unat (i s)) (length (memory s))))"
    by (simp only: split vs and_then.simps stop)
  then show ?thesis
    by (simp add: OP_Fx65_def body_def)
qed

text \<open>The three stores of the decimal digits.\<close>

lemma OP_Fx33_result:
  "OP_Fx33 s =
     (if unat (i s) + 2 < length (memory s)
      then Inr (s\<lparr>memory := (memory s)
             [unat (i s) + 2 := v s ! x_of s mod 10,
              unat (i s) + 1 := v s ! x_of s div 10 mod 10,
              unat (i s) := v s ! x_of s div 10 div 10 mod 10]\<rparr>)
      else Inl (MemoryOutOfBounds (unat (i s) + 2)))"
  by (simp add: OP_Fx33_def Let_def wr_def)

section \<open>The draw handler\<close>

lemma screen_index_inj:
  assumes "screen_index xPos yPos row col = screen_index xPos yPos row' col'"
    and "col < 8" and "col' < 8"
  shows "row = row' \<and> col = col'"
proof -
  have eq: "64 * row + col = 64 * row' + col'"
    using assms(1) by (simp add: screen_index_def algebra_simps)
  have "row = row'"
  proof (rule ccontr)
    assume "row \<noteq> row'"
    then consider "row < row'" | "row' < row"
      by linarith
    then show False
    proof cases
      case 1
      then have "64 * row + 64 \<le> 64 * row'"
        by simp
      with eq assms(2) show False
        by simp
    next
      case 2
      then have "64 * row' + 64 \<le> 64 * row"
        by simp
      with eq assms(3) show False
        by simp
    qed
  qed
  with eq show ?thesis
    by simp
qed

text \<open>One column: a set sprite bit toggles the cell at its index, and raises the flag when
  the cell was lit; a clear bit touches nothing.\<close>

lemma draw_pixel_set:
  assumes "spriteByte AND drop_bit col 0x80 \<noteq> 0"
    and "screen_index xPos yPos row col < length (gfx t)"
    and "screen_index xPos yPos row col < 65536"
  shows "draw_pixel spriteByte xPos yPos row col t =
     Inr (t\<lparr>v := (if gfx t ! screen_index xPos yPos row col = 0xFFFFFFFF
                   then (v t)[0xF := 1] else v t),
            gfx := (gfx t)[screen_index xPos yPos row col :=
                      gfx t ! screen_index xPos yPos row col XOR 0xFFFFFFFF]\<rparr>)"
  using assms by (simp add: draw_pixel_def Let_def rd_def screen_index_def)

lemma draw_pixel_set_fault:
  assumes "spriteByte AND drop_bit col 0x80 \<noteq> 0"
    and "\<not> screen_index xPos yPos row col < length (gfx t)"
    and "screen_index xPos yPos row col < 65536"
  shows "draw_pixel spriteByte xPos yPos row col t =
     Inl (VideoOutOfBounds (screen_index xPos yPos row col))"
  using assms by (simp add: draw_pixel_def Let_def rd_def screen_index_def)

lemma draw_pixel_clear:
  assumes "spriteByte AND drop_bit col 0x80 = 0"
  shows "draw_pixel spriteByte xPos yPos row col t = Inr t"
  using assms by (simp add: draw_pixel_def Let_def)

text \<open>The first \<open>m\<close> columns of one sprite byte, and all eight.\<close>

lemma draw_cols_upto:
  assumes m8: "m \<le> 8"
    and inb: "\<forall>c<m. spriteByte AND drop_bit c 0x80 \<noteq> 0 \<longrightarrow>
                  screen_index xPos yPos row c < length (gfx t)"
    and small: "screen_index xPos yPos row 8 \<le> 65536"
  shows "\<exists>g w. for_loop 0 m (draw_pixel spriteByte xPos yPos row) t = Inr (t\<lparr>v := w, gfx := g\<rparr>) \<and>
           length g = length (gfx t) \<and> length w = length (v t) \<and>
           (\<forall>k < length g. g ! k =
              (if \<exists>c<m. spriteByte AND drop_bit c 0x80 \<noteq> 0 \<and> k = screen_index xPos yPos row c
               then gfx t ! k XOR 0xFFFFFFFF else gfx t ! k))"
proof -
  define bit where "bit = (\<lambda>c. spriteByte AND drop_bit c 0x80 \<noteq> 0)"
  define idx where "idx = (\<lambda>c. screen_index xPos yPos row c)"
  define P where "P = (\<lambda>n (u :: CPU). \<exists>g w. u = t\<lparr>v := w, gfx := g\<rparr> \<and>
      length g = length (gfx t) \<and> length w = length (v t) \<and>
      (\<forall>k < length (gfx t). g ! k =
         (if \<exists>c<n. bit c \<and> k = idx c then gfx t ! k XOR 0xFFFFFFFF else gfx t ! k)))"
  have idx_eq: "idx c = idx c' \<longleftrightarrow> c = c'" for c c'
    by (simp add: idx_def screen_index_def)
  have idx_small: "idx c < 65536" if "c < 8" for c
    using small that by (simp add: idx_def screen_index_def)
  have P0: "P 0 t"
    unfolding P_def by (intro exI [of _ "gfx t"] exI [of _ "v t"]) simp
  have step: "\<exists>u'. draw_pixel spriteByte xPos yPos row n u = Inr u' \<and> P (Suc n) u'"
    if nm: "n < m" and Pn: "P n u" for n u
  proof -
    have n8: "n < 8"
      using nm m8 by simp
    obtain g w where u: "u = t\<lparr>v := w, gfx := g\<rparr>" and lg: "length g = length (gfx t)"
      and lw: "length w = length (v t)"
      and cells: "\<And>k. k < length (gfx t) \<Longrightarrow> g ! k =
         (if \<exists>c<n. bit c \<and> k = idx c then gfx t ! k XOR 0xFFFFFFFF else gfx t ! k)"
      using Pn unfolding P_def by blast
    show ?thesis
    proof (cases "bit n")
      case False
      then have "draw_pixel spriteByte xPos yPos row n u = Inr u"
        by (intro draw_pixel_clear) (simp add: bit_def)
      moreover have "P (Suc n) u"
        unfolding P_def
      proof (intro exI [of _ g] exI [of _ w] conjI allI impI)
        show "u = t\<lparr>v := w, gfx := g\<rparr>" "length g = length (gfx t)" "length w = length (v t)"
          by (fact u lg lw)+
        show "g ! k = (if \<exists>c<Suc n. bit c \<and> k = idx c then gfx t ! k XOR 0xFFFFFFFF else gfx t ! k)"
          if "k < length (gfx t)" for k
          using cells [OF that] False by (auto simp: less_Suc_eq)
      qed
      ultimately show ?thesis
        by blast
    next
      case True
      have in_range: "idx n < length (gfx t)"
        using inb nm True by (simp add: bit_def idx_def)
      define w' where "w' = (if g ! idx n = 0xFFFFFFFF then w[0xF := 1] else w)"
      define g' where "g' = g[idx n := g ! idx n XOR 0xFFFFFFFF]"
      have "draw_pixel spriteByte xPos yPos row n u = Inr (u\<lparr>v := w', gfx := g'\<rparr>)"
        using draw_pixel_set [of spriteByte n xPos yPos row u] True in_range lg idx_small [OF n8]
        by (simp add: bit_def idx_def u w'_def g'_def)
      then have run: "draw_pixel spriteByte xPos yPos row n u = Inr (t\<lparr>v := w', gfx := g'\<rparr>)"
        by (simp add: u)
      have fresh: "g ! idx n = gfx t ! idx n"
        using cells [OF in_range] by (auto simp: idx_eq)
      have "P (Suc n) (t\<lparr>v := w', gfx := g'\<rparr>)"
        unfolding P_def
      proof (intro exI [of _ g'] exI [of _ w'] conjI allI impI)
        show "t\<lparr>v := w', gfx := g'\<rparr> = t\<lparr>v := w', gfx := g'\<rparr>"
          by (rule refl)
        show "length g' = length (gfx t)"
          by (simp add: g'_def lg)
        show "length w' = length (v t)"
          by (simp add: w'_def lw)
        show "g' ! k = (if \<exists>c<Suc n. bit c \<and> k = idx c then gfx t ! k XOR 0xFFFFFFFF else gfx t ! k)"
          if "k < length (gfx t)" for k
        proof (cases "k = idx n")
          case True
          then show ?thesis
            using in_range lg fresh \<open>bit n\<close> by (auto simp: g'_def)
        next
          case False
          then have "g' ! k = g ! k"
            by (simp add: g'_def)
          then show ?thesis
            using cells [OF that] False by (auto simp: less_Suc_eq)
        qed
      qed
      with run show ?thesis
        by blast
    qed
  qed
  have "\<exists>u. for_loop 0 m (draw_pixel spriteByte xPos yPos row) t = Inr u \<and> P m u"
  proof (rule for_loop_invariant [where P = P])
    show "P 0 t"
      by (rule P0)
    show "0 \<le> m"
      by simp
    show "\<exists>u'. draw_pixel spriteByte xPos yPos row n u = Inr u' \<and> P (Suc n) u'"
      if "0 \<le> n" "n < m" "P n u" for n u
      using step [OF that(2,3)] .
  qed
  then obtain u where u: "for_loop 0 m (draw_pixel spriteByte xPos yPos row) t = Inr u" "P m u"
    by (elim exE conjE)
  from u(2) obtain g w where gw: "u = t\<lparr>v := w, gfx := g\<rparr>" "length g = length (gfx t)"
      "length w = length (v t)"
      "\<forall>k < length (gfx t). g ! k =
         (if \<exists>c<m. bit c \<and> k = idx c then gfx t ! k XOR 0xFFFFFFFF else gfx t ! k)"
    unfolding P_def by blast
  have "for_loop 0 m (draw_pixel spriteByte xPos yPos row) t = Inr (t\<lparr>v := w, gfx := g\<rparr>)"
    using u(1) gw(1) by simp
  moreover have "\<forall>k < length g. g ! k =
       (if \<exists>c<m. spriteByte AND drop_bit c 0x80 \<noteq> 0 \<and> k = screen_index xPos yPos row c
        then gfx t ! k XOR 0xFFFFFFFF else gfx t ! k)"
    using gw(2,4) by (simp add: bit_def idx_def)
  ultimately show ?thesis
    using gw(2,3) by blast
qed


lemma draw_cols:
  assumes inb: "\<forall>c<8. spriteByte AND drop_bit c 0x80 \<noteq> 0 \<longrightarrow>
                  screen_index xPos yPos row c < length (gfx t)"
    and small: "screen_index xPos yPos row 8 \<le> 65536"
  shows "\<exists>g w. for_loop 0 8 (draw_pixel spriteByte xPos yPos row) t = Inr (t\<lparr>v := w, gfx := g\<rparr>) \<and>
           length g = length (gfx t) \<and> length w = length (v t) \<and>
           (\<forall>k < length g. g ! k =
              (if \<exists>c<8. spriteByte AND drop_bit c 0x80 \<noteq> 0 \<and> k = screen_index xPos yPos row c
               then gfx t ! k XOR 0xFFFFFFFF else gfx t ! k))"
  using inb small by (intro draw_cols_upto) simp_all

text \<open>The columns up to the first set sprite bit whose cell is outside the framebuffer:
  the row stops at that cell.\<close>

lemma draw_cols_fault:
  assumes c8: "c < 8" and bitc: "spriteByte AND drop_bit c 0x80 \<noteq> 0"
    and out: "\<not> screen_index xPos yPos row c < length (gfx t)"
    and before: "\<forall>c'<c. spriteByte AND drop_bit c' 0x80 \<noteq> 0 \<longrightarrow>
                  screen_index xPos yPos row c' < length (gfx t)"
    and small: "screen_index xPos yPos row 8 \<le> 65536"
  shows "for_loop 0 8 (draw_pixel spriteByte xPos yPos row) t =
           Inl (VideoOutOfBounds (screen_index xPos yPos row c))"
proof -
  have c8': "c \<le> 8"
    using c8 by simp
  obtain g w where first: "for_loop 0 c (draw_pixel spriteByte xPos yPos row) t = Inr (t\<lparr>v := w, gfx := g\<rparr>)"
    and lg: "length g = length (gfx t)"
    using draw_cols_upto [OF c8' before small] by blast
  have split: "for_loop 0 8 (draw_pixel spriteByte xPos yPos row) t =
      and_then (for_loop 0 c (draw_pixel spriteByte xPos yPos row) t)
        (for_loop c 8 (draw_pixel spriteByte xPos yPos row))"
    using c8 by (intro for_loop_split) simp_all
  have "screen_index xPos yPos row c < 65536"
    using small c8 by (simp add: screen_index_def)
  then have "draw_pixel spriteByte xPos yPos row c (t\<lparr>v := w, gfx := g\<rparr>) =
      Inl (VideoOutOfBounds (screen_index xPos yPos row c))"
    using bitc out lg by (intro draw_pixel_set_fault) simp_all
  moreover have "for_loop c 8 (draw_pixel spriteByte xPos yPos row) (t\<lparr>v := w, gfx := g\<rparr>) =
      and_then (draw_pixel spriteByte xPos yPos row c (t\<lparr>v := w, gfx := g\<rparr>))
        (for_loop (Suc c) 8 (draw_pixel spriteByte xPos yPos row))"
    using c8 by (rule for_loop_step)
  ultimately have stop: "for_loop c 8 (draw_pixel spriteByte xPos yPos row) (t\<lparr>v := w, gfx := g\<rparr>) =
      Inl (VideoOutOfBounds (screen_index xPos yPos row c))"
    by (simp only: and_then.simps)
  show ?thesis
    by (simp only: split first and_then.simps stop)
qed

lemma draw_rows_upto:
  assumes m: "m \<le> height_of s"
    and rows: "unat (i s) + m \<le> length (memory s)"
    and inb: "\<forall>r<m. \<forall>c<8. sprite_pixel s r c \<longrightarrow>
                screen_index (x_pos s) (y_pos s) r c < length (gfx s)"
    and lv: "length v0 = length (v s)"
  shows "\<exists>g w. for_loop 0 m (draw_row (x_pos s) (y_pos s)) (s\<lparr>v := v0\<rparr>) =
             Inr (s\<lparr>v := w, gfx := g\<rparr>) \<and>
           length g = length (gfx s) \<and> length w = length (v s) \<and>
           (\<forall>k < length g. g ! k =
              (if \<exists>r<m. \<exists>c<8. sprite_pixel s r c \<and>
                    k = screen_index (x_pos s) (y_pos s) r c
               then gfx s ! k XOR 0xFFFFFFFF else gfx s ! k))"
proof -
  define xPos where "xPos = x_pos s"
  define yPos where "yPos = y_pos s"
  define s0 where "s0 = s\<lparr>v := v0\<rparr>"
  define hit where "hit = (\<lambda>n k. \<exists>r<n. \<exists>c<8. sprite_pixel s r c \<and> k = screen_index xPos yPos r c)"
  define P where "P = (\<lambda>n (u :: CPU). \<exists>g w. u = s\<lparr>v := w, gfx := g\<rparr> \<and>
      length g = length (gfx s) \<and> length w = length (v s) \<and>
      (\<forall>k < length (gfx s). g ! k = (if hit n k then gfx s ! k XOR 0xFFFFFFFF else gfx s ! k)))"
  have pos: "xPos < 64" "yPos < 32"
    by (simp_all add: xPos_def yPos_def x_pos_def y_pos_def)
  have P0: "P 0 s0"
    unfolding P_def s0_def
    by (intro exI [of _ "gfx s"] exI [of _ v0]) (simp add: hit_def lv)
  have step: "\<exists>u'. draw_row xPos yPos n u = Inr u' \<and> P (Suc n) u'"
    if nm: "n < m" and Pn: "P n u" for n u
  proof -
    have nh: "n < height_of s"
      using nm m by simp
    obtain g w where u: "u = s\<lparr>v := w, gfx := g\<rparr>" and lg: "length g = length (gfx s)"
      and lw: "length w = length (v s)"
      and cells: "\<And>k. k < length (gfx s) \<Longrightarrow> g ! k =
         (if hit n k then gfx s ! k XOR 0xFFFFFFFF else gfx s ! k)"
      using Pn unfolding P_def by blast
    define b where "b = memory s ! (unat (i s) + n)"
    have bit: "(b AND drop_bit c 0x80 \<noteq> 0) = sprite_pixel s n c" for c
      by (simp add: b_def sprite_pixel_def)
    have row: "draw_row xPos yPos n u = for_loop 0 8 (draw_pixel b xPos yPos n) u"
      using rows nm by (simp add: draw_row_def rd_def u b_def)
    have c1: "\<forall>c<8. b AND drop_bit c 0x80 \<noteq> 0 \<longrightarrow> screen_index xPos yPos n c < length (gfx u)"
      using inb nm lg by (simp add: bit u xPos_def yPos_def)
    have "n < 16"
      using nh height_of_less [of s] by simp
    then have c2: "screen_index xPos yPos n 8 \<le> 65536"
      using pos by (simp add: screen_index_def)
    obtain g' w' where run: "for_loop 0 8 (draw_pixel b xPos yPos n) u = Inr (u\<lparr>v := w', gfx := g'\<rparr>)"
      and lg': "length g' = length (gfx u)" and lw': "length w' = length (v u)"
      and cells': "\<forall>k < length g'. g' ! k =
              (if \<exists>c<8. b AND drop_bit c 0x80 \<noteq> 0 \<and> k = screen_index xPos yPos n c
               then gfx u ! k XOR 0xFFFFFFFF else gfx u ! k)"
      using draw_cols [OF c1 c2] by blast
    have run': "draw_row xPos yPos n u = Inr (s\<lparr>v := w', gfx := g'\<rparr>)"
      using row run by (simp add: u)
    have "P (Suc n) (s\<lparr>v := w', gfx := g'\<rparr>)"
      unfolding P_def
    proof (intro exI [of _ g'] exI [of _ w'] conjI allI impI)
      show "s\<lparr>v := w', gfx := g'\<rparr> = s\<lparr>v := w', gfx := g'\<rparr>"
        by (rule refl)
      show "length g' = length (gfx s)"
        using lg' lg by (simp add: u)
      show "length w' = length (v s)"
        using lw' lw by (simp add: u)
      show "g' ! k = (if hit (Suc n) k then gfx s ! k XOR 0xFFFFFFFF else gfx s ! k)"
        if k: "k < length (gfx s)" for k
      proof -
        have now: "g' ! k = (if \<exists>c<8. sprite_pixel s n c \<and> k = screen_index xPos yPos n c
               then g ! k XOR 0xFFFFFFFF else g ! k)"
        proof -
          have gu: "gfx u = g"
            by (simp add: u)
          have "k < length g'"
            using k lg' lg gu by simp
          from cells' [rule_format, OF this] show ?thesis
            by (simp only: bit gu)
        qed
        show ?thesis
        proof (cases "\<exists>c<8. sprite_pixel s n c \<and> k = screen_index xPos yPos n c")
          case True
          then obtain c where c: "c < 8" "sprite_pixel s n c" "k = screen_index xPos yPos n c"
            by blast
          have "\<not> hit n k"
          proof
            assume "hit n k"
            then obtain r' c' where r': "r' < n" "c' < 8" "k = screen_index xPos yPos r' c'"
              unfolding hit_def by blast
            from screen_index_inj [of xPos yPos n c r' c'] c r' show False
              by simp
          qed
          moreover have "hit (Suc n) k"
          proof -
            have "n < Suc n"
              by simp
            with c show ?thesis
              unfolding hit_def by blast
          qed
          ultimately show ?thesis
            using now True cells [OF k] by simp
        next
          case False
          then have "hit (Suc n) k = hit n k"
            unfolding hit_def by (auto simp: less_Suc_eq)
          then show ?thesis
            using now False cells [OF k] by simp
        qed
      qed
    qed
    with run' show ?thesis
      by blast
  qed
  have "\<exists>u. for_loop 0 m (draw_row xPos yPos) s0 = Inr u \<and> P m u"
  proof (rule for_loop_invariant [where P = P])
    show "P 0 s0"
      by (rule P0)
    show "0 \<le> m"
      by simp
    show "\<exists>u'. draw_row xPos yPos n u = Inr u' \<and> P (Suc n) u'"
      if "0 \<le> n" "n < m" "P n u" for n u
      using step [OF that(2,3)] .
  qed
  then obtain u where u: "for_loop 0 m (draw_row xPos yPos) s0 = Inr u"
      "P m u"
    by (elim exE conjE)
  from u(2) obtain g w where gw: "u = s\<lparr>v := w, gfx := g\<rparr>" "length g = length (gfx s)"
      "length w = length (v s)"
      "\<forall>k < length (gfx s). g ! k =
         (if hit m k then gfx s ! k XOR 0xFFFFFFFF else gfx s ! k)"
    unfolding P_def by blast
  have "for_loop 0 m (draw_row (x_pos s) (y_pos s)) (s\<lparr>v := v0\<rparr>) = Inr (s\<lparr>v := w, gfx := g\<rparr>)"
    using u(1) gw(1) by (simp add: s0_def xPos_def yPos_def)
  moreover have "\<forall>k < length g. g ! k =
       (if \<exists>r<m. \<exists>c<8. sprite_pixel s r c \<and> k = screen_index (x_pos s) (y_pos s) r c
        then gfx s ! k XOR 0xFFFFFFFF else gfx s ! k)"
    using gw(2,4) by (simp add: hit_def xPos_def yPos_def)
  ultimately show ?thesis
    using gw(2,3) by blast
qed


lemma OP_Dxyn_unfold:
  "OP_Dxyn s =
     for_loop 0 (height_of s) (draw_row (x_pos s) (y_pos s)) (s\<lparr>v := (v s)[0xF := 0]\<rparr>)"
  by (simp add: OP_Dxyn_def Let_def x_pos_def y_pos_def)

text \<open>The whole sprite. Every row is in memory and every set sprite pixel has its cell
  inside the framebuffer: the draw ends without fault, each cell that is the cell of a set
  sprite pixel is toggled once, every other cell keeps its value, and only the registers and
  the framebuffer change.\<close>

lemma OP_Dxyn_ok:
  assumes rows: "unat (i s) + height_of s \<le> length (memory s)"
    and inb: "\<forall>r<height_of s. \<forall>c<8. sprite_pixel s r c \<longrightarrow>
                screen_index (x_pos s) (y_pos s) r c < length (gfx s)"
  shows "\<exists>g w. OP_Dxyn s = Inr (s\<lparr>v := w, gfx := g\<rparr>) \<and>
           length g = length (gfx s) \<and> length w = length (v s) \<and>
           (\<forall>k < length g. g ! k =
              (if \<exists>r<height_of s. \<exists>c<8. sprite_pixel s r c \<and>
                    k = screen_index (x_pos s) (y_pos s) r c
               then gfx s ! k XOR 0xFFFFFFFF else gfx s ! k))"
proof -
  have lv: "length ((v s)[0xF := 0]) = length (v s)"
    by simp
  from draw_rows_upto [OF le_refl rows inb lv] show ?thesis
    by (simp only: OP_Dxyn_unfold)
qed

text \<open>A sprite of height 0: no row is read and no cell is touched, wherever \<open>I\<close> points.\<close>

lemma OP_Dxyn_height_0:
  "height_of s = 0 \<Longrightarrow> OP_Dxyn s = Inr (s\<lparr>v := (v s)[0xF := 0]\<rparr>)"
  by (simp add: OP_Dxyn_unfold)

text \<open>A sprite with a row outside memory, none of whose set pixels in the rows before it
  leaves the framebuffer: the rows inside memory are drawn, then the read of the sprite byte
  at the first address outside memory, \<open>I\<close> itself or 4096, stops the draw. The address is
  used as it is.\<close>

lemma OP_Dxyn_memory_fault:
  assumes h: "0 < height_of s"
    and over: "\<not> unat (i s) + height_of s \<le> length (memory s)"
    and inb: "\<forall>r<length (memory s) - unat (i s). \<forall>c<8. sprite_pixel s r c \<longrightarrow>
                screen_index (x_pos s) (y_pos s) r c < length (gfx s)"
  shows "OP_Dxyn s = Inl (MemoryOutOfBounds (max (unat (i s)) (length (memory s))))"
proof -
  define n0 where "n0 = length (memory s) - unat (i s)"
  define body where "body = draw_row (x_pos s) (y_pos s)"
  have n0: "n0 < height_of s" "unat (i s) + n0 = max (unat (i s)) (length (memory s))"
    using over h by (auto simp: n0_def)
  have fit: "unat (i s) + n0 \<le> length (memory s)" if "n0 \<noteq> 0"
    using that by (simp add: n0_def)
  have lv: "length ((v s)[0xF := 0]) = length (v s)"
    by simp
  have first: "\<exists>g w. for_loop 0 n0 body (s\<lparr>v := (v s)[0xF := 0]\<rparr>) = Inr (s\<lparr>v := w, gfx := g\<rparr>)"
  proof (cases "n0 = 0")
    case True
    have "for_loop 0 0 body (s\<lparr>v := (v s)[0xF := 0]\<rparr>) = Inr (s\<lparr>v := (v s)[0xF := 0], gfx := gfx s\<rparr>)"
      by simp
    then show ?thesis
      unfolding True by blast
  next
    case False
    have le: "n0 \<le> height_of s"
      using n0(1) by simp
    have inb': "\<forall>r<n0. \<forall>c<8. sprite_pixel s r c \<longrightarrow>
                screen_index (x_pos s) (y_pos s) r c < length (gfx s)"
      using inb by (simp add: n0_def)
    from draw_rows_upto [OF le fit [OF False] inb' lv] show ?thesis
      unfolding body_def by blast
  qed
  then obtain g w where gw: "for_loop 0 n0 body (s\<lparr>v := (v s)[0xF := 0]\<rparr>) = Inr (s\<lparr>v := w, gfx := g\<rparr>)"
    by blast
  have split: "for_loop 0 (height_of s) body (s\<lparr>v := (v s)[0xF := 0]\<rparr>) =
      and_then (for_loop 0 n0 body (s\<lparr>v := (v s)[0xF := 0]\<rparr>)) (for_loop n0 (height_of s) body)"
    using n0(1) by (intro for_loop_split) simp_all
  have "for_loop n0 (height_of s) body (s\<lparr>v := w, gfx := g\<rparr>) =
      and_then (body n0 (s\<lparr>v := w, gfx := g\<rparr>)) (for_loop (Suc n0) (height_of s) body)"
    using n0(1) by (rule for_loop_step)
  moreover have "body n0 (s\<lparr>v := w, gfx := g\<rparr>) = Inl (MemoryOutOfBounds (unat (i s) + n0))"
    using n0(2) by (simp add: body_def draw_row_def rd_def)
  ultimately have stop: "for_loop n0 (height_of s) body (s\<lparr>v := w, gfx := g\<rparr>) =
      Inl (MemoryOutOfBounds (max (unat (i s)) (length (memory s))))"
    by (simp only: and_then.simps n0(2))
  have "for_loop 0 (height_of s) body (s\<lparr>v := (v s)[0xF := 0]\<rparr>) =
      Inl (MemoryOutOfBounds (max (unat (i s)) (length (memory s))))"
    by (simp only: split gw and_then.simps stop)
  then show ?thesis
    by (simp only: OP_Dxyn_unfold body_def)
qed

text \<open>A sprite with a set pixel, in a row inside memory, whose cell is outside the
  framebuffer: the draw stops at the first such pixel, in the order the loops visit them
  (rows ascending, columns ascending within a row).\<close>

lemma OP_Dxyn_video_fault:
  assumes r: "r < height_of s" and rmem: "unat (i s) + r < length (memory s)"
    and c: "c < 8" and px: "sprite_pixel s r c"
    and out: "\<not> screen_index (x_pos s) (y_pos s) r c < length (gfx s)"
    and before: "\<forall>r' c'. c' < 8 \<and> (r' < r \<or> r' = r \<and> c' < c) \<and> sprite_pixel s r' c' \<longrightarrow>
                   screen_index (x_pos s) (y_pos s) r' c' < length (gfx s)"
  shows "OP_Dxyn s = Inl (VideoOutOfBounds (screen_index (x_pos s) (y_pos s) r c))"
proof -
  define body where "body = draw_row (x_pos s) (y_pos s)"
  define b where "b = memory s ! (unat (i s) + r)"
  have lv: "length ((v s)[0xF := 0]) = length (v s)"
    by simp
  have le: "r \<le> height_of s"
    using r by simp
  have rows: "unat (i s) + r \<le> length (memory s)"
    using rmem by simp
  have inb: "\<forall>r'<r. \<forall>c'<8. sprite_pixel s r' c' \<longrightarrow>
                screen_index (x_pos s) (y_pos s) r' c' < length (gfx s)"
    using before by blast
  obtain g w where gw: "for_loop 0 r body (s\<lparr>v := (v s)[0xF := 0]\<rparr>) = Inr (s\<lparr>v := w, gfx := g\<rparr>)"
    and lg: "length g = length (gfx s)"
    using draw_rows_upto [OF le rows inb lv] unfolding body_def by blast
  have split: "for_loop 0 (height_of s) body (s\<lparr>v := (v s)[0xF := 0]\<rparr>) =
      and_then (for_loop 0 r body (s\<lparr>v := (v s)[0xF := 0]\<rparr>)) (for_loop r (height_of s) body)"
    using r by (intro for_loop_split) simp_all
  have step: "for_loop r (height_of s) body (s\<lparr>v := w, gfx := g\<rparr>) =
      and_then (body r (s\<lparr>v := w, gfx := g\<rparr>)) (for_loop (Suc r) (height_of s) body)"
    using r by (rule for_loop_step)
  have row: "body r (s\<lparr>v := w, gfx := g\<rparr>) =
      for_loop 0 8 (draw_pixel b (x_pos s) (y_pos s) r) (s\<lparr>v := w, gfx := g\<rparr>)"
    using rmem by (simp add: body_def draw_row_def rd_def b_def)
  have bitc: "b AND drop_bit c 0x80 \<noteq> 0"
    using px by (simp add: b_def sprite_pixel_def)
  have out': "\<not> screen_index (x_pos s) (y_pos s) r c < length (gfx (s\<lparr>v := w, gfx := g\<rparr>))"
    using out lg by simp
  have before': "\<forall>c'<c. b AND drop_bit c' 0x80 \<noteq> 0 \<longrightarrow>
      screen_index (x_pos s) (y_pos s) r c' < length (gfx (s\<lparr>v := w, gfx := g\<rparr>))"
  proof (intro allI impI)
    fix c'
    assume c': "c' < c" and "b AND drop_bit c' 0x80 \<noteq> 0"
    then have "sprite_pixel s r c'"
      by (simp add: b_def sprite_pixel_def)
    moreover have "c' < 8"
      using c' c by simp
    ultimately have "screen_index (x_pos s) (y_pos s) r c' < length (gfx s)"
      using before c' by blast
    then show "screen_index (x_pos s) (y_pos s) r c' < length (gfx (s\<lparr>v := w, gfx := g\<rparr>))"
      using lg by simp
  qed
  have "r < 16"
    using r height_of_less [of s] by simp
  then have small: "screen_index (x_pos s) (y_pos s) r 8 \<le> 65536"
    by (simp add: screen_index_def x_pos_def y_pos_def)
  have "body r (s\<lparr>v := w, gfx := g\<rparr>) =
      Inl (VideoOutOfBounds (screen_index (x_pos s) (y_pos s) r c))"
    unfolding row using c bitc out' before' small by (rule draw_cols_fault)
  then have stop: "for_loop r (height_of s) body (s\<lparr>v := w, gfx := g\<rparr>) =
      Inl (VideoOutOfBounds (screen_index (x_pos s) (y_pos s) r c))"
    by (simp only: step and_then.simps)
  have "for_loop 0 (height_of s) body (s\<lparr>v := (v s)[0xF := 0]\<rparr>) =
      Inl (VideoOutOfBounds (screen_index (x_pos s) (y_pos s) r c))"
    by (simp only: split gw and_then.simps stop)
  then show ?thesis
    by (simp only: OP_Dxyn_unfold body_def)
qed

text \<open>Among the pixels of the first \<open>n\<close> rows either none has the property \<open>B\<close> or one is the
  first that has it, in the order of the loops.\<close>

lemma first_pixel_with:
  "(\<forall>r<(n :: nat). \<forall>c<(8 :: nat). \<not> B r c) \<or>
   (\<exists>r c. r < n \<and> c < (8 :: nat) \<and> B r c \<and>
      (\<forall>r' c'. c' < (8 :: nat) \<and> (r' < r \<or> r' = r \<and> c' < c) \<longrightarrow> \<not> B r' c'))"
proof (cases "\<forall>r<n. \<forall>c<(8 :: nat). \<not> B r c")
  case True
  then show ?thesis
    by blast
next
  case False
  then obtain r1 c1 where rc1: "r1 < n" "c1 < (8 :: nat)" "B r1 c1"
    by blast
  define Q where "Q = (\<lambda>p :: nat. p div 8 < n \<and> B (p div 8) (p mod 8))"
  have "Q (8 * r1 + c1)"
    using rc1 by (simp add: Q_def)
  then have least: "Q (LEAST p. Q p)"
    by (rule LeastI)
  have minimal: "\<not> Q p" if "p < (LEAST p. Q p)" for p
    using that by (rule not_less_Least)
  define p0 where "p0 = (LEAST p. Q p)"
  have r0: "p0 div 8 < n" and b0: "B (p0 div 8) (p0 mod 8)"
    using least by (simp_all add: Q_def p0_def)
  have c0: "p0 mod 8 < 8"
    by simp
  have none: "\<not> B r' c'" if c': "c' < 8" and lt: "r' < p0 div 8 \<or> r' = p0 div 8 \<and> c' < p0 mod 8"
    for r' c'
  proof
    assume B: "B r' c'"
    have less: "8 * r' + c' < p0"
      using lt c' by (elim disjE conjE) (simp_all add: less_eq_div_iff_mult_less_eq, presburger+)
    have "r' < n"
      using lt r0 by auto
    then have "Q (8 * r' + c')"
      using B c' by (simp add: Q_def)
    with minimal [of "8 * r' + c'"] less show False
      by (simp add: p0_def)
  qed
  from r0 c0 b0 none show ?thesis
    by blast
qed

lemma for_loop_1: "for_loop 0 (Suc 0) body t = body 0 t"
proof -
  have "for_loop 0 (Suc 0) body t = and_then (body 0 t) (for_loop (Suc 0) (Suc 0) body)"
    by (rule for_loop_step) simp
  also have "\<dots> = body 0 t"
    by (cases "body 0 t") simp_all
  finally show ?thesis .
qed

lemma for_loop_8:
  "for_loop 0 8 body t =
     and_then (body 0 t) (\<lambda>t1. and_then (body 1 t1) (\<lambda>t2. and_then (body 2 t2)
       (\<lambda>t3. and_then (body 3 t3) (\<lambda>t4. and_then (body 4 t4) (\<lambda>t5. and_then (body 5 t5)
         (\<lambda>t6. and_then (body 6 t6) (\<lambda>t7. body 7 t7)))))))"
proof -
  have step: "for_loop k 8 body u = and_then (body k u) (for_loop (Suc k) 8 body)" if "k < 8" for k u
    using that by (rule for_loop_step)
  have last: "and_then r (for_loop 8 8 body) = r" for r
    by (cases r) simp_all
  have l7: "for_loop 7 8 body = body 7"
    by (rule ext) (simp add: step [of 7] last)
  have l6: "for_loop 6 8 body = (\<lambda>t6. and_then (body 6 t6) (body 7))"
    by (rule ext) (simp add: step [of 6] l7)
  have l5: "for_loop 5 8 body = (\<lambda>t5. and_then (body 5 t5) (\<lambda>t6. and_then (body 6 t6) (body 7)))"
    by (rule ext) (simp add: step [of 5] l6)
  have l4: "for_loop 4 8 body = (\<lambda>t4. and_then (body 4 t4) (\<lambda>t5. and_then (body 5 t5)
      (\<lambda>t6. and_then (body 6 t6) (body 7))))"
    by (rule ext) (simp add: step [of 4] l5)
  have l3: "for_loop 3 8 body = (\<lambda>t3. and_then (body 3 t3) (\<lambda>t4. and_then (body 4 t4)
      (\<lambda>t5. and_then (body 5 t5) (\<lambda>t6. and_then (body 6 t6) (body 7)))))"
    by (rule ext) (simp add: step [of 3] l4)
  have l2: "for_loop 2 8 body = (\<lambda>t2. and_then (body 2 t2) (\<lambda>t3. and_then (body 3 t3)
      (\<lambda>t4. and_then (body 4 t4) (\<lambda>t5. and_then (body 5 t5) (\<lambda>t6. and_then (body 6 t6) (body 7))))))"
    by (rule ext) (simp add: step [of 2] l3)
  have l1: "for_loop (Suc 0) 8 body = (\<lambda>t1. and_then (body 1 t1) (\<lambda>t2. and_then (body 2 t2)
      (\<lambda>t3. and_then (body 3 t3) (\<lambda>t4. and_then (body 4 t4) (\<lambda>t5. and_then (body 5 t5)
        (\<lambda>t6. and_then (body 6 t6) (body 7)))))))"
  proof (rule ext)
    fix u
    have "for_loop (Suc 0) 8 body u = and_then (body (Suc 0) u) (for_loop (Suc (Suc 0)) 8 body)"
      by (rule step) simp
    moreover have "Suc (Suc 0) = 2"
      by simp
    ultimately show "for_loop (Suc 0) 8 body u = and_then (body 1 u) (\<lambda>t2. and_then (body 2 t2)
      (\<lambda>t3. and_then (body 3 t3) (\<lambda>t4. and_then (body 4 t4) (\<lambda>t5. and_then (body 5 t5)
        (\<lambda>t6. and_then (body 6 t6) (body 7))))))"
      by (simp add: l2)
  qed
  show ?thesis
    by (simp add: step [of 0] l1)
qed

lemma draw_F0_first:
  assumes "sized s" and "gfx s = replicate 2048 0"
    and "height_of s = 1" and "unat (i s) < MEMORY_SIZE" and "memory s ! unat (i s) = 0xF0"
    and "x_pos s = 0" and "y_pos s = 0"
  shows "OP_Dxyn s = Inr (s\<lparr>v := (v s)[0xF := 0],
            gfx := (replicate 2048 0)[0 := 0xFFFFFFFF, 1 := 0xFFFFFFFF, 2 := 0xFFFFFFFF, 3 := 0xFFFFFFFF]\<rparr>)"
  using assms
  by (simp add: OP_Dxyn_def Let_def sized_def x_pos_def y_pos_def for_loop_1 draw_row_def rd_def
      for_loop_8 draw_pixel_def numeral_2_eq_2 [symmetric])

lemma four_cells_unlit_again:
  "(replicate 2048 (0 :: u32))
     [0 := a, Suc 0 := b, 2 := c, 3 := d, 0 := 0, Suc 0 := 0, 2 := 0, 3 := 0] = replicate 2048 0"
  by (rule nth_equalityI) (auto simp: nth_list_update)

lemma draw_F0_second:
  assumes "sized s"
    and "gfx s = (replicate 2048 0)[0 := 0xFFFFFFFF, 1 := 0xFFFFFFFF, 2 := 0xFFFFFFFF, 3 := 0xFFFFFFFF]"
    and "height_of s = 1" and "unat (i s) < MEMORY_SIZE" and "memory s ! unat (i s) = 0xF0"
    and "x_pos s = 0" and "y_pos s = 0"
  shows "OP_Dxyn s = Inr (s\<lparr>v := (v s)[0xF := 1], gfx := replicate 2048 0\<rparr>)"
  using assms
  by (simp add: OP_Dxyn_def Let_def sized_def x_pos_def y_pos_def for_loop_1 draw_row_def rd_def
      for_loop_8 draw_pixel_def numeral_2_eq_2 [symmetric] four_cells_unlit_again)

section \<open>Arithmetic handlers and the flag register\<close>

text \<open>The value each flag-producing handler leaves in register 0xF, for any operand
  registers: the store of the flag is the last assignment of the handler.\<close>

lemma OP_8xy4_flag:
  assumes "length (v s) = 16"
  shows "v (OP_8xy4 s) ! 0xF =
    (if unat (v s ! x_of s) + unat (v s ! y_of s) > 255 then 1 else 0)"
  using assms by (simp add: OP_8xy4_def Let_def carry_iff)

lemma OP_8xy5_flag:
  assumes "length (v s) = 16"
  shows "v (OP_8xy5 s) ! 0xF =
    (if unat (v s ! x_of s) \<ge> unat (v s ! y_of s) then 1 else 0)"
proof (cases "x_of s = y_of s")
  case True
  then show ?thesis
    using assms x_of_less [of s] by (simp add: OP_8xy5_def Let_def)
next
  case False
  then show ?thesis
    using assms by (simp add: OP_8xy5_def Let_def word_le_nat_alt)
qed

lemma OP_8xy6_flag:
  assumes "length (v s) = 16"
  shows "v (OP_8xy6 s) ! 0xF = v s ! x_of s AND 0x01"
  using assms by (simp add: OP_8xy6_def Let_def)

lemma OP_8xy7_flag:
  assumes "length (v s) = 16"
  shows "v (OP_8xy7 s) ! 0xF =
    (if x_of s = y_of s then 0
     else if unat (v s ! y_of s) > (256 + unat (v s ! y_of s) - unat (v s ! x_of s)) mod 256
          then 1 else 0)"
  using assms x_of_less [of s]
  by (simp add: OP_8xy7_def Let_def word_less_nat_alt unat_diff_u8)

lemma OP_8xyE_flag:
  assumes "length (v s) = 16"
  shows "v (OP_8xyE s) ! 0xF = drop_bit 7 (v s ! x_of s AND 0x80)"
  using assms by (simp add: OP_8xyE_def Let_def)

lemma lsb_le_1: "unat ((a :: u8) AND 0x01) \<le> 1"
  using word_and_le1 [of a 1, THEN word_le_nat_alt [THEN iffD1]] by simp

lemma msb_le_1: "unat (drop_bit 7 ((a :: u8) AND 0x80)) \<le> 1"
proof -
  have "unat (a AND 0x80) \<le> unat (0x80 :: u8)"
    by (rule word_and_le1 [THEN word_le_nat_alt [THEN iffD1]])
  then show ?thesis
    by (simp add: unat_drop_bit_eq drop_bit_eq_div unat_div)
qed

text \<open>
  C5. For all register contents \<open>a = V[x]\<close> and \<open>b = V[y]\<close> before the instruction and every
  pair of register indices (any latched opcode): after add-reg (\<^verbatim>\<open>OP_8xy4\<close>) register 0xF is 1
  if \<open>a + b > 255\<close> and 0 otherwise, and after sub-reg (\<^verbatim>\<open>OP_8xy5\<close>) register 0xF is 1 if
  \<open>a \<ge> b\<close> and 0 otherwise.
\<close>

theorem add_reg_sub_reg_flag:
  assumes "sized s"
  shows "v (OP_8xy4 s) ! 0xF =
           (if unat (v s ! x_of s) + unat (v s ! y_of s) > 255 then 1 else 0) \<and>
         v (OP_8xy5 s) ! 0xF =
           (if unat (v s ! x_of s) \<ge> unat (v s ! y_of s) then 1 else 0)"
proof -
  have len: "length (v s) = 16"
    using assms by (simp add: sized_def)
  from OP_8xy4_flag [OF len] OP_8xy5_flag [OF len] show ?thesis ..
qed

theorem add_reg_sub_reg_flag_witness:
  "sized (power_on\<lparr>opcode := 0x8014, v := (v power_on)[0 := 0xFF, 1 := 0x01]\<rparr>) \<and>
   v (OP_8xy4 (power_on\<lparr>opcode := 0x8014, v := (v power_on)[0 := 0xFF, 1 := 0x01]\<rparr>)) ! 0xF = 1 \<and>
   v (OP_8xy5 (power_on\<lparr>opcode := 0x8014, v := (v power_on)[0 := 0xFF, 1 := 0x01]\<rparr>)) ! 0xF = 1"
proof -
  have sz: "sized (power_on\<lparr>opcode := 0x8014, v := (v power_on)[0 := 0xFF, 1 := 0x01]\<rparr>)"
    using power_on_sized by (simp add: sized_def)
  show ?thesis
    using sz add_reg_sub_reg_flag [OF sz]
    by (simp add: x_of_def y_of_def power_on_registers)
qed

text \<open>
  C4. For every latched opcode (every pair of register indices \<open>x\<close>, \<open>y\<close>) and all register
  contents, subn-reg (\<^verbatim>\<open>OP_8xy7\<close>) first stores \<open>(V[y] - V[x]) mod 256\<close> into \<open>V[x]\<close> and then
  sets register 0xF to 1 if \<open>V[y]\<close>, read from the register file after that store, is greater
  than the new \<open>V[x]\<close>, else to 0; nothing else changes. So for \<open>x \<noteq> y\<close> the flag compares the old
  \<open>V[y]\<close> with the difference, and for \<open>x = y\<close> it is 0.
\<close>

theorem subn_reg_compares_new_vx:
  assumes "sized s"
  shows "OP_8xy7 s =
           s\<lparr>v := ((v s)[x_of s := v s ! y_of s - v s ! x_of s])
                [0xF := (if ((v s)[x_of s := v s ! y_of s - v s ! x_of s]) ! y_of s
                           > ((v s)[x_of s := v s ! y_of s - v s ! x_of s]) ! x_of s
                         then 1 else 0)]\<rparr> \<and>
         unat (((v s)[x_of s := v s ! y_of s - v s ! x_of s]) ! x_of s) =
           (256 + unat (v s ! y_of s) - unat (v s ! x_of s)) mod 256 \<and>
         v (OP_8xy7 s) ! 0xF =
           (if x_of s = y_of s then 0
            else if unat (v s ! y_of s)
                      > (256 + unat (v s ! y_of s) - unat (v s ! x_of s)) mod 256
                 then 1 else 0) \<and>
         (if x_of s = 0xF then True
          else unat (v (OP_8xy7 s) ! x_of s) =
                 (256 + unat (v s ! y_of s) - unat (v s ! x_of s)) mod 256)"
proof -
  have len: "length (v s) = 16"
    using assms by (simp add: sized_def)
  have x: "x_of s < length (v s)"
    using len x_of_less [of s] by simp
  have c1: "OP_8xy7 s =
           s\<lparr>v := ((v s)[x_of s := v s ! y_of s - v s ! x_of s])
                [0xF := (if ((v s)[x_of s := v s ! y_of s - v s ! x_of s]) ! y_of s
                           > ((v s)[x_of s := v s ! y_of s - v s ! x_of s]) ! x_of s
                         then 1 else 0)]\<rparr>"
    by (simp add: OP_8xy7_def Let_def)
  have c2: "unat (((v s)[x_of s := v s ! y_of s - v s ! x_of s]) ! x_of s) =
           (256 + unat (v s ! y_of s) - unat (v s ! x_of s)) mod 256"
    using x by (simp add: unat_diff_u8)
  note c3 = OP_8xy7_flag [OF len]
  have c4: "(if x_of s = 0xF then True
          else unat (v (OP_8xy7 s) ! x_of s) =
                 (256 + unat (v s ! y_of s) - unat (v s ! x_of s)) mod 256)"
    using x len by (simp add: OP_8xy7_def Let_def unat_diff_u8)
  from c1 c2 c3 c4 show ?thesis
    by (intro conjI)
qed

theorem subn_reg_compares_new_vx_witness:
  "sized (power_on\<lparr>opcode := 0x8127, v := (v power_on)[1 := 0x00, 2 := 0x03]\<rparr>) \<and>
   v (OP_8xy7 (power_on\<lparr>opcode := 0x8127, v := (v power_on)[1 := 0x00, 2 := 0x03]\<rparr>)) ! 1 = 3 \<and>
   v (OP_8xy7 (power_on\<lparr>opcode := 0x8127, v := (v power_on)[1 := 0x00, 2 := 0x03]\<rparr>)) ! 0xF = 0"
proof -
  have sz: "sized (power_on\<lparr>opcode := 0x8127, v := (v power_on)[1 := 0x00, 2 := 0x03]\<rparr>)"
    using power_on_sized by (simp add: sized_def)
  show ?thesis
    using sz subn_reg_compares_new_vx [OF sz]
    by (simp add: x_of_def y_of_def power_on_registers)
qed

text \<open>
  C10. When the destination index \<open>x\<close> of a flag-producing handler (add-reg, sub-reg, shr,
  subn-reg, shl) is 0xF, the value left in register 0xF is the flag (carry, no-borrow, the
  bit shifted out, the subn comparison), a value 0 or 1, and not the arithmetic result:
  the store of the flag follows the store of the result.
\<close>

theorem flag_overwrites_result_when_x_is_F:
  assumes "sized s" and "x_of s = 0xF"
  shows "v (OP_8xy4 s) ! 0xF =
           (if unat (v s ! 0xF) + unat (v s ! y_of s) > 255 then 1 else 0) \<and>
         v (OP_8xy5 s) ! 0xF =
           (if unat (v s ! 0xF) \<ge> unat (v s ! y_of s) then 1 else 0) \<and>
         v (OP_8xy6 s) ! 0xF = v s ! 0xF AND 0x01 \<and>
         unat (v (OP_8xy6 s) ! 0xF) \<le> 1 \<and>
         v (OP_8xy7 s) ! 0xF =
           (if y_of s = 0xF then 0
            else if unat (v s ! y_of s) > (256 + unat (v s ! y_of s) - unat (v s ! 0xF)) mod 256
                 then 1 else 0) \<and>
         v (OP_8xyE s) ! 0xF = drop_bit 7 (v s ! 0xF AND 0x80) \<and>
         unat (v (OP_8xyE s) ! 0xF) \<le> 1"
proof -
  have len: "length (v s) = 16"
    using assms(1) by (simp add: sized_def)
  have add: "v (OP_8xy4 s) ! 0xF =
      (if unat (v s ! 0xF) + unat (v s ! y_of s) > 255 then 1 else 0)"
    using OP_8xy4_flag [OF len] assms(2) by simp
  have sub: "v (OP_8xy5 s) ! 0xF =
      (if unat (v s ! 0xF) \<ge> unat (v s ! y_of s) then 1 else 0)"
    using OP_8xy5_flag [OF len] assms(2) by simp
  have shr: "v (OP_8xy6 s) ! 0xF = v s ! 0xF AND 0x01"
    using OP_8xy6_flag [OF len] assms(2) by simp
  have shr1: "unat (v (OP_8xy6 s) ! 0xF) \<le> 1"
    unfolding shr by (rule lsb_le_1)
  have subn: "v (OP_8xy7 s) ! 0xF =
      (if y_of s = 0xF then 0
       else if unat (v s ! y_of s) > (256 + unat (v s ! y_of s) - unat (v s ! 0xF)) mod 256
            then 1 else 0)"
    using OP_8xy7_flag [OF len] assms(2) by (simp add: eq_commute)
  have shl: "v (OP_8xyE s) ! 0xF = drop_bit 7 (v s ! 0xF AND 0x80)"
    using OP_8xyE_flag [OF len] assms(2) by simp
  have shl1: "unat (v (OP_8xyE s) ! 0xF) \<le> 1"
    unfolding shl by (rule msb_le_1)
  from add sub shr shr1 subn shl shl1 show ?thesis
    by (intro conjI)
qed

theorem flag_overwrites_result_when_x_is_F_witness:
  "sized (power_on\<lparr>opcode := 0x8F14, v := (v power_on)[1 := 0x90, 0xF := 0x81]\<rparr>) \<and>
   x_of (power_on\<lparr>opcode := 0x8F14, v := (v power_on)[1 := 0x90, 0xF := 0x81]\<rparr>) = 0xF \<and>
   v (OP_8xy4 (power_on\<lparr>opcode := 0x8F14, v := (v power_on)[1 := 0x90, 0xF := 0x81]\<rparr>)) ! 0xF = 1 \<and>
   v (OP_8xy5 (power_on\<lparr>opcode := 0x8F14, v := (v power_on)[1 := 0x90, 0xF := 0x81]\<rparr>)) ! 0xF = 0 \<and>
   v (OP_8xy6 (power_on\<lparr>opcode := 0x8F14, v := (v power_on)[1 := 0x90, 0xF := 0x81]\<rparr>)) ! 0xF = 1 \<and>
   v (OP_8xy7 (power_on\<lparr>opcode := 0x8F14, v := (v power_on)[1 := 0x90, 0xF := 0x81]\<rparr>)) ! 0xF = 1 \<and>
   v (OP_8xyE (power_on\<lparr>opcode := 0x8F14, v := (v power_on)[1 := 0x90, 0xF := 0x81]\<rparr>)) ! 0xF = 1"
proof -
  have sz: "sized (power_on\<lparr>opcode := 0x8F14, v := (v power_on)[1 := 0x90, 0xF := 0x81]\<rparr>)"
    using power_on_sized by (simp add: sized_def)
  have x: "x_of (power_on\<lparr>opcode := 0x8F14, v := (v power_on)[1 := 0x90, 0xF := 0x81]\<rparr>) = 0xF"
    by (simp add: x_of_def)
  show ?thesis
    using sz x flag_overwrites_result_when_x_is_F [OF sz x]
    by (simp add: x_of_def y_of_def power_on_registers)
qed

section \<open>Subroutine calls\<close>

text \<open>
  C7. In every state with \<open>stack_pointer = 15\<close>, call (\<^verbatim>\<open>OP_2nnn\<close>) stores the current program
  counter in stack slot 15, sets the stack pointer to 16 and the program counter to the
  target address \<^verbatim>\<open>opcode & 0x0FFF\<close>; return (\<^verbatim>\<open>OP_00EE\<close>) run on that state sets the stack
  pointer back to 15 and the program counter to the value the call saved. Neither faults.
\<close>

theorem call_at_stack_pointer_15_then_return:
  assumes "sized s" and "sp s = 15"
  shows "OP_2nnn s =
           Inr (s\<lparr>stack := (stack s)[15 := pc s], sp := 16, pc := opcode s AND 0x0FFF\<rparr>) \<and>
         (stack s)[15 := pc s] ! 15 = pc s \<and>
         OP_00EE (s\<lparr>stack := (stack s)[15 := pc s], sp := 16, pc := opcode s AND 0x0FFF\<rparr>) =
           Inr (s\<lparr>stack := (stack s)[15 := pc s], sp := 15, pc := pc s\<rparr>)"
proof -
  have len: "length (stack s) = 16"
    using assms(1) by (simp add: sized_def)
  have call: "OP_2nnn s =
      Inr (s\<lparr>stack := (stack s)[15 := pc s], sp := 16, pc := opcode s AND 0x0FFF\<rparr>)"
    using len assms(2) by (simp add: OP_2nnn_def Let_def wr_def address_of_def)
  have slot: "(stack s)[15 := pc s] ! 15 = pc s"
    using len by simp
  have ret: "OP_00EE (s\<lparr>stack := (stack s)[15 := pc s], sp := 16, pc := opcode s AND 0x0FFF\<rparr>) =
      Inr (s\<lparr>stack := (stack s)[15 := pc s], sp := 15, pc := pc s\<rparr>)"
    using len by (simp add: OP_00EE_def Let_def rd_def)
  from call slot ret show ?thesis
    by (intro conjI)
qed

theorem call_at_stack_pointer_15_then_return_witness:
  "sized (power_on\<lparr>opcode := 0x2ABC, sp := 15, pc := 0x0234\<rparr>) \<and>
   sp (power_on\<lparr>opcode := 0x2ABC, sp := 15, pc := 0x0234\<rparr>) = 15 \<and>
   and_then (OP_2nnn (power_on\<lparr>opcode := 0x2ABC, sp := 15, pc := 0x0234\<rparr>)) OP_00EE =
     Inr (power_on\<lparr>opcode := 0x2ABC, sp := 15, pc := 0x0234,
            stack := (stack power_on)[15 := 0x0234]\<rparr>)"
proof -
  have sz: "sized (power_on\<lparr>opcode := 0x2ABC, sp := 15, pc := 0x0234\<rparr>)"
    using power_on_sized by (simp add: sized_def)
  have sp: "sp (power_on\<lparr>opcode := 0x2ABC, sp := 15, pc := 0x0234\<rparr>) = 15"
    by simp
  show ?thesis
    using sz call_at_stack_pointer_15_then_return [OF sz sp]
    by simp
qed

section \<open>Register dump and load\<close>

text \<open>
  C6. For every register index \<open>x\<close> (every latched opcode), every index register \<open>I\<close> with
  \<open>I + x\<close> inside memory and every register file: reg-dump (\<^verbatim>\<open>OP_Fx55\<close>) followed by reg-load
  (\<^verbatim>\<open>OP_Fx65\<close>) with the same \<open>x\<close> and \<open>I\<close> leaves registers \<open>V[0]\<close> to \<open>V[x]\<close> with the values they
  had before the dump, both when the load follows at once and when the registers were
  overwritten with arbitrary contents \<open>vs\<close> in between.
\<close>

theorem reg_dump_then_reg_load_restores:
  assumes "sized s" and "unat (i s) + x_of s < MEMORY_SIZE" and "length vs = 16"
  shows "\<exists>s1. OP_Fx55 s = Inr s1 \<and>
           (\<exists>s2. OP_Fx65 s1 = Inr s2 \<and> (\<forall>k \<le> x_of s. v s2 ! k = v s ! k)) \<and>
           (\<exists>s2. OP_Fx65 (s1\<lparr>v := vs\<rparr>) = Inr s2 \<and> (\<forall>k \<le> x_of s. v s2 ! k = v s ! k))"
proof -
  have lens: "length (memory s) = MEMORY_SIZE" "length (v s) = 16"
    using assms(1) by (simp_all add: sized_def)
  have inb: "unat (i s) + x_of s < length (memory s)"
    using assms(2) lens(1) by simp
  obtain m where m: "OP_Fx55 s = Inr (s\<lparr>memory := m\<rparr>)" "length m = length (memory s)"
    "\<forall>a < length m. m ! a =
        (if unat (i s) \<le> a \<and> a \<le> unat (i s) + x_of s then v s ! (a - unat (i s))
         else memory s ! a)"
    using OP_Fx55_ok [OF inb] by blast
  have cell: "m ! (unat (i s) + k) = v s ! k" if "k \<le> x_of s" for k
    using m(2,3) inb that by simp
  have restore: "\<exists>s2. OP_Fx65 (s\<lparr>memory := m, v := ws\<rparr>) = Inr s2 \<and> (\<forall>k \<le> x_of s. v s2 ! k = v s ! k)"
    if ws: "length ws = 16" for ws
  proof -
    let ?t = "s\<lparr>memory := m, v := ws\<rparr>"
    have x: "x_of ?t = x_of s"
      by (simp add: x_of_def)
    have "length (v ?t) = 16" "unat (i ?t) + x_of ?t < length (memory ?t)"
      using ws inb m(2) x by simp_all
    from OP_Fx65_ok [OF this] obtain us where us: "OP_Fx65 ?t = Inr (?t\<lparr>v := us\<rparr>)"
      "\<forall>k < 16. us ! k = (if k \<le> x_of ?t then memory ?t ! (unat (i ?t) + k) else v ?t ! k)"
      by blast
    have "v (?t\<lparr>v := us\<rparr>) ! k = v s ! k" if "k \<le> x_of s" for k
    proof -
      have "k < 16"
        using that x_of_less [of s] by simp
      then show ?thesis
        using us(2) that x cell [OF that] by simp
    qed
    with us(1) show ?thesis
      by blast
  qed
  have "s\<lparr>memory := m\<rparr> = s\<lparr>memory := m, v := v s\<rparr>"
    by simp
  then have a: "\<exists>s2. OP_Fx65 (s\<lparr>memory := m\<rparr>) = Inr s2 \<and> (\<forall>k \<le> x_of s. v s2 ! k = v s ! k)"
    using restore [OF lens(2)] by simp
  have b: "\<exists>s2. OP_Fx65 (s\<lparr>memory := m\<rparr>\<lparr>v := vs\<rparr>) = Inr s2 \<and> (\<forall>k \<le> x_of s. v s2 ! k = v s ! k)"
    using restore [OF assms(3)] by simp
  from m(1) a b show ?thesis
    by blast
qed

theorem reg_dump_then_reg_load_restores_witness:
  "sized (power_on\<lparr>opcode := 0xF155, i := 0x300, v := (v power_on)[0 := 7, 1 := 9]\<rparr>) \<and>
   unat (i (power_on\<lparr>opcode := 0xF155, i := 0x300, v := (v power_on)[0 := 7, 1 := 9]\<rparr>))
     + x_of (power_on\<lparr>opcode := 0xF155, i := 0x300, v := (v power_on)[0 := 7, 1 := 9]\<rparr>)
     < MEMORY_SIZE \<and>
   length (replicate 16 (0xAA :: u8)) = 16 \<and>
   (\<exists>s1. OP_Fx55 (power_on\<lparr>opcode := 0xF155, i := 0x300, v := (v power_on)[0 := 7, 1 := 9]\<rparr>)
            = Inr s1 \<and>
      (\<exists>s2. OP_Fx65 s1 = Inr s2 \<and> v s2 ! 0 = 7 \<and> v s2 ! 1 = 9) \<and>
      (\<exists>s2. OP_Fx65 (s1\<lparr>v := replicate 16 0xAA\<rparr>) = Inr s2 \<and> v s2 ! 0 = 7 \<and> v s2 ! 1 = 9))"
proof -
  let ?st = "power_on\<lparr>opcode := 0xF155, i := 0x300, v := (v power_on)[0 := 7, 1 := 9]\<rparr>"
  have sz: "sized ?st"
    using power_on_sized by (simp add: sized_def)
  have x: "x_of ?st = 1"
    by (simp add: x_of_def)
  have inb: "unat (i ?st) + x_of ?st < MEMORY_SIZE"
    unfolding x by simp
  have len: "length (replicate 16 (0xAA :: u8)) = 16"
    by simp
  have regs: "v ?st ! 0 = 7" "v ?st ! 1 = 9"
    by (simp_all add: power_on_registers)
  obtain s1 where s1: "OP_Fx55 ?st = Inr s1"
    and a: "\<exists>s2. OP_Fx65 s1 = Inr s2 \<and> (\<forall>k \<le> x_of ?st. v s2 ! k = v ?st ! k)"
    and b: "\<exists>s2. OP_Fx65 (s1\<lparr>v := replicate 16 0xAA\<rparr>) = Inr s2 \<and>
              (\<forall>k \<le> x_of ?st. v s2 ! k = v ?st ! k)"
    using reg_dump_then_reg_load_restores [OF sz inb len] by blast
  from a obtain s2 where s2: "OP_Fx65 s1 = Inr s2" "\<forall>k \<le> x_of ?st. v s2 ! k = v ?st ! k"
    by blast
  have a': "\<exists>s2. OP_Fx65 s1 = Inr s2 \<and> v s2 ! 0 = 7 \<and> v s2 ! 1 = 9"
  proof (intro exI conjI)
    show "OP_Fx65 s1 = Inr s2"
      by (rule s2(1))
    show "v s2 ! 0 = 7"
      using s2(2) [rule_format, of 0] regs(1) by (simp only: x)
    show "v s2 ! 1 = 9"
      using s2(2) [rule_format, of 1] regs(2) by (simp only: x)
  qed
  from b obtain s3 where s3: "OP_Fx65 (s1\<lparr>v := replicate 16 0xAA\<rparr>) = Inr s3"
      "\<forall>k \<le> x_of ?st. v s3 ! k = v ?st ! k"
    by blast
  have b': "\<exists>s2. OP_Fx65 (s1\<lparr>v := replicate 16 0xAA\<rparr>) = Inr s2 \<and> v s2 ! 0 = 7 \<and> v s2 ! 1 = 9"
  proof (intro exI conjI)
    show "OP_Fx65 (s1\<lparr>v := replicate 16 0xAA\<rparr>) = Inr s3"
      by (rule s3(1))
    show "v s3 ! 0 = 7"
      using s3(2) [rule_format, of 0] regs(1) by (simp only: x)
    show "v s3 ! 1 = 9"
      using s3(2) [rule_format, of 1] regs(2) by (simp only: x)
  qed
  from s1 a' b' have "\<exists>s1. OP_Fx55 ?st = Inr s1 \<and>
      (\<exists>s2. OP_Fx65 s1 = Inr s2 \<and> v s2 ! 0 = 7 \<and> v s2 ! 1 = 9) \<and>
      (\<exists>s2. OP_Fx65 (s1\<lparr>v := replicate 16 0xAA\<rparr>) = Inr s2 \<and> v s2 ! 0 = 7 \<and> v s2 ! 1 = 9)"
    by blast
  with sz inb len show ?thesis
    by blast
qed

section \<open>Dispatch through the installed tables\<close>

lemma low_nibble_less: "unat ((w :: u16) AND 0x000F) < 16"
proof -
  have "unat (w AND 0xF) \<le> unat (0xF :: u16)"
    by (rule word_and_le1 [THEN word_le_nat_alt [THEN iffD1]])
  then show ?thesis by simp
qed

lemma low_byte_less: "unat ((w :: u16) AND 0x00FF) < 256"
proof -
  have "unat (w AND 0xFF) \<le> unat (0xFF :: u16)"
    by (rule word_and_le1 [THEN word_le_nat_alt [THEN iffD1]])
  then show ?thesis by simp
qed

text \<open>What the fetch changes: the latched opcode and the program counter.\<close>

lemma Cycle_fetch_frame:
  assumes "Cycle_fetch s = Inr s1"
  shows "s1 = s\<lparr>opcode := opcode s1, pc := pc s + 2\<rparr>"
  using assms by (auto simp: Cycle_fetch_def rd_def split: if_splits)

lemma installed_after_fetch:
  assumes "installed s" and "Cycle_fetch s = Inr s1"
  shows "installed s1"
proof -
  have eq: "s1 = s\<lparr>opcode := opcode s1, pc := pc s + 2\<rparr>"
    using assms(2) by (rule Cycle_fetch_frame)
  have "installed (s\<lparr>opcode := w, pc := p\<rparr>)" for w p
    using assms(1) Chip8_Create_tables_fixed [of "s\<lparr>opcode := w, pc := p\<rparr>" s]
    by (simp add: installed_def)
  then show ?thesis
    by (subst eq)
qed

lemma installed_tables:
  assumes "installed s"
  shows "dispatcher s =
     [P_dispatcher0, P_dispatcher1, P_dispatcher2, P_dispatcher3, P_dispatcher4,
      P_dispatcher5, P_dispatcher6, P_dispatcher7, P_dispatcher8, P_dispatcher9,
      P_dispatcherA, P_dispatcherB, P_dispatcherC, P_dispatcherD, P_dispatcherE,
      P_dispatcherF]"
  "table0 s = (replicate 16 P_OP_0nnn)[0x0 := P_OP_00E0, 0xE := P_OP_00EE]"
  "table8 s = (replicate 16 P_OP_0nnn)
     [0x0 := P_OP_8xy0, 0x1 := P_OP_8xy1, 0x2 := P_OP_8xy2, 0x3 := P_OP_8xy3,
      0x4 := P_OP_8xy4, 0x5 := P_OP_8xy5, 0x6 := P_OP_8xy6, 0x7 := P_OP_8xy7,
      0xE := P_OP_8xyE]"
  "tableE s = (replicate 16 P_OP_0nnn)[0xE := P_OP_Ex9E, 0x1 := P_OP_ExA1]"
  "tableF s = (replicate 256 P_OP_0nnn)
     [0x07 := P_OP_Fx07, 0x0A := P_OP_Fx0A, 0x15 := P_OP_Fx15, 0x18 := P_OP_Fx18,
      0x1E := P_OP_Fx1E, 0x29 := P_OP_Fx29, 0x33 := P_OP_Fx33, 0x55 := P_OP_Fx55,
      0x65 := P_OP_Fx65]"
  using assms Chip8_Create_tables [of s] by (simp_all only: installed_def)

text \<open>An entry of a table that no assignment touched still holds \<^verbatim>\<open>OP_0nnn\<close>, which does
  nothing.\<close>

lemma dispatch_0_noop:
  assumes "installed s" and "unat (drop_bit 12 (opcode s AND 0xF000)) = 0x0"
    and "unat (opcode s AND 0x000F) \<notin> {0x0, 0xE}"
  shows "Cycle_dispatch s = Inr s"
  using assms(2,3) low_nibble_less [of "opcode s"]
  by (simp add: Cycle_dispatch_def Let_def rd_def installed_tables [OF assms(1)]
      dispatcher0_def call_entry_def OP_0nnn_def)

lemma dispatch_8_noop:
  assumes "installed s" and "unat (drop_bit 12 (opcode s AND 0xF000)) = 0x8"
    and "unat (opcode s AND 0x000F) \<in> {0x8, 0x9, 0xA, 0xB, 0xC, 0xD, 0xF}"
  shows "Cycle_dispatch s = Inr s"
  using assms(2,3)
  by (auto simp: Cycle_dispatch_def Let_def rd_def installed_tables [OF assms(1)]
      dispatcher8_def call_entry_def OP_0nnn_def)

lemma dispatch_E_noop:
  assumes "installed s" and "unat (drop_bit 12 (opcode s AND 0xF000)) = 0xE"
    and "unat (opcode s AND 0x000F) \<notin> {0x1, 0xE}"
  shows "Cycle_dispatch s = Inr s"
  using assms(2,3) low_nibble_less [of "opcode s"]
  by (simp add: Cycle_dispatch_def Let_def rd_def installed_tables [OF assms(1)]
      dispatcherE_def call_entry_def OP_0nnn_def)

lemma dispatch_F_noop:
  assumes "installed s" and "unat (drop_bit 12 (opcode s AND 0xF000)) = 0xF"
    and "unat (opcode s AND 0x00FF) \<notin> {0x07, 0x0A, 0x15, 0x18, 0x1E, 0x29, 0x33, 0x55, 0x65}"
  shows "Cycle_dispatch s = Inr s"
  using assms(2,3) low_byte_less [of "opcode s"]
  by (simp add: Cycle_dispatch_def Let_def rd_def installed_tables [OF assms(1)]
      dispatcherF_def call_entry_def OP_0nnn_def)

text \<open>
  C9. For every fetched opcode whose sub-index has no assigned handler (the four cases of
  \<open>no_assigned_handler\<close>), in a state with the tables that \<^verbatim>\<open>Chip8_Create\<close> installs, the
  dispatch calls \<^verbatim>\<open>OP_0nnn\<close>: the state after the dispatch is the state right after the fetch,
  no fault is raised, and the cycle ends with the timer update of that state.
\<close>

theorem opcode_without_handler_is_noop:
  assumes "installed s0" and "Cycle_fetch s0 = Inr s" and "no_assigned_handler (opcode s)"
  shows "Cycle_dispatch s = Inr s \<and> Chip8_Cycle s0 = Inr (Cycle_timers s)"
proof -
  have inst: "installed s"
    using assms(1,2) by (rule installed_after_fetch)
  have noop: "Cycle_dispatch s = Inr s"
    using assms(3) dispatch_0_noop [OF inst] dispatch_8_noop [OF inst]
      dispatch_E_noop [OF inst] dispatch_F_noop [OF inst]
    unfolding no_assigned_handler_def Let_def by blast
  then have "Chip8_Cycle s0 = Inr (Cycle_timers s)"
    by (simp add: Chip8_Cycle_def assms(2))
  with noop show ?thesis ..
qed

theorem opcode_without_handler_is_noop_witness:
  "installed (power_on\<lparr>memory := (memory power_on)[0x200 := 0x81, 0x201 := 0x28]\<rparr>) \<and>
   Cycle_fetch (power_on\<lparr>memory := (memory power_on)[0x200 := 0x81, 0x201 := 0x28]\<rparr>) =
     Inr (power_on\<lparr>memory := (memory power_on)[0x200 := 0x81, 0x201 := 0x28],
            opcode := 0x8128, pc := 0x202\<rparr>) \<and>
   no_assigned_handler 0x8128 \<and>
   Cycle_dispatch (power_on\<lparr>memory := (memory power_on)[0x200 := 0x81, 0x201 := 0x28],
            opcode := 0x8128, pc := 0x202\<rparr>) =
     Inr (power_on\<lparr>memory := (memory power_on)[0x200 := 0x81, 0x201 := 0x28],
            opcode := 0x8128, pc := 0x202\<rparr>) \<and>
   Chip8_Cycle (power_on\<lparr>memory := (memory power_on)[0x200 := 0x81, 0x201 := 0x28]\<rparr>) =
     Inr (power_on\<lparr>memory := (memory power_on)[0x200 := 0x81, 0x201 := 0x28],
            opcode := 0x8128, pc := 0x202\<rparr>)"
proof -
  let ?st = "power_on\<lparr>memory := (memory power_on)[0x200 := 0x81, 0x201 := 0x28]\<rparr>"
  let ?st1 = "power_on\<lparr>memory := (memory power_on)[0x200 := 0x81, 0x201 := 0x28],
            opcode := 0x8128, pc := 0x202\<rparr>"
  have len: "length (memory power_on) = MEMORY_SIZE"
    using power_on_sized by (simp add: sized_def)
  have inst: "installed ?st"
    using power_on_installed Chip8_Create_tables_fixed [of ?st power_on]
    by (simp add: installed_def)
  have fetch: "Cycle_fetch ?st = Inr ?st1"
    using len by (simp add: Cycle_fetch_def rd_def power_on_registers)
  have un: "no_assigned_handler (opcode ?st1)"
    by (simp add: no_assigned_handler_def)
  have timers: "Cycle_timers ?st1 = ?st1"
    by (simp add: Cycle_timers_def power_on_registers)
  show ?thesis
    using inst fetch un opcode_without_handler_is_noop [OF inst fetch un]
    by (simp add: timers)
qed

text \<open>The key scan of \<^verbatim>\<open>OP_Fx0A\<close>: the first branch whose key flag is set decides.\<close>

lemma OP_Fx0A_pressed:
  assumes "k < 16" and "key s ! k \<noteq> 0" and "\<forall>j<k. key s ! j = 0"
  shows "OP_Fx0A s = s\<lparr>v := (v s)[x_of s := of_nat k]\<rparr>"
proof -
  have "k = 0 \<or> k = 1 \<or> k = 2 \<or> k = 3 \<or> k = 4 \<or> k = 5 \<or> k = 6 \<or> k = 7 \<or>
        k = 8 \<or> k = 9 \<or> k = 10 \<or> k = 11 \<or> k = 12 \<or> k = 13 \<or> k = 14 \<or> k = 15"
    using assms(1) by arith
  moreover have z: "key s ! j = 0" if "j < k" for j
    using assms(3) that by simp
  ultimately show ?thesis
    using assms(2) by (elim disjE) (simp_all add: OP_Fx0A_def Let_def)
qed

lemma OP_Fx0A_none:
  assumes "\<forall>j<16. key s ! j = 0"
  shows "OP_Fx0A s = s\<lparr>pc := pc s - 2\<rparr>"
  using assms by (simp add: OP_Fx0A_def Let_def)

lemma dispatch_Fx0A:
  assumes "installed s" and "unat (drop_bit 12 (opcode s AND 0xF000)) = 0xF"
    and "unat (opcode s AND 0x00FF) = 0x0A"
  shows "Cycle_dispatch s = Inr (OP_Fx0A s)"
  using assms(2,3)
  by (simp add: Cycle_dispatch_def Let_def rd_def installed_tables [OF assms(1)]
      dispatcherF_def call_entry_def)

lemma Cycle_timers_frame [simp]:
  "pc (Cycle_timers s) = pc s" "v (Cycle_timers s) = v s"
  by (simp_all add: Cycle_timers_def Let_def)

text \<open>
  C8. In every state whose fetched instruction is wait-key (top nibble 0xF, low byte 0x0A,
  any \<open>x\<close>), with the installed tables: if key \<open>k\<close> is the lowest-numbered key whose flag is set,
  the cycle stores \<open>k\<close> in \<open>V[x]\<close> and leaves the program counter 2 above its value before the
  cycle; if none of the 16 flags is set, the cycle leaves the registers and the program
  counter as they were before the cycle, so the same instruction is fetched again.
\<close>

theorem wait_key_cycle:
  assumes "sized s" and "installed s" and "Cycle_fetch s = Inr s1"
    and "unat (drop_bit 12 (opcode s1 AND 0xF000)) = 0xF"
    and "unat (opcode s1 AND 0x00FF) = 0x0A"
  shows "(\<forall>k<16. key s ! k \<noteq> 0 \<and> (\<forall>j<k. key s ! j = 0) \<longrightarrow>
            (\<exists>s'. Chip8_Cycle s = Inr s' \<and> v s' = (v s)[x_of s1 := of_nat k] \<and>
                  v s' ! x_of s1 = of_nat k \<and> pc s' = pc s + 2 \<and>
                  unat (pc s') = unat (pc s) + 2)) \<and>
         ((\<forall>j<16. key s ! j = 0) \<longrightarrow>
            (\<exists>s'. Chip8_Cycle s = Inr s' \<and> v s' = v s \<and> pc s' = pc s))"
proof -
  have eq: "s1 = s\<lparr>opcode := opcode s1, pc := pc s + 2\<rparr>"
    using assms(3) by (rule Cycle_fetch_frame)
  have same: "key s1 = key s" "v s1 = v s" "pc s1 = pc s + 2"
    by (subst eq, simp)+
  have inst: "installed s1"
    using assms(2,3) by (rule installed_after_fetch)
  have run: "Chip8_Cycle s = Inr (Cycle_timers (OP_Fx0A s1))"
    using dispatch_Fx0A [OF inst assms(4,5)] by (simp add: Chip8_Cycle_def assms(3))
  have lenv: "length (v s) = 16" and lenm: "length (memory s) = MEMORY_SIZE"
    using assms(1) by (simp_all add: sized_def)
  have "unat (pc s) + 1 < length (memory s)"
    using assms(3) by (auto simp: Cycle_fetch_def rd_def split: if_splits)
  then have nowrap: "unat (pc s + 2) = unat (pc s) + 2"
    using lenm by (simp add: unat_word_ariths)
  have pressed: "\<exists>s'. Chip8_Cycle s = Inr s' \<and> v s' = (v s)[x_of s1 := of_nat k] \<and>
                  v s' ! x_of s1 = of_nat k \<and> pc s' = pc s + 2 \<and>
                  unat (pc s') = unat (pc s) + 2"
    if "k < 16" "key s ! k \<noteq> 0" "\<forall>j<k. key s ! j = 0" for k
  proof -
    have "OP_Fx0A s1 = s1\<lparr>v := (v s1)[x_of s1 := of_nat k]\<rparr>"
      using that by (intro OP_Fx0A_pressed) (simp_all add: same)
    then show ?thesis
      using run lenv x_of_less [of s1] nowrap by (simp add: same)
  qed
  have none: "\<exists>s'. Chip8_Cycle s = Inr s' \<and> v s' = v s \<and> pc s' = pc s"
    if "\<forall>j<16. key s ! j = 0"
  proof -
    have "OP_Fx0A s1 = s1\<lparr>pc := pc s1 - 2\<rparr>"
      using that by (intro OP_Fx0A_none) (simp add: same)
    then show ?thesis
      using run by (simp add: same)
  qed
  from pressed none show ?thesis
    by blast
qed

theorem wait_key_cycle_witness:
  "sized (power_on\<lparr>memory := (memory power_on)[0x200 := 0xF3, 0x201 := 0x0A],
                    key := (key power_on)[5 := 1, 9 := 1]\<rparr>) \<and>
   installed (power_on\<lparr>memory := (memory power_on)[0x200 := 0xF3, 0x201 := 0x0A],
                    key := (key power_on)[5 := 1, 9 := 1]\<rparr>) \<and>
   Cycle_fetch (power_on\<lparr>memory := (memory power_on)[0x200 := 0xF3, 0x201 := 0x0A],
                    key := (key power_on)[5 := 1, 9 := 1]\<rparr>) =
     Inr (power_on\<lparr>memory := (memory power_on)[0x200 := 0xF3, 0x201 := 0x0A],
                    key := (key power_on)[5 := 1, 9 := 1], opcode := 0xF30A, pc := 0x202\<rparr>) \<and>
   unat (drop_bit 12 ((0xF30A :: u16) AND 0xF000)) = 0xF \<and>
   unat ((0xF30A :: u16) AND 0x00FF) = 0x0A \<and>
   (\<exists>s'. Chip8_Cycle (power_on\<lparr>memory := (memory power_on)[0x200 := 0xF3, 0x201 := 0x0A],
                    key := (key power_on)[5 := 1, 9 := 1]\<rparr>) = Inr s' \<and>
         v s' ! 3 = 5 \<and> pc s' = 0x202) \<and>
   sized (power_on\<lparr>memory := (memory power_on)[0x200 := 0xF3, 0x201 := 0x0A]\<rparr>) \<and>
   installed (power_on\<lparr>memory := (memory power_on)[0x200 := 0xF3, 0x201 := 0x0A]\<rparr>) \<and>
   Cycle_fetch (power_on\<lparr>memory := (memory power_on)[0x200 := 0xF3, 0x201 := 0x0A]\<rparr>) =
     Inr (power_on\<lparr>memory := (memory power_on)[0x200 := 0xF3, 0x201 := 0x0A],
                    opcode := 0xF30A, pc := 0x202\<rparr>) \<and>
   (\<exists>s'. Chip8_Cycle (power_on\<lparr>memory := (memory power_on)[0x200 := 0xF3, 0x201 := 0x0A]\<rparr>)
           = Inr s' \<and> v s' = replicate 16 0 \<and> pc s' = 0x200)"
proof -
  let ?A = "power_on\<lparr>memory := (memory power_on)[0x200 := 0xF3, 0x201 := 0x0A],
                    key := (key power_on)[5 := 1, 9 := 1]\<rparr>"
  let ?A1 = "power_on\<lparr>memory := (memory power_on)[0x200 := 0xF3, 0x201 := 0x0A],
                    key := (key power_on)[5 := 1, 9 := 1], opcode := 0xF30A, pc := 0x202\<rparr>"
  let ?B = "power_on\<lparr>memory := (memory power_on)[0x200 := 0xF3, 0x201 := 0x0A]\<rparr>"
  let ?B1 = "power_on\<lparr>memory := (memory power_on)[0x200 := 0xF3, 0x201 := 0x0A],
                    opcode := 0xF30A, pc := 0x202\<rparr>"
  have len: "length (memory power_on) = MEMORY_SIZE"
    using power_on_sized by (simp add: sized_def)
  have szA: "sized ?A" and szB: "sized ?B"
    using power_on_sized by (simp_all add: sized_def)
  have instA: "installed ?A"
    using power_on_installed Chip8_Create_tables_fixed [of ?A power_on]
    by (simp add: installed_def)
  have instB: "installed ?B"
    using power_on_installed Chip8_Create_tables_fixed [of ?B power_on]
    by (simp add: installed_def)
  have fetchA: "Cycle_fetch ?A = Inr ?A1"
    using len by (simp add: Cycle_fetch_def rd_def power_on_registers)
  have fetchB: "Cycle_fetch ?B = Inr ?B1"
    using len by (simp add: Cycle_fetch_def rd_def power_on_registers)
  have top: "unat (drop_bit 12 ((0xF30A :: u16) AND 0xF000)) = 0xF"
    and low: "unat ((0xF30A :: u16) AND 0x00FF) = 0x0A"
    by simp_all
  have topA: "unat (drop_bit 12 (opcode ?A1 AND 0xF000)) = 0xF"
    and lowA: "unat (opcode ?A1 AND 0x00FF) = 0x0A"
    and topB: "unat (drop_bit 12 (opcode ?B1 AND 0xF000)) = 0xF"
    and lowB: "unat (opcode ?B1 AND 0x00FF) = 0x0A"
    by simp_all
  have xA: "x_of ?A1 = 3"
    by (simp add: x_of_def)
  have keyA: "key ?A ! 5 \<noteq> 0 \<and> (\<forall>j<5. key ?A ! j = 0)"
    by (auto simp: power_on_registers nth_list_update)
  have keyB: "\<forall>j<16. key ?B ! j = 0"
    by (simp add: power_on_registers)
  have "\<exists>s'. Chip8_Cycle ?A = Inr s' \<and> v s' = (v ?A)[x_of ?A1 := of_nat 5] \<and>
                  v s' ! x_of ?A1 = of_nat 5 \<and> pc s' = pc ?A + 2 \<and>
                  unat (pc s') = unat (pc ?A) + 2"
  proof (rule wait_key_cycle [OF szA instA fetchA topA lowA, THEN conjunct1, THEN spec, THEN mp, THEN mp])
    show "(5 :: nat) < 16"
      by simp
    show "key ?A ! 5 \<noteq> 0 \<and> (\<forall>j<5. key ?A ! j = 0)"
      by (rule keyA)
  qed
  then have a: "\<exists>s'. Chip8_Cycle ?A = Inr s' \<and> v s' ! 3 = 5 \<and> pc s' = 0x202"
    unfolding xA by (auto simp: power_on_registers)
  have "\<exists>s'. Chip8_Cycle ?B = Inr s' \<and> v s' = v ?B \<and> pc s' = pc ?B"
    using keyB by (rule wait_key_cycle [OF szB instB fetchB topB lowB, THEN conjunct2, THEN mp])
  then have b: "\<exists>s'. Chip8_Cycle ?B = Inr s' \<and> v s' = replicate 16 0 \<and> pc s' = 0x200"
    by (simp add: power_on_registers)
  from szA instA fetchA top low a szB instB fetchB b show ?thesis
    by (intro conjI)
qed

section \<open>Drawing a sprite\<close>

text \<open>
  C3, as the code has it. On an all-unlit framebuffer, with the index register at a sprite
  byte \<^verbatim>\<open>0xF0\<close>, a draw of height 1 at position (0,0) lights the four leftmost cells of row 0
  and leaves register 0xF at 0; the same draw again returns the four cells to unlit and
  leaves register 0xF at 1, because each of the four toggles met a lit cell.
\<close>

theorem draw_F0_twice_flags_collision:
  assumes "sized s" and "gfx s = replicate 2048 0"
    and "height_of s = 1" and "unat (i s) < MEMORY_SIZE" and "memory s ! unat (i s) = 0xF0"
    and "x_pos s = 0" and "y_pos s = 0"
  shows "OP_Dxyn s =
           Inr (s\<lparr>v := (v s)[0xF := 0],
                  gfx := (replicate 2048 0)
                    [0 := 0xFFFFFFFF, 1 := 0xFFFFFFFF, 2 := 0xFFFFFFFF, 3 := 0xFFFFFFFF]\<rparr>) \<and>
         (v s)[0xF := 0] ! 0xF = 0 \<and>
         OP_Dxyn (s\<lparr>v := (v s)[0xF := 0],
                    gfx := (replicate 2048 0)
                      [0 := 0xFFFFFFFF, 1 := 0xFFFFFFFF, 2 := 0xFFFFFFFF, 3 := 0xFFFFFFFF]\<rparr>) =
           Inr (s\<lparr>v := (v s)[0xF := 1], gfx := replicate 2048 0\<rparr>) \<and>
         (v s)[0xF := 1] ! 0xF = 1"
proof -
  let ?lit = "(replicate 2048 (0 :: u32))
      [0 := 0xFFFFFFFF, 1 := 0xFFFFFFFF, 2 := 0xFFFFFFFF, 3 := 0xFFFFFFFF]"
  let ?s1 = "s\<lparr>v := (v s)[0xF := 0], gfx := ?lit\<rparr>"
  have len: "length (v s) = 16"
    using assms(1) by (simp add: sized_def)
  have first: "OP_Dxyn s = Inr ?s1"
    using assms by (rule draw_F0_first)
  have sz1: "sized ?s1"
    using assms(1) by (simp add: sized_def)
  have h1: "height_of ?s1 = 1"
    using assms(3) by (simp add: height_of_def)
  have x1: "x_pos ?s1 = 0"
    using assms(6) len by (cases "x_of s = 0xF") (simp_all add: x_pos_def x_of_def)
  have y1: "y_pos ?s1 = 0"
    using assms(7) len by (cases "y_of s = 0xF") (simp_all add: y_pos_def y_of_def)
  have "OP_Dxyn ?s1 = Inr (?s1\<lparr>v := (v ?s1)[0xF := 1], gfx := replicate 2048 0\<rparr>)"
    using sz1 _ h1 _ _ x1 y1 by (rule draw_F0_second) (simp_all add: assms(4,5))
  then have second: "OP_Dxyn ?s1 = Inr (s\<lparr>v := (v s)[0xF := 1], gfx := replicate 2048 0\<rparr>)"
    by simp
  have f0: "(v s)[0xF := 0] ! 0xF = 0" and f1: "(v s)[0xF := 1] ! 0xF = 1"
    using len by simp_all
  from first f0 second f1 show ?thesis
    by (intro conjI)
qed

theorem draw_F0_twice_flags_collision_witness:
  "sized (power_on\<lparr>opcode := 0xD011, i := 0x300, memory := (memory power_on)[0x300 := 0xF0]\<rparr>) \<and>
   gfx (power_on\<lparr>opcode := 0xD011, i := 0x300, memory := (memory power_on)[0x300 := 0xF0]\<rparr>) = replicate 2048 0 \<and>
   height_of (power_on\<lparr>opcode := 0xD011, i := 0x300, memory := (memory power_on)[0x300 := 0xF0]\<rparr>) = 1 \<and>
   unat (i (power_on\<lparr>opcode := 0xD011, i := 0x300, memory := (memory power_on)[0x300 := 0xF0]\<rparr>)) < MEMORY_SIZE \<and>
   memory (power_on\<lparr>opcode := 0xD011, i := 0x300, memory := (memory power_on)[0x300 := 0xF0]\<rparr>) ! unat (i (power_on\<lparr>opcode := 0xD011, i := 0x300, memory := (memory power_on)[0x300 := 0xF0]\<rparr>)) = 0xF0 \<and>
   x_pos (power_on\<lparr>opcode := 0xD011, i := 0x300, memory := (memory power_on)[0x300 := 0xF0]\<rparr>) = 0 \<and>
   y_pos (power_on\<lparr>opcode := 0xD011, i := 0x300, memory := (memory power_on)[0x300 := 0xF0]\<rparr>) = 0 \<and>
   OP_Dxyn (power_on\<lparr>opcode := 0xD011, i := 0x300, memory := (memory power_on)[0x300 := 0xF0]\<rparr>) =
           Inr ((power_on\<lparr>opcode := 0xD011, i := 0x300, memory := (memory power_on)[0x300 := 0xF0]\<rparr>)\<lparr>v := (v (power_on\<lparr>opcode := 0xD011, i := 0x300, memory := (memory power_on)[0x300 := 0xF0]\<rparr>))[0xF := 0],
                  gfx := (replicate 2048 0)
                    [0 := 0xFFFFFFFF, 1 := 0xFFFFFFFF, 2 := 0xFFFFFFFF, 3 := 0xFFFFFFFF]\<rparr>) \<and>
         (v (power_on\<lparr>opcode := 0xD011, i := 0x300, memory := (memory power_on)[0x300 := 0xF0]\<rparr>))[0xF := 0] ! 0xF = 0 \<and>
         OP_Dxyn ((power_on\<lparr>opcode := 0xD011, i := 0x300, memory := (memory power_on)[0x300 := 0xF0]\<rparr>)\<lparr>v := (v (power_on\<lparr>opcode := 0xD011, i := 0x300, memory := (memory power_on)[0x300 := 0xF0]\<rparr>))[0xF := 0],
                    gfx := (replicate 2048 0)
                      [0 := 0xFFFFFFFF, 1 := 0xFFFFFFFF, 2 := 0xFFFFFFFF, 3 := 0xFFFFFFFF]\<rparr>) =
           Inr ((power_on\<lparr>opcode := 0xD011, i := 0x300, memory := (memory power_on)[0x300 := 0xF0]\<rparr>)\<lparr>v := (v (power_on\<lparr>opcode := 0xD011, i := 0x300, memory := (memory power_on)[0x300 := 0xF0]\<rparr>))[0xF := 1], gfx := replicate 2048 0\<rparr>) \<and>
         (v (power_on\<lparr>opcode := 0xD011, i := 0x300, memory := (memory power_on)[0x300 := 0xF0]\<rparr>))[0xF := 1] ! 0xF = 1"
proof -
  let ?st = "power_on\<lparr>opcode := 0xD011, i := 0x300, memory := (memory power_on)[0x300 := 0xF0]\<rparr>"
  have len: "length (memory power_on) = MEMORY_SIZE"
    using power_on_sized by (simp add: sized_def)
  have h1: "sized ?st"
    using power_on_sized by (simp add: sized_def)
  have h2: "gfx ?st = replicate 2048 0"
    by (simp add: power_on_registers)
  have h3: "height_of ?st = 1"
    by (simp add: height_of_def)
  have h4: "unat (i ?st) < MEMORY_SIZE"
    by simp
  have h5: "memory ?st ! unat (i ?st) = 0xF0"
    using len by simp
  have h6: "x_pos ?st = 0"
    by (simp add: x_pos_def x_of_def power_on_registers)
  have h7: "y_pos ?st = 0"
    by (simp add: y_pos_def y_of_def power_on_registers)
  from h1 h2 h3 h4 h5 h6 h7 draw_F0_twice_flags_collision [OF h1 h2 h3 h4 h5 h6 h7]
  show ?thesis
    by (intro conjI) (elim conjE, assumption)+
qed

text \<open>The claim as written has register 0xF still 0 after the second draw. At power-on, with
  the byte \<^verbatim>\<open>0xF0\<close> at 0x300, \<open>I = 0x300\<close> and the opcode \<^verbatim>\<open>0xD011\<close> (registers 0 and 1 are 0),
  two draws in a row end with register 0xF equal to 1.\<close>

theorem second_draw_leaves_flag_1_counterexample:
  "and_then (OP_Dxyn (power_on\<lparr>opcode := 0xD011, i := 0x300,
                                memory := (memory power_on)[0x300 := 0xF0]\<rparr>)) OP_Dxyn =
     Inr (power_on\<lparr>opcode := 0xD011, i := 0x300,
                    memory := (memory power_on)[0x300 := 0xF0],
                    v := (v power_on)[0xF := 1], gfx := replicate 2048 0\<rparr>) \<and>
   (v power_on)[0xF := 1] ! 0xF = 1"
proof -
  let ?st = "power_on\<lparr>opcode := 0xD011, i := 0x300, memory := (memory power_on)[0x300 := 0xF0]\<rparr>"
  let ?lit = "(replicate 2048 (0 :: u32))
      [0 := 0xFFFFFFFF, 1 := 0xFFFFFFFF, 2 := 0xFFFFFFFF, 3 := 0xFFFFFFFF]"
  let ?st1 = "?st\<lparr>v := (v ?st)[0xF := 0], gfx := ?lit\<rparr>"
  have len: "length (memory power_on) = MEMORY_SIZE"
    using power_on_sized by (simp add: sized_def)
  have h1: "sized ?st"
    using power_on_sized by (simp add: sized_def)
  have first: "OP_Dxyn ?st = Inr ?st1"
    using h1 by (rule draw_F0_first)
      (simp_all add: power_on_registers height_of_def x_pos_def y_pos_def x_of_def y_of_def len)
  have sz1: "sized ?st1"
    using power_on_sized by (simp add: sized_def)
  have second: "OP_Dxyn ?st1 = Inr (?st1\<lparr>v := (v ?st1)[0xF := 1], gfx := replicate 2048 0\<rparr>)"
    using sz1 by (rule draw_F0_second)
      (simp_all add: power_on_registers height_of_def x_pos_def y_pos_def x_of_def y_of_def len)
  have "and_then (OP_Dxyn ?st) OP_Dxyn = OP_Dxyn ?st1"
    by (simp only: first and_then.simps)
  also have "\<dots> = Inr (?st1\<lparr>v := (v ?st1)[0xF := 1], gfx := replicate 2048 0\<rparr>)"
    by (rule second)
  also have "?st1\<lparr>v := (v ?st1)[0xF := 1], gfx := replicate 2048 0\<rparr> =
      power_on\<lparr>opcode := 0xD011, i := 0x300, memory := (memory power_on)[0x300 := 0xF0],
                v := (v power_on)[0xF := 1], gfx := replicate 2048 0\<rparr>"
    by simp
  finally have both: "and_then (OP_Dxyn ?st) OP_Dxyn =
      Inr (power_on\<lparr>opcode := 0xD011, i := 0x300, memory := (memory power_on)[0x300 := 0xF0],
                v := (v power_on)[0xF := 1], gfx := replicate 2048 0\<rparr>)" .
  have flag: "(v power_on)[0xF := 1] ! 0xF = 1"
    by (simp add: power_on_registers)
  from both flag show ?thesis ..
qed

text \<open>
  C2, as the code has it. For every draw whose sprite rows lie in memory and whose set
  sprite pixels all have their cell index \<open>(yPos + row) * 64 + (xPos + col)\<close> below 2048: the
  start position wraps (\<open>xPos = V[x] mod 64\<close>, \<open>yPos = V[y] mod 32\<close>); the draw ends without fault
  and changes only registers and framebuffer; each set sprite pixel toggles the cell at that
  index and every other cell is unchanged. Plotting neither wraps nor clips at the right
  edge: a set pixel with \<open>xPos + col \<ge> 64\<close> toggles the cell in column \<open>xPos + col - 64\<close> of the
  next row.
\<close>

theorem draw_toggles_cells_by_linear_index:
  assumes "sized s" and "unat (i s) + height_of s \<le> MEMORY_SIZE"
    and "\<forall>r<height_of s. \<forall>c<8. sprite_pixel s r c \<longrightarrow>
           screen_index (x_pos s) (y_pos s) r c < VIDEO_WIDTH * VIDEO_HEIGHT"
  shows "x_pos s = unat (v s ! x_of s) mod 64 \<and> y_pos s = unat (v s ! y_of s) mod 32 \<and>
         (\<exists>g w. OP_Dxyn s = Inr (s\<lparr>v := w, gfx := g\<rparr>) \<and> length g = 2048 \<and>
            (\<forall>k<2048. g ! k =
               (if \<exists>r<height_of s. \<exists>c<8. sprite_pixel s r c \<and>
                     k = (y_pos s + r) * 64 + (x_pos s + c)
                then gfx s ! k XOR 0xFFFFFFFF else gfx s ! k)) \<and>
            (\<forall>r<height_of s. \<forall>c<8. sprite_pixel s r c \<and> 64 \<le> x_pos s + c \<longrightarrow>
               g ! ((y_pos s + r + 1) * 64 + (x_pos s + c - 64)) =
                 gfx s ! ((y_pos s + r + 1) * 64 + (x_pos s + c - 64)) XOR 0xFFFFFFFF))"
proof -
  have lens: "length (memory s) = MEMORY_SIZE" "length (gfx s) = 2048"
    using assms(1) by (simp_all add: sized_def)
  have rows: "unat (i s) + height_of s \<le> length (memory s)"
    using assms(2) lens(1) by simp
  have inb: "\<forall>r<height_of s. \<forall>c<8. sprite_pixel s r c \<longrightarrow>
                screen_index (x_pos s) (y_pos s) r c < length (gfx s)"
    using assms(3) lens(2) by simp
  obtain g w where run: "OP_Dxyn s = Inr (s\<lparr>v := w, gfx := g\<rparr>)"
    and lg: "length g = length (gfx s)"
    and cells: "\<forall>k < length g. g ! k =
              (if \<exists>r<height_of s. \<exists>c<8. sprite_pixel s r c \<and>
                    k = screen_index (x_pos s) (y_pos s) r c
               then gfx s ! k XOR 0xFFFFFFFF else gfx s ! k)"
    using OP_Dxyn_ok [OF rows inb] by blast
  have lg': "length g = 2048"
    using lg lens(2) by simp
  have all: "\<forall>k<2048. g ! k =
               (if \<exists>r<height_of s. \<exists>c<8. sprite_pixel s r c \<and>
                     k = (y_pos s + r) * 64 + (x_pos s + c)
                then gfx s ! k XOR 0xFFFFFFFF else gfx s ! k)"
    using cells lg' by (simp add: screen_index_def)
  have next_row: "g ! ((y_pos s + r + 1) * 64 + (x_pos s + c - 64)) =
                 gfx s ! ((y_pos s + r + 1) * 64 + (x_pos s + c - 64)) XOR 0xFFFFFFFF"
    if r: "r < height_of s" and c: "c < 8" and px: "sprite_pixel s r c" and over: "64 \<le> x_pos s + c"
    for r c
  proof -
    have same: "(y_pos s + r + 1) * 64 + (x_pos s + c - 64) = (y_pos s + r) * 64 + (x_pos s + c)"
      using over by simp
    have "(y_pos s + r) * 64 + (x_pos s + c) < 2048"
      using assms(3) r c px by (simp add: screen_index_def)
    moreover have "\<exists>r'<height_of s. \<exists>c'<8. sprite_pixel s r' c' \<and>
        (y_pos s + r) * 64 + (x_pos s + c) = (y_pos s + r') * 64 + (x_pos s + c')"
      using r c px by blast
    ultimately have "g ! ((y_pos s + r) * 64 + (x_pos s + c)) =
        gfx s ! ((y_pos s + r) * 64 + (x_pos s + c)) XOR 0xFFFFFFFF"
      using all by simp
    then show ?thesis
      by (simp only: same)
  qed
  have pos: "x_pos s = unat (v s ! x_of s) mod 64" "y_pos s = unat (v s ! y_of s) mod 32"
    by (simp_all add: x_pos_def y_pos_def)
  from run lg' all next_row have "\<exists>g w. OP_Dxyn s = Inr (s\<lparr>v := w, gfx := g\<rparr>) \<and> length g = 2048 \<and>
            (\<forall>k<2048. g ! k =
               (if \<exists>r<height_of s. \<exists>c<8. sprite_pixel s r c \<and>
                     k = (y_pos s + r) * 64 + (x_pos s + c)
                then gfx s ! k XOR 0xFFFFFFFF else gfx s ! k)) \<and>
            (\<forall>r<height_of s. \<forall>c<8. sprite_pixel s r c \<and> 64 \<le> x_pos s + c \<longrightarrow>
               g ! ((y_pos s + r + 1) * 64 + (x_pos s + c - 64)) =
                 gfx s ! ((y_pos s + r + 1) * 64 + (x_pos s + c - 64)) XOR 0xFFFFFFFF)"
    by blast
  with pos show ?thesis
    by (intro conjI)
qed

text \<open>The claim as written has every sprite pixel that falls outside the 64 x 32 bounds
  dropped and every cell outside the in-bounds footprint unchanged. At power-on, with the
  byte \<^verbatim>\<open>0xFF\<close> at 0x300, \<open>I = 0x300\<close>, \<open>V[0] = 60\<close> and the opcode \<^verbatim>\<open>0xD011\<close>, the sprite pixels in
  columns 64 to 67 of row 0 are written to the cells 64 to 67, which are columns 0 to 3 of
  row 1.\<close>

theorem draw_past_right_edge_counterexample:
  "OP_Dxyn (power_on\<lparr>opcode := 0xD011, i := 0x300,
                      memory := (memory power_on)[0x300 := 0xFF],
                      v := (v power_on)[0 := 60]\<rparr>) =
     Inr (power_on\<lparr>opcode := 0xD011, i := 0x300,
                    memory := (memory power_on)[0x300 := 0xFF],
                    v := (v power_on)[0 := 60, 0xF := 0],
                    gfx := (replicate 2048 0)
                      [60 := 0xFFFFFFFF, 61 := 0xFFFFFFFF, 62 := 0xFFFFFFFF, 63 := 0xFFFFFFFF,
                       64 := 0xFFFFFFFF, 65 := 0xFFFFFFFF, 66 := 0xFFFFFFFF, 67 := 0xFFFFFFFF]\<rparr>) \<and>
   gfx power_on ! 64 = 0 \<and>
   (replicate 2048 (0 :: u32))
     [60 := 0xFFFFFFFF, 61 := 0xFFFFFFFF, 62 := 0xFFFFFFFF, 63 := 0xFFFFFFFF,
      64 := 0xFFFFFFFF, 65 := 0xFFFFFFFF, 66 := 0xFFFFFFFF, 67 := 0xFFFFFFFF] ! 64 = 0xFFFFFFFF"
proof -
  have len: "length (memory power_on) = MEMORY_SIZE"
    using power_on_sized by (simp add: sized_def)
  have run: "OP_Dxyn (power_on\<lparr>opcode := 0xD011, i := 0x300,
                      memory := (memory power_on)[0x300 := 0xFF],
                      v := (v power_on)[0 := 60]\<rparr>) =
     Inr (power_on\<lparr>opcode := 0xD011, i := 0x300,
                    memory := (memory power_on)[0x300 := 0xFF],
                    v := (v power_on)[0 := 60, 0xF := 0],
                    gfx := (replicate 2048 0)
                      [60 := 0xFFFFFFFF, 61 := 0xFFFFFFFF, 62 := 0xFFFFFFFF, 63 := 0xFFFFFFFF,
                       64 := 0xFFFFFFFF, 65 := 0xFFFFFFFF, 66 := 0xFFFFFFFF, 67 := 0xFFFFFFFF]\<rparr>)"
    using len
    by (simp add: OP_Dxyn_def Let_def x_of_def y_of_def height_of_def power_on_registers
        for_loop_1 draw_row_def rd_def for_loop_8 draw_pixel_def)
  have before: "gfx power_on ! 64 = 0"
    by (simp add: power_on_registers)
  have after: "(replicate 2048 (0 :: u32))
     [60 := 0xFFFFFFFF, 61 := 0xFFFFFFFF, 62 := 0xFFFFFFFF, 63 := 0xFFFFFFFF,
      64 := 0xFFFFFFFF, 65 := 0xFFFFFFFF, 66 := 0xFFFFFFFF, 67 := 0xFFFFFFFF] ! 64 = 0xFFFFFFFF"
    by simp
  from run before after show ?thesis
    by (intro conjI)
qed

theorem draw_toggles_cells_by_linear_index_witness:
  "sized (power_on\<lparr>opcode := 0xD011, i := 0x300, memory := (memory power_on)[0x300 := 0xFF],
                    v := (v power_on)[0 := 60]\<rparr>) \<and>
   unat (i (power_on\<lparr>opcode := 0xD011, i := 0x300, memory := (memory power_on)[0x300 := 0xFF],
                      v := (v power_on)[0 := 60]\<rparr>))
     + height_of (power_on\<lparr>opcode := 0xD011, i := 0x300,
                            memory := (memory power_on)[0x300 := 0xFF],
                            v := (v power_on)[0 := 60]\<rparr>) \<le> MEMORY_SIZE \<and>
   height_of (power_on\<lparr>opcode := 0xD011, i := 0x300, memory := (memory power_on)[0x300 := 0xFF],
                        v := (v power_on)[0 := 60]\<rparr>) = 1 \<and>
   screen_index
     (x_pos (power_on\<lparr>opcode := 0xD011, i := 0x300, memory := (memory power_on)[0x300 := 0xFF],
                      v := (v power_on)[0 := 60]\<rparr>))
     (y_pos (power_on\<lparr>opcode := 0xD011, i := 0x300, memory := (memory power_on)[0x300 := 0xFF],
                      v := (v power_on)[0 := 60]\<rparr>)) 0 7 < VIDEO_WIDTH * VIDEO_HEIGHT \<and>
   x_pos (power_on\<lparr>opcode := 0xD011, i := 0x300, memory := (memory power_on)[0x300 := 0xFF],
                    v := (v power_on)[0 := 60]\<rparr>) = 60 \<and>
   y_pos (power_on\<lparr>opcode := 0xD011, i := 0x300, memory := (memory power_on)[0x300 := 0xFF],
                    v := (v power_on)[0 := 60]\<rparr>) = 0 \<and>
   (\<exists>g w. OP_Dxyn (power_on\<lparr>opcode := 0xD011, i := 0x300,
                              memory := (memory power_on)[0x300 := 0xFF],
                              v := (v power_on)[0 := 60]\<rparr>) =
            Inr (power_on\<lparr>opcode := 0xD011, i := 0x300,
                           memory := (memory power_on)[0x300 := 0xFF],
                           v := (v power_on)[0 := 60]\<rparr>\<lparr>v := w, gfx := g\<rparr>) \<and>
          length g = 2048 \<and> g ! 59 = 0 \<and> g ! 63 = 0xFFFFFFFF \<and> g ! 64 = 0xFFFFFFFF \<and>
          g ! 67 = 0xFFFFFFFF \<and> g ! 68 = 0)"
proof -
  let ?st = "power_on\<lparr>opcode := 0xD011, i := 0x300, memory := (memory power_on)[0x300 := 0xFF],
                      v := (v power_on)[0 := 60]\<rparr>"
  have len: "length (memory power_on) = MEMORY_SIZE"
    using power_on_sized by (simp add: sized_def)
  have h1: "sized ?st"
    using power_on_sized by (simp add: sized_def power_on_registers)
  have ht: "height_of ?st = 1"
    by (simp add: height_of_def)
  have h2: "unat (i ?st) + height_of ?st \<le> MEMORY_SIZE"
    unfolding ht by simp
  have xp: "x_pos ?st = 60"
    by (simp add: x_pos_def x_of_def power_on_registers)
  have yp: "y_pos ?st = 0"
    by (simp add: y_pos_def y_of_def power_on_registers)
  have last: "screen_index (x_pos ?st) (y_pos ?st) 0 7 < VIDEO_WIDTH * VIDEO_HEIGHT"
    unfolding xp yp by (simp add: screen_index_def)
  have h3: "\<forall>r<height_of ?st. \<forall>c<8. sprite_pixel ?st r c \<longrightarrow>
           screen_index (x_pos ?st) (y_pos ?st) r c < VIDEO_WIDTH * VIDEO_HEIGHT"
    unfolding ht xp yp by (simp add: screen_index_def)
  have px: "sprite_pixel ?st 0 c" if "c < 8" for c
  proof -
    have "c = 0 \<or> c = 1 \<or> c = 2 \<or> c = 3 \<or> c = 4 \<or> c = 5 \<or> c = 6 \<or> c = 7"
      using that by arith
    then show ?thesis
      using len by (elim disjE) (simp_all add: sprite_pixel_def)
  qed
  obtain g w where run: "OP_Dxyn ?st = Inr (?st\<lparr>v := w, gfx := g\<rparr>)" and lg: "length g = 2048"
    and cells: "\<forall>k<2048. g ! k =
               (if \<exists>r<height_of ?st. \<exists>c<8. sprite_pixel ?st r c \<and>
                     k = (y_pos ?st + r) * 64 + (x_pos ?st + c)
                then gfx ?st ! k XOR 0xFFFFFFFF else gfx ?st ! k)"
    using draw_toggles_cells_by_linear_index [OF h1 h2 h3] by blast
  have cell: "g ! k = (if \<exists>c<8. k = 60 + c then 0xFFFFFFFF else 0)" if "k < 2048" for k
  proof -
    have "(\<exists>r<height_of ?st. \<exists>c<8. sprite_pixel ?st r c \<and>
                     k = (y_pos ?st + r) * 64 + (x_pos ?st + c)) = (\<exists>c<8. k = 60 + c)"
      unfolding ht xp yp using px by auto
    moreover have "gfx ?st ! k = 0"
      using that by (simp add: power_on_registers)
    ultimately show ?thesis
      using cells [rule_format, OF that] by simp
  qed
  have c59: "g ! 59 = 0" and c68: "g ! 68 = 0"
    using cell [of 59] cell [of 68] by auto
  have e63: "\<exists>c<8. (63 :: nat) = 60 + c"
    by (rule exI [of _ 3]) simp
  have e64: "\<exists>c<8. (64 :: nat) = 60 + c"
    by (rule exI [of _ 4]) simp
  have e67: "\<exists>c<8. (67 :: nat) = 60 + c"
    by (rule exI [of _ 7]) simp
  have c63: "g ! 63 = 0xFFFFFFFF"
    using cell [of 63] e63 by simp
  have c64: "g ! 64 = 0xFFFFFFFF"
    using cell [of 64] e64 by simp
  have c67: "g ! 67 = 0xFFFFFFFF"
    using cell [of 67] e67 by simp
  from run lg c59 c63 c64 c67 c68
  have "\<exists>g w. OP_Dxyn ?st = Inr (?st\<lparr>v := w, gfx := g\<rparr>) \<and>
          length g = 2048 \<and> g ! 59 = 0 \<and> g ! 63 = 0xFFFFFFFF \<and> g ! 64 = 0xFFFFFFFF \<and>
          g ! 67 = 0xFFFFFFFF \<and> g ! 68 = 0"
    by blast
  with h1 h2 ht last xp yp show ?thesis
    by (intro conjI)
qed

text \<open>Below the last row there is no cell: with \<open>V[1] = 31\<close> and a sprite of two rows, the set
  pixel of the second row has index 2048, outside \<^verbatim>\<open>gfx\<close>.\<close>

lemma draw_below_last_row_leaves_framebuffer:
  "OP_Dxyn (power_on\<lparr>opcode := 0xD012, i := 0x300,
                      memory := (memory power_on)[0x300 := 0x80, 0x301 := 0x80],
                      v := (v power_on)[1 := 31]\<rparr>) = Inl (VideoOutOfBounds 2048)"
proof -
  have len: "length (memory power_on) = MEMORY_SIZE"
    using power_on_sized by (simp add: sized_def)
  have two: "for_loop 0 2 body t = and_then (body 0 t) (body 1)"
    for body :: "nat \<Rightarrow> CPU \<Rightarrow> fault + CPU" and t
  proof -
    have a: "for_loop 0 2 body t = and_then (body 0 t) (for_loop (Suc 0) 2 body)"
      by (rule for_loop_step) simp
    have b: "for_loop (Suc 0) 2 body u = and_then (body (Suc 0) u) (for_loop (Suc (Suc 0)) 2 body)"
      for u
      by (rule for_loop_step) simp
    have c: "and_then r (for_loop (Suc (Suc 0)) 2 body) = r" for r
      by (cases r) simp_all
    have "for_loop (Suc 0) 2 body = body 1"
      by (rule ext) (simp add: b c)
    with a show ?thesis
      by simp
  qed
  show ?thesis
    using len
    by (simp add: OP_Dxyn_def Let_def x_of_def y_of_def height_of_def power_on_registers
        two draw_row_def rd_def for_loop_8 draw_pixel_def)
qed

section \<open>The index register as an address\<close>

lemma OP_Fx1E_index:
  "i (OP_Fx1E s) = i s + ucast (v s ! x_of s)"
  "unat (i (OP_Fx1E s)) = (unat (i s) + unat (v s ! x_of s)) mod 65536"
  by (simp_all add: OP_Fx1E_def unat_word_ariths unat_ucast_u8_u16)

text \<open>
  C1, as the code has it. The index register is a 16-bit quantity that no handler masks:
  add-index adds modulo 65536. Every memory-access handler that uses \<open>I\<close> as an address (draw,
  bcd-store, reg-dump, reg-load) accesses memory at the address \<open>I + offset\<close> itself, with no
  reduction modulo 4096. While every such address is below 4096 the handler reads or writes
  exactly the cells \<open>I + offset\<close>; when one is not, the access is outside the 4096 bytes of
  memory at that unmasked address, and no cell of memory is accessed in its place.

  For reg-dump and reg-load the first address outside memory is \<open>max I 4096\<close>, for bcd-store
  it is \<open>I + 2\<close>, the address of the first store. Draw reads the sprite rows at \<open>I + row\<close> in
  ascending order, and is described in every state: it stops at the first set sprite pixel,
  of a row inside memory, whose cell is outside the framebuffer, if there is one; otherwise it
  stops at the first row address outside memory, \<open>max I 4096\<close>, if the sprite has one; otherwise
  it toggles the cells of the set pixels of the bytes at \<open>I + row\<close>.
\<close>

theorem index_register_addresses_memory_unmasked:
  assumes "sized s"
  shows "(if unat (i s) + x_of s < MEMORY_SIZE
          then \<exists>m. OP_Fx55 s = Inr (s\<lparr>memory := m\<rparr>) \<and> length m = MEMORY_SIZE \<and>
                 (\<forall>a<MEMORY_SIZE. m ! a =
                    (if unat (i s) \<le> a \<and> a \<le> unat (i s) + x_of s then v s ! (a - unat (i s))
                     else memory s ! a))
          else OP_Fx55 s = Inl (MemoryOutOfBounds (max (unat (i s)) MEMORY_SIZE))) \<and>
         (if unat (i s) + x_of s < MEMORY_SIZE
          then \<exists>vs. OP_Fx65 s = Inr (s\<lparr>v := vs\<rparr>) \<and> length vs = 16 \<and>
                 (\<forall>k<16. vs ! k =
                    (if k \<le> x_of s then memory s ! (unat (i s) + k) else v s ! k))
          else OP_Fx65 s = Inl (MemoryOutOfBounds (max (unat (i s)) MEMORY_SIZE))) \<and>
         OP_Fx33 s =
           (if unat (i s) + 2 < MEMORY_SIZE
            then Inr (s\<lparr>memory := (memory s)
                   [unat (i s) + 2 := v s ! x_of s mod 10,
                    unat (i s) + 1 := v s ! x_of s div 10 mod 10,
                    unat (i s) := v s ! x_of s div 10 div 10 mod 10]\<rparr>)
            else Inl (MemoryOutOfBounds (unat (i s) + 2))) \<and>
         (if \<forall>r<height_of s. \<forall>c<8.
                unat (i s) + r < MEMORY_SIZE \<and> memory s ! (unat (i s) + r) AND drop_bit c 0x80 \<noteq> 0 \<longrightarrow>
                screen_index (x_pos s) (y_pos s) r c < VIDEO_WIDTH * VIDEO_HEIGHT
          then if \<forall>r<height_of s. unat (i s) + r < MEMORY_SIZE
               then \<exists>g w. OP_Dxyn s = Inr (s\<lparr>v := w, gfx := g\<rparr>) \<and> length g = 2048 \<and>
                      (\<forall>k<2048. g ! k =
                         (if \<exists>r<height_of s. \<exists>c<8.
                               memory s ! (unat (i s) + r) AND drop_bit c 0x80 \<noteq> 0 \<and>
                               k = screen_index (x_pos s) (y_pos s) r c
                          then gfx s ! k XOR 0xFFFFFFFF else gfx s ! k))
               else OP_Dxyn s = Inl (MemoryOutOfBounds (max (unat (i s)) MEMORY_SIZE))
          else \<exists>r c. r < height_of s \<and> unat (i s) + r < MEMORY_SIZE \<and> c < 8 \<and>
                 memory s ! (unat (i s) + r) AND drop_bit c 0x80 \<noteq> 0 \<and>
                 \<not> screen_index (x_pos s) (y_pos s) r c < VIDEO_WIDTH * VIDEO_HEIGHT \<and>
                 (\<forall>r' c'. c' < 8 \<and> (r' < r \<or> r' = r \<and> c' < c) \<and>
                      memory s ! (unat (i s) + r') AND drop_bit c' 0x80 \<noteq> 0 \<longrightarrow>
                      screen_index (x_pos s) (y_pos s) r' c' < VIDEO_WIDTH * VIDEO_HEIGHT) \<and>
                 OP_Dxyn s = Inl (VideoOutOfBounds (screen_index (x_pos s) (y_pos s) r c))) \<and>
         i (OP_Fx1E s) = i s + ucast (v s ! x_of s) \<and>
         unat (i (OP_Fx1E s)) = (unat (i s) + unat (v s ! x_of s)) mod 65536"
proof -
  have lens: "length (memory s) = MEMORY_SIZE" "length (v s) = 16" "length (gfx s) = 2048"
    using assms by (simp_all add: sized_def)
  have dump: "(if unat (i s) + x_of s < MEMORY_SIZE
          then \<exists>m. OP_Fx55 s = Inr (s\<lparr>memory := m\<rparr>) \<and> length m = MEMORY_SIZE \<and>
                 (\<forall>a<MEMORY_SIZE. m ! a =
                    (if unat (i s) \<le> a \<and> a \<le> unat (i s) + x_of s then v s ! (a - unat (i s))
                     else memory s ! a))
          else OP_Fx55 s = Inl (MemoryOutOfBounds (max (unat (i s)) MEMORY_SIZE)))"
  proof (cases "unat (i s) + x_of s < MEMORY_SIZE")
    case True
    then have "unat (i s) + x_of s < length (memory s)"
      using lens(1) by simp
    from OP_Fx55_ok [OF this] show ?thesis
      using True lens(1) by auto
  next
    case False
    then have "\<not> unat (i s) + x_of s < length (memory s)"
      using lens(1) by simp
    from OP_Fx55_fault [OF this] show ?thesis
      using False lens(1) by simp
  qed
  have load: "(if unat (i s) + x_of s < MEMORY_SIZE
          then \<exists>vs. OP_Fx65 s = Inr (s\<lparr>v := vs\<rparr>) \<and> length vs = 16 \<and>
                 (\<forall>k<16. vs ! k =
                    (if k \<le> x_of s then memory s ! (unat (i s) + k) else v s ! k))
          else OP_Fx65 s = Inl (MemoryOutOfBounds (max (unat (i s)) MEMORY_SIZE)))"
  proof (cases "unat (i s) + x_of s < MEMORY_SIZE")
    case True
    then have "unat (i s) + x_of s < length (memory s)"
      using lens(1) by simp
    from OP_Fx65_ok [OF lens(2) this] show ?thesis
      using True by simp
  next
    case False
    then have "\<not> unat (i s) + x_of s < length (memory s)"
      using lens(1) by simp
    from OP_Fx65_fault [OF lens(2) this] show ?thesis
      using False lens(1) by simp
  qed
  have bcd: "OP_Fx33 s =
           (if unat (i s) + 2 < MEMORY_SIZE
            then Inr (s\<lparr>memory := (memory s)
                   [unat (i s) + 2 := v s ! x_of s mod 10,
                    unat (i s) + 1 := v s ! x_of s div 10 mod 10,
                    unat (i s) := v s ! x_of s div 10 div 10 mod 10]\<rparr>)
            else Inl (MemoryOutOfBounds (unat (i s) + 2)))"
    using OP_Fx33_result [of s] lens(1) by simp
  define px where "px = (\<lambda>r c. memory s ! (unat (i s) + r) AND drop_bit c 0x80 \<noteq> 0)"
  define idx where "idx = screen_index (x_pos s) (y_pos s)"
  have px: "sprite_pixel s r c \<longleftrightarrow> px r c" for r c
    by (simp add: px_def sprite_pixel_def)
  have draw: "(if \<forall>r<height_of s. \<forall>c<8.
                   unat (i s) + r < MEMORY_SIZE \<and> px r c \<longrightarrow> idx r c < VIDEO_WIDTH * VIDEO_HEIGHT
               then if \<forall>r<height_of s. unat (i s) + r < MEMORY_SIZE
                    then \<exists>g w. OP_Dxyn s = Inr (s\<lparr>v := w, gfx := g\<rparr>) \<and> length g = 2048 \<and>
                           (\<forall>k<2048. g ! k =
                              (if \<exists>r<height_of s. \<exists>c<8. px r c \<and> k = idx r c
                               then gfx s ! k XOR 0xFFFFFFFF else gfx s ! k))
                    else OP_Dxyn s = Inl (MemoryOutOfBounds (max (unat (i s)) MEMORY_SIZE))
               else \<exists>r c. r < height_of s \<and> unat (i s) + r < MEMORY_SIZE \<and> c < 8 \<and>
                      px r c \<and> \<not> idx r c < VIDEO_WIDTH * VIDEO_HEIGHT \<and>
                      (\<forall>r' c'. c' < 8 \<and> (r' < r \<or> r' = r \<and> c' < c) \<and> px r' c' \<longrightarrow>
                           idx r' c' < VIDEO_WIDTH * VIDEO_HEIGHT) \<and>
                      OP_Dxyn s = Inl (VideoOutOfBounds (idx r c)))"
  proof (cases "\<forall>r<height_of s. \<forall>c<8.
                   unat (i s) + r < MEMORY_SIZE \<and> px r c \<longrightarrow> idx r c < VIDEO_WIDTH * VIDEO_HEIGHT")
    case nobad: True
    show ?thesis
    proof (cases "\<forall>r<height_of s. unat (i s) + r < MEMORY_SIZE")
      case allrows: True
      have ok: "\<exists>g w. OP_Dxyn s = Inr (s\<lparr>v := w, gfx := g\<rparr>) \<and> length g = 2048 \<and>
                  (\<forall>k<2048. g ! k =
                     (if \<exists>r<height_of s. \<exists>c<8. px r c \<and> k = idx r c
                      then gfx s ! k XOR 0xFFFFFFFF else gfx s ! k))"
      proof (cases "height_of s = 0")
        case True
        have "OP_Dxyn s = Inr (s\<lparr>v := (v s)[0xF := 0], gfx := gfx s\<rparr>)"
          using OP_Dxyn_height_0 [OF True] by simp
        moreover have "\<forall>k<2048. gfx s ! k =
                     (if \<exists>r<height_of s. \<exists>c<8. px r c \<and> k = idx r c
                      then gfx s ! k XOR 0xFFFFFFFF else gfx s ! k)"
          using True by simp
        ultimately show ?thesis
          using lens(3) by blast
      next
        case False
        then have "height_of s - 1 < height_of s"
          by simp
        with allrows have "unat (i s) + (height_of s - 1) < MEMORY_SIZE"
          by blast
        then have a: "unat (i s) + height_of s \<le> length (memory s)"
          using False lens(1) by simp
        have b: "\<forall>r<height_of s. \<forall>c<8. sprite_pixel s r c \<longrightarrow>
                    screen_index (x_pos s) (y_pos s) r c < length (gfx s)"
          using nobad allrows lens(3) by (simp add: px idx_def)
        from OP_Dxyn_ok [OF a b] obtain g w where gw: "OP_Dxyn s = Inr (s\<lparr>v := w, gfx := g\<rparr>)"
          "length g = length (gfx s)"
          "\<forall>k < length g. g ! k =
                  (if \<exists>r<height_of s. \<exists>c<8. sprite_pixel s r c \<and>
                        k = screen_index (x_pos s) (y_pos s) r c
                   then gfx s ! k XOR 0xFFFFFFFF else gfx s ! k)"
          by blast
        have lg: "length g = 2048"
          using gw(2) lens(3) by simp
        have "\<forall>k<2048. g ! k =
                     (if \<exists>r<height_of s. \<exists>c<8. px r c \<and> k = idx r c
                      then gfx s ! k XOR 0xFFFFFFFF else gfx s ! k)"
          using gw(3) lg by (simp only: px idx_def)
        with gw(1) lg show ?thesis
          by blast
      qed
      show ?thesis
        unfolding if_P [OF nobad] if_P [OF allrows] by (rule ok)
    next
      case norow: False
      then have h: "0 < height_of s"
        by auto
      have over: "\<not> unat (i s) + height_of s \<le> length (memory s)"
        using norow lens(1) by auto
      have inb: "\<forall>r<length (memory s) - unat (i s). \<forall>c<8. sprite_pixel s r c \<longrightarrow>
                    screen_index (x_pos s) (y_pos s) r c < length (gfx s)"
      proof (intro allI impI)
        fix r c
        assume r: "r < length (memory s) - unat (i s)" and c: "c < (8 :: nat)"
          and p: "sprite_pixel s r c"
        have "r < height_of s"
          using r over by simp
        moreover have "unat (i s) + r < MEMORY_SIZE"
          using r lens(1) by simp
        ultimately have "idx r c < VIDEO_WIDTH * VIDEO_HEIGHT"
          using nobad c p px by blast
        then show "screen_index (x_pos s) (y_pos s) r c < length (gfx s)"
          using lens(3) by (simp add: idx_def)
      qed
      have mf: "OP_Dxyn s = Inl (MemoryOutOfBounds (max (unat (i s)) MEMORY_SIZE))"
        using OP_Dxyn_memory_fault [OF h over inb] lens(1) by simp
      show ?thesis
        unfolding if_P [OF nobad] if_not_P [OF norow] by (rule mf)
    qed
  next
    case bad: False
    define B where "B = (\<lambda>r c. unat (i s) + r < MEMORY_SIZE \<and> px r c \<and>
                             \<not> idx r c < VIDEO_WIDTH * VIDEO_HEIGHT)"
    from bad have "\<not> (\<forall>r<height_of s. \<forall>c<8. \<not> B r c)"
      unfolding B_def by blast
    with first_pixel_with [of "height_of s" B] obtain r c
      where r: "r < height_of s" and c: "c < 8" and Brc: "B r c"
        and first: "\<forall>r' c'. c' < 8 \<and> (r' < r \<or> r' = r \<and> c' < c) \<longrightarrow> \<not> B r' c'"
      by blast
    have rm: "unat (i s) + r < MEMORY_SIZE" and pxrc: "px r c"
      and outrc: "\<not> idx r c < VIDEO_WIDTH * VIDEO_HEIGHT"
      using Brc by (simp_all add: B_def)
    have before: "\<forall>r' c'. c' < 8 \<and> (r' < r \<or> r' = r \<and> c' < c) \<and> px r' c' \<longrightarrow>
                    idx r' c' < VIDEO_WIDTH * VIDEO_HEIGHT"
    proof (intro allI impI, elim conjE)
      fix r' c'
      assume c': "c' < (8 :: nat)" and lt: "r' < r \<or> r' = r \<and> c' < c" and p: "px r' c'"
      have "\<not> B r' c'"
        using first c' lt by blast
      moreover have "unat (i s) + r' < MEMORY_SIZE"
        using lt rm by auto
      ultimately show "idx r' c' < VIDEO_WIDTH * VIDEO_HEIGHT"
        using p unfolding B_def by blast
    qed
    have rmem: "unat (i s) + r < length (memory s)"
      using rm lens(1) by simp
    have pixel: "sprite_pixel s r c"
      using pxrc by (simp add: px)
    have out: "\<not> screen_index (x_pos s) (y_pos s) r c < length (gfx s)"
      using outrc lens(3) by (simp add: idx_def)
    have before': "\<forall>r' c'. c' < 8 \<and> (r' < r \<or> r' = r \<and> c' < c) \<and> sprite_pixel s r' c' \<longrightarrow>
                     screen_index (x_pos s) (y_pos s) r' c' < length (gfx s)"
      using before lens(3) by (simp add: px idx_def)
    have "OP_Dxyn s = Inl (VideoOutOfBounds (idx r c))"
      unfolding idx_def by (rule OP_Dxyn_video_fault [OF r rmem c pixel out before'])
    with r rm c pxrc outrc before
    have vf: "\<exists>r c. r < height_of s \<and> unat (i s) + r < MEMORY_SIZE \<and> c < 8 \<and>
                      px r c \<and> \<not> idx r c < VIDEO_WIDTH * VIDEO_HEIGHT \<and>
                      (\<forall>r' c'. c' < 8 \<and> (r' < r \<or> r' = r \<and> c' < c) \<and> px r' c' \<longrightarrow>
                           idx r' c' < VIDEO_WIDTH * VIDEO_HEIGHT) \<and>
                      OP_Dxyn s = Inl (VideoOutOfBounds (idx r c))"
      by (intro exI [of _ r] exI [of _ c] conjI)
    show ?thesis
      unfolding if_not_P [OF bad] by (rule vf)
  qed
  note draw' = draw [unfolded px_def idx_def]
  note ix = OP_Fx1E_index [of s]
  from dump load bcd draw' ix(1) ix(2) show ?thesis
    by (intro conjI)
qed

text \<open>The claim as written has the register dump write to \<open>(I + offset) & 0x0FFF\<close>. With
  \<open>I = 0x1000\<close>, which add-index produces from \<open>I = 0x0FFF\<close> and \<open>V[0] = 1\<close>, \<open>V[0] = 7\<close> and the
  opcode \<^verbatim>\<open>0xF055\<close>, the masked address is 0, but the handler addresses \<^verbatim>\<open>memory[4096]\<close>, outside
  the array, and does not store 7 at address 0.\<close>

theorem reg_dump_address_not_masked_counterexample:
  "i (OP_Fx1E (power_on\<lparr>opcode := 0xF01E, i := 0x0FFF, v := (v power_on)[0 := 1]\<rparr>)) = 0x1000 \<and>
   unat ((0x1000 :: u16) AND 0x0FFF) = 0 \<and>
   OP_Fx55 (power_on\<lparr>opcode := 0xF055, i := 0x1000, v := (v power_on)[0 := 7]\<rparr>) =
     Inl (MemoryOutOfBounds 4096) \<and>
   OP_Fx55 (power_on\<lparr>opcode := 0xF055, i := 0x1000, v := (v power_on)[0 := 7]\<rparr>) \<noteq>
     Inr (power_on\<lparr>opcode := 0xF055, i := 0x1000, v := (v power_on)[0 := 7],
                    memory := (memory power_on)[0 := 7]\<rparr>)"
proof -
  let ?st = "power_on\<lparr>opcode := 0xF055, i := 0x1000, v := (v power_on)[0 := 7]\<rparr>"
  have len: "length (memory power_on) = MEMORY_SIZE"
    using power_on_sized by (simp add: sized_def)
  have reach: "i (OP_Fx1E (power_on\<lparr>opcode := 0xF01E, i := 0x0FFF, v := (v power_on)[0 := 1]\<rparr>)) = 0x1000"
    by (simp add: OP_Fx1E_def x_of_def power_on_registers)
  have masked: "unat ((0x1000 :: u16) AND 0x0FFF) = 0"
    by simp
  have "\<not> unat (i ?st) + x_of ?st < length (memory ?st)"
    using len by simp
  from OP_Fx55_fault [OF this] have fault: "OP_Fx55 ?st = Inl (MemoryOutOfBounds 4096)"
    using len by simp
  then have differs: "OP_Fx55 ?st \<noteq>
     Inr (power_on\<lparr>opcode := 0xF055, i := 0x1000, v := (v power_on)[0 := 7],
                    memory := (memory power_on)[0 := 7]\<rparr>)"
    by simp
  from reach masked fault differs show ?thesis
    by (intro conjI)
qed

theorem index_register_addresses_memory_unmasked_witness:
  "sized (power_on\<lparr>opcode := 0xF155, i := 0x300, v := (v power_on)[0 := 7, 1 := 123],
                    memory := replicate 4096 0xFF\<rparr>) \<and>
   (\<exists>m. OP_Fx55 (power_on\<lparr>opcode := 0xF155, i := 0x300, v := (v power_on)[0 := 7, 1 := 123],
                            memory := replicate 4096 0xFF\<rparr>) =
          Inr (power_on\<lparr>opcode := 0xF155, i := 0x300, v := (v power_on)[0 := 7, 1 := 123],
                         memory := m\<rparr>) \<and>
        m ! 0x300 = 7 \<and> m ! 0x301 = 123 \<and> m ! 0x302 = 0xFF) \<and>
   (\<exists>vs. OP_Fx65 (power_on\<lparr>opcode := 0xF155, i := 0x300, v := (v power_on)[0 := 7, 1 := 123],
                             memory := replicate 4096 0xFF\<rparr>) =
          Inr (power_on\<lparr>opcode := 0xF155, i := 0x300, memory := replicate 4096 0xFF,
                         v := vs\<rparr>) \<and>
        vs ! 0 = 0xFF \<and> vs ! 1 = 0xFF \<and> vs ! 2 = 0) \<and>
   OP_Fx33 (power_on\<lparr>opcode := 0xF155, i := 0x300, v := (v power_on)[0 := 7, 1 := 123],
                      memory := replicate 4096 0xFF\<rparr>) =
     Inr (power_on\<lparr>opcode := 0xF155, i := 0x300, v := (v power_on)[0 := 7, 1 := 123],
                    memory := (replicate 4096 0xFF)[0x302 := 3, 0x301 := 2, 0x300 := 1]\<rparr>) \<and>
   (\<exists>g w. OP_Dxyn (power_on\<lparr>opcode := 0xF155, i := 0x300, v := (v power_on)[0 := 7, 1 := 123],
                              memory := replicate 4096 0xFF\<rparr>) =
          Inr (power_on\<lparr>opcode := 0xF155, i := 0x300, memory := replicate 4096 0xFF,
                         v := w, gfx := g\<rparr>) \<and>
        length g = 2048) \<and>
   i (OP_Fx1E (power_on\<lparr>opcode := 0xF155, i := 0x300, v := (v power_on)[0 := 7, 1 := 123],
                         memory := replicate 4096 0xFF\<rparr>)) = 0x37B \<and>
   sized (power_on\<lparr>opcode := 0xF155, i := 0x1000\<rparr>) \<and>
   OP_Fx55 (power_on\<lparr>opcode := 0xF155, i := 0x1000\<rparr>) = Inl (MemoryOutOfBounds 4096) \<and>
   OP_Fx65 (power_on\<lparr>opcode := 0xF155, i := 0x1000\<rparr>) = Inl (MemoryOutOfBounds 4096) \<and>
   OP_Fx33 (power_on\<lparr>opcode := 0xF155, i := 0x1000\<rparr>) = Inl (MemoryOutOfBounds 4098) \<and>
   OP_Dxyn (power_on\<lparr>opcode := 0xF155, i := 0x1000\<rparr>) = Inl (MemoryOutOfBounds 4096) \<and>
   sized (power_on\<lparr>opcode := 0xD015, i := 0xFFE, memory := replicate 4096 0xFF\<rparr>) \<and>
   OP_Dxyn (power_on\<lparr>opcode := 0xD015, i := 0xFFE, memory := replicate 4096 0xFF\<rparr>) =
     Inl (MemoryOutOfBounds 4096) \<and>
   sized (power_on\<lparr>opcode := 0xD012, i := 0x300, v := (v power_on)[1 := 31],
                    memory := replicate 4096 0xFF\<rparr>) \<and>
   OP_Dxyn (power_on\<lparr>opcode := 0xD012, i := 0x300, v := (v power_on)[1 := 31],
                      memory := replicate 4096 0xFF\<rparr>) =
     Inl (VideoOutOfBounds 2048)"
proof -
  let ?A = "power_on\<lparr>opcode := 0xF155, i := 0x300, v := (v power_on)[0 := 7, 1 := 123],
                      memory := replicate 4096 0xFF\<rparr>"
  let ?B = "power_on\<lparr>opcode := 0xF155, i := 0x1000\<rparr>"
  let ?C = "power_on\<lparr>opcode := 0xD015, i := 0xFFE, memory := replicate 4096 0xFF\<rparr>"
  let ?D = "power_on\<lparr>opcode := 0xD012, i := 0x300, v := (v power_on)[1 := 31],
                      memory := replicate 4096 0xFF\<rparr>"
  have szA: "sized ?A"
    using power_on_sized by (simp add: sized_def power_on_registers)
  have szB: "sized ?B"
    using power_on_sized by (simp add: sized_def)
  have szC: "sized ?C"
    using power_on_sized by (simp add: sized_def)
  have szD: "sized ?D"
    using power_on_sized by (simp add: sized_def power_on_registers)
  note tA = index_register_addresses_memory_unmasked [OF szA]
  note tB = index_register_addresses_memory_unmasked [OF szB]
  note tC = index_register_addresses_memory_unmasked [OF szC]
  note tD = index_register_addresses_memory_unmasked [OF szD]
  have xA: "x_of ?A = 1" and hA: "height_of ?A = 5" and xpA: "x_pos ?A = 59" and ypA: "y_pos ?A = 0"
    by (simp_all add: x_of_def y_of_def height_of_def x_pos_def y_pos_def power_on_registers)
  have xB: "x_of ?B = 1" and hB: "height_of ?B = 5"
    by (simp_all add: x_of_def height_of_def)
  have hC: "height_of ?C = 5" and xpC: "x_pos ?C = 0" and ypC: "y_pos ?C = 0"
    by (simp_all add: x_of_def y_of_def height_of_def x_pos_def y_pos_def power_on_registers)
  have hD: "height_of ?D = 2" and xpD: "x_pos ?D = 0" and ypD: "y_pos ?D = 31"
    by (simp_all add: x_of_def y_of_def height_of_def x_pos_def y_pos_def power_on_registers)
  have iA: "unat (i ?A) = 0x300" and iB: "unat (i ?B) = 0x1000"
    and iC: "unat (i ?C) = 0xFFE" and iD: "unat (i ?D) = 0x300"
    by simp_all
  \<comment> \<open>register dump\<close>
  have "\<exists>m. OP_Fx55 ?A = Inr (?A\<lparr>memory := m\<rparr>) \<and> length m = MEMORY_SIZE \<and>
          (\<forall>a<MEMORY_SIZE. m ! a =
             (if unat (i ?A) \<le> a \<and> a \<le> unat (i ?A) + x_of ?A then v ?A ! (a - unat (i ?A))
              else memory ?A ! a))"
    using tA [THEN conjunct1] unfolding xA iA by simp
  then obtain m where m: "OP_Fx55 ?A = Inr (?A\<lparr>memory := m\<rparr>)"
    and cells: "\<forall>a<MEMORY_SIZE. m ! a =
             (if unat (i ?A) \<le> a \<and> a \<le> unat (i ?A) + x_of ?A then v ?A ! (a - unat (i ?A))
              else memory ?A ! a)"
    by blast
  have "m ! 0x300 = 7" "m ! 0x301 = 123" "m ! 0x302 = 0xFF"
    using cells [rule_format, of "0x300"] cells [rule_format, of "0x301"]
      cells [rule_format, of "0x302"]
    unfolding xA iA by (simp_all add: power_on_registers)
  with m have dump: "\<exists>m. OP_Fx55 ?A =
          Inr (power_on\<lparr>opcode := 0xF155, i := 0x300, v := (v power_on)[0 := 7, 1 := 123],
                         memory := m\<rparr>) \<and>
        m ! 0x300 = 7 \<and> m ! 0x301 = 123 \<and> m ! 0x302 = 0xFF"
    by (intro exI [of _ m]) simp
  \<comment> \<open>register load\<close>
  have "\<exists>vs. OP_Fx65 ?A = Inr (?A\<lparr>v := vs\<rparr>) \<and> length vs = 16 \<and>
          (\<forall>k<16. vs ! k = (if k \<le> x_of ?A then memory ?A ! (unat (i ?A) + k) else v ?A ! k))"
    using tA [THEN conjunct2, THEN conjunct1] unfolding xA iA by simp
  then obtain vs where vs: "OP_Fx65 ?A = Inr (?A\<lparr>v := vs\<rparr>)"
    and regs: "\<forall>k<16. vs ! k = (if k \<le> x_of ?A then memory ?A ! (unat (i ?A) + k) else v ?A ! k)"
    by blast
  have "vs ! 0 = 0xFF" "vs ! 1 = 0xFF" "vs ! 2 = 0"
    using regs [rule_format, of 0] regs [rule_format, of 1] regs [rule_format, of 2]
    unfolding xA iA by (simp_all add: power_on_registers)
  with vs have load: "\<exists>vs. OP_Fx65 ?A =
          Inr (power_on\<lparr>opcode := 0xF155, i := 0x300, memory := replicate 4096 0xFF,
                         v := vs\<rparr>) \<and>
        vs ! 0 = 0xFF \<and> vs ! 1 = 0xFF \<and> vs ! 2 = 0"
    by (intro exI [of _ vs]) simp
  \<comment> \<open>decimal digits\<close>
  have bcd: "OP_Fx33 ?A =
     Inr (power_on\<lparr>opcode := 0xF155, i := 0x300, v := (v power_on)[0 := 7, 1 := 123],
                    memory := (replicate 4096 0xFF)[0x302 := 3, 0x301 := 2, 0x300 := 1]\<rparr>)"
    using tA [THEN conjunct2, THEN conjunct2, THEN conjunct1] unfolding xA iA
    by (simp add: power_on_registers)
  \<comment> \<open>draw, every row inside memory and every cell inside the framebuffer\<close>
  have nobadA: "\<forall>r<height_of ?A. \<forall>c<8.
       unat (i ?A) + r < MEMORY_SIZE \<and> memory ?A ! (unat (i ?A) + r) AND drop_bit c 0x80 \<noteq> 0 \<longrightarrow>
       screen_index (x_pos ?A) (y_pos ?A) r c < VIDEO_WIDTH * VIDEO_HEIGHT"
    unfolding hA iA xpA ypA by (simp add: screen_index_def)
  have rowsA: "\<forall>r<height_of ?A. unat (i ?A) + r < MEMORY_SIZE"
    unfolding hA iA by simp
  note dA = tA [THEN conjunct2, THEN conjunct2, THEN conjunct2, THEN conjunct1,
      unfolded if_P [OF nobadA] if_P [OF rowsA]]
  from dA obtain g w where gw: "OP_Dxyn ?A = Inr (?A\<lparr>v := w, gfx := g\<rparr>)" "length g = 2048"
    by blast
  then have draw: "\<exists>g w. OP_Dxyn ?A =
          Inr (power_on\<lparr>opcode := 0xF155, i := 0x300, memory := replicate 4096 0xFF,
                         v := w, gfx := g\<rparr>) \<and>
        length g = 2048"
    by (intro exI [of _ g] exI [of _ w]) simp
  \<comment> \<open>add-index\<close>
  have idx: "i (OP_Fx1E ?A) = 0x37B"
    using tA [THEN conjunct2, THEN conjunct2, THEN conjunct2, THEN conjunct2, THEN conjunct1]
    unfolding xA by (simp add: power_on_registers)
  \<comment> \<open>the index register at 0x1000\<close>
  have dumpB: "OP_Fx55 ?B = Inl (MemoryOutOfBounds 4096)"
    using tB [THEN conjunct1] unfolding xB iB by simp
  have loadB: "OP_Fx65 ?B = Inl (MemoryOutOfBounds 4096)"
    using tB [THEN conjunct2, THEN conjunct1] unfolding xB iB by simp
  have bcdB: "OP_Fx33 ?B = Inl (MemoryOutOfBounds 4098)"
    using tB [THEN conjunct2, THEN conjunct2, THEN conjunct1] unfolding iB by simp
  have nobadB: "\<forall>r<height_of ?B. \<forall>c<8.
       unat (i ?B) + r < MEMORY_SIZE \<and> memory ?B ! (unat (i ?B) + r) AND drop_bit c 0x80 \<noteq> 0 \<longrightarrow>
       screen_index (x_pos ?B) (y_pos ?B) r c < VIDEO_WIDTH * VIDEO_HEIGHT"
    unfolding iB by simp
  have norowB: "\<not> (\<forall>r<height_of ?B. unat (i ?B) + r < MEMORY_SIZE)"
  proof
    assume "\<forall>r<height_of ?B. unat (i ?B) + r < MEMORY_SIZE"
    from this [rule_format, of 0] show False
      unfolding hB iB by simp
  qed
  note dB = tB [THEN conjunct2, THEN conjunct2, THEN conjunct2, THEN conjunct1,
      unfolded if_P [OF nobadB] if_not_P [OF norowB]]
  have drawB: "OP_Dxyn ?B = Inl (MemoryOutOfBounds 4096)"
    using dB unfolding iB by simp
  \<comment> \<open>draw, the third of five rows at 4096\<close>
  have nobadC: "\<forall>r<height_of ?C. \<forall>c<8.
       unat (i ?C) + r < MEMORY_SIZE \<and> memory ?C ! (unat (i ?C) + r) AND drop_bit c 0x80 \<noteq> 0 \<longrightarrow>
       screen_index (x_pos ?C) (y_pos ?C) r c < VIDEO_WIDTH * VIDEO_HEIGHT"
    unfolding hC iC xpC ypC by (simp add: screen_index_def)
  have norowC: "\<not> (\<forall>r<height_of ?C. unat (i ?C) + r < MEMORY_SIZE)"
  proof
    assume "\<forall>r<height_of ?C. unat (i ?C) + r < MEMORY_SIZE"
    from this [rule_format, of 2] show False
      unfolding hC iC by simp
  qed
  note dC = tC [THEN conjunct2, THEN conjunct2, THEN conjunct2, THEN conjunct1,
      unfolded if_P [OF nobadC] if_not_P [OF norowC]]
  have drawC: "OP_Dxyn ?C = Inl (MemoryOutOfBounds 4096)"
    using dC unfolding iC by simp
  \<comment> \<open>draw, the second of two rows below the last line of the display\<close>
  have badD: "\<not> (\<forall>r<height_of ?D. \<forall>c<8.
       unat (i ?D) + r < MEMORY_SIZE \<and> memory ?D ! (unat (i ?D) + r) AND drop_bit c 0x80 \<noteq> 0 \<longrightarrow>
       screen_index (x_pos ?D) (y_pos ?D) r c < VIDEO_WIDTH * VIDEO_HEIGHT)"
  proof
    assume "\<forall>r<height_of ?D. \<forall>c<8.
       unat (i ?D) + r < MEMORY_SIZE \<and> memory ?D ! (unat (i ?D) + r) AND drop_bit c 0x80 \<noteq> 0 \<longrightarrow>
       screen_index (x_pos ?D) (y_pos ?D) r c < VIDEO_WIDTH * VIDEO_HEIGHT"
    from this [rule_format, of 1 0] show False
      unfolding hD iD xpD ypD by (simp add: screen_index_def)
  qed
  note dD = tD [THEN conjunct2, THEN conjunct2, THEN conjunct2, THEN conjunct1,
      unfolded if_not_P [OF badD]]
  from dD obtain r c where r: "r < height_of ?D" and c: "c < 8"
    and out: "\<not> screen_index (x_pos ?D) (y_pos ?D) r c < VIDEO_WIDTH * VIDEO_HEIGHT"
    and before: "\<forall>r' c'. c' < 8 \<and> (r' < r \<or> r' = r \<and> c' < c) \<and>
             memory ?D ! (unat (i ?D) + r') AND drop_bit c' 0x80 \<noteq> 0 \<longrightarrow>
             screen_index (x_pos ?D) (y_pos ?D) r' c' < VIDEO_WIDTH * VIDEO_HEIGHT"
    and res: "OP_Dxyn ?D = Inl (VideoOutOfBounds (screen_index (x_pos ?D) (y_pos ?D) r c))"
    by blast
  have r1: "r = 1"
    using r c out unfolding hD xpD ypD by (simp add: screen_index_def)
  have c0: "c = 0"
  proof (rule ccontr)
    assume "c \<noteq> 0"
    then have "(0 :: nat) < 8 \<and> (r < r \<or> r = r \<and> 0 < c) \<and>
        memory ?D ! (unat (i ?D) + r) AND drop_bit 0 0x80 \<noteq> 0"
      using r1 by simp
    with before have "screen_index (x_pos ?D) (y_pos ?D) r 0 < VIDEO_WIDTH * VIDEO_HEIGHT"
      by blast
    then show False
      unfolding r1 xpD ypD by (simp add: screen_index_def)
  qed
  have drawD: "OP_Dxyn ?D = Inl (VideoOutOfBounds 2048)"
    using res unfolding r1 c0 xpD ypD by (simp add: screen_index_def)
  from szA dump load bcd draw idx szB dumpB loadB bcdB drawB szC drawC szD drawD show ?thesis
    by (intro conjI)
qed

end
